(* ===== verification/Prelude.thy ===== *)
theory Prelude
  imports Main "HOL-Library.AList" "HOL-Library.Word"
begin

text \<open>
  Shared vocabulary of the development. Python dictionaries keep insertion order and
  the registry's responses and sweeps depend on it, so a dictionary is an association
  list with distinct keys, read with \<open>map_of\<close> and written with \<open>AList.update\<close>
  (an existing key keeps its position, a new key is appended, as in CPython) and
  \<open>AList.delete\<close>. The theory also fixes bytes as \<open>8 word\<close>, Python's
  \<open>str.lower\<close> on ASCII text, a decimal rendering of numbers, and the lemma
  collections the component theories share.
\<close>

named_theorems dict_simps "facts on dictionaries (association lists) used by the components"
named_theorems store_simps "facts on the key-value store shared by the components"
named_theorems eval_simps "equations that evaluate the model on concrete inputs"

type_synonym ('k, 'v) dict = "('k \<times> 'v) list"
type_synonym byte = "8 word"

text \<open>A JSON object whose values are strings (delegations, messages).\<close>
type_synonym jobj = "(string, string) dict"

definition dkeys :: "('k, 'v) dict \<Rightarrow> 'k list" where
  "dkeys d = map fst d"

definition dict_ok :: "('k, 'v) dict \<Rightarrow> bool" where
  "dict_ok d \<longleftrightarrow> distinct (dkeys d)"

text \<open>\<open>d.setdefault(k, v)\<close>: insert \<open>v\<close> under \<open>k\<close> only when \<open>k\<close> is absent.\<close>
definition setdefault :: "'k \<Rightarrow> 'v \<Rightarrow> ('k, 'v) dict \<Rightarrow> ('k, 'v) dict" where
  "setdefault k v d = (if k \<in> set (dkeys d) then d else d @ [(k, v)])"

text \<open>\<open>d.get(k, default)\<close>.\<close>
definition dget :: "('k, 'v) dict \<Rightarrow> 'k \<Rightarrow> 'v \<Rightarrow> 'v" where
  "dget d k v0 = (case map_of d k of Some v \<Rightarrow> v | None \<Rightarrow> v0)"

subsection \<open>Strings\<close>

definition lower_char :: "char \<Rightarrow> char" where
  "lower_char c = (let n = (of_char c :: nat) in if 65 \<le> n \<and> n \<le> 90 then char_of (n + 32) else c)"

text \<open>\<open>str.lower()\<close>, on the ASCII letters (the names the registry validates are ASCII).\<close>
definition lower :: "string \<Rightarrow> string" where
  "lower s = map lower_char s"

fun show_nat :: "nat \<Rightarrow> string" where
  "show_nat n = (if n < 10 then [char_of (48 + n)] else show_nat (n div 10) @ [char_of (48 + n mod 10)])"

definition show_int :: "int \<Rightarrow> string" where
  "show_int i = (if i < 0 then CHR ''-'' # show_nat (nat (- i)) else show_nat (nat i))"

text \<open>\<^verbatim>\<open>a in b\<close> on strings: \<open>a\<close> occurs in \<open>b\<close> as a contiguous substring.\<close>
fun contains :: "string \<Rightarrow> string \<Rightarrow> bool" where
  "contains a [] = (a = [])"
| "contains a (c # cs) = (take (length a) (c # cs) = a \<or> contains a cs)"

text \<open>\<^verbatim>\<open>str.isspace\<close> on ASCII characters.\<close>
definition is_ascii_ws :: "char \<Rightarrow> bool" where
  "is_ascii_ws c = (let n = (of_char c :: nat) in (9 \<le> n \<and> n \<le> 13) \<or> (28 \<le> n \<and> n \<le> 32))"

text \<open>\<^verbatim>\<open>str.strip()\<close> on ASCII text.\<close>
definition strip :: "string \<Rightarrow> string" where
  "strip t = rev (dropWhile is_ascii_ws (rev (dropWhile is_ascii_ws t)))"

declare is_ascii_ws_def [eval_simps] strip_def [eval_simps] lower_def [eval_simps] lower_char_def [eval_simps] char_of_eq_iff [eval_simps]
  setdefault_def [eval_simps] dget_def [eval_simps] show_int_def [eval_simps] Let_def [eval_simps]

lemma char_of_eq_iff_sym [eval_simps]: "c = char_of n \<longleftrightarrow> take_bit 8 n = of_char c"
  by (metis char_of_eq_iff)

subsection \<open>Dictionary lemmas\<close>

lemma dkeys_simps [simp, dict_simps]:
  "dkeys [] = []" "dkeys ((k, v) # d) = k # dkeys d" "dkeys (d @ e) = dkeys d @ dkeys e"
  by (simp_all add: dkeys_def)

lemma set_dkeys_map_of [dict_simps]: "k \<in> set (dkeys d) \<longleftrightarrow> map_of d k \<noteq> None"
  by (induction d) (auto simp: dkeys_def)

lemma dkeys_update [simp, dict_simps]: "set (dkeys (AList.update k v d)) = insert k (set (dkeys d))"
  by (simp add: dkeys_def dom_update)

lemma dict_ok_update [dict_simps]: "dict_ok d \<Longrightarrow> dict_ok (AList.update k v d)"
  by (simp add: dict_ok_def dkeys_def distinct_update)

lemma dict_ok_filter [dict_simps]: "dict_ok d \<Longrightarrow> dict_ok (filter P d)"
  by (induction d) (auto simp: dict_ok_def dkeys_def)

lemma dict_ok_setdefault [dict_simps]: "dict_ok d \<Longrightarrow> dict_ok (setdefault k v d)"
  by (simp add: setdefault_def dict_ok_def)

lemma map_of_setdefault [dict_simps]:
  "map_of (setdefault k v d) k' = (if k' = k \<and> map_of d k = None then Some v else map_of d k')"
  by (auto simp: setdefault_def set_dkeys_map_of map_of_append map_add_def split: option.splits)

lemma map_of_filter_in [dict_simps]:
  "P (k, v) \<Longrightarrow> map_of d k = Some v \<Longrightarrow> dict_ok d \<Longrightarrow> map_of (filter P d) k = Some v"
  by (induction d) (auto simp: dict_ok_def dkeys_def split: if_splits)

lemma map_of_filter_SomeD [dict_simps]:
  "dict_ok d \<Longrightarrow> map_of (filter P d) k = Some v \<Longrightarrow> map_of d k = Some v"
  by (induction d) (force simp: dict_ok_def dkeys_def map_of_eq_None_iff split: if_splits)+

lemma update_same_noop [dict_simps]: "map_of d k = Some v \<Longrightarrow> AList.update k v d = d"
  by (rule update_triv)

lemma set_filter_dkeys [dict_simps]:
  "set (dkeys (filter P d)) \<subseteq> set (dkeys d)"
  by (auto simp: dkeys_def)

lemma in_set_update [dict_simps]:
  "dict_ok d \<Longrightarrow> (a, b) \<in> set (AList.update k v d) \<longleftrightarrow> (a = k \<and> b = v) \<or> (a \<noteq> k \<and> (a, b) \<in> set d)"
  by (induction d) (force simp: dict_ok_def dkeys_def)+

lemma dict_ok_map_of_in [dict_simps]: "dict_ok d \<Longrightarrow> (k, v) \<in> set d \<longleftrightarrow> map_of d k = Some v"
  by (simp add: dict_ok_def dkeys_def)

lemma update_as_map [dict_simps]:
  "dict_ok d \<Longrightarrow> (k, v) \<in> set d \<Longrightarrow>
   AList.update k v' d = map (\<lambda>(k', w). if k' = k then (k', v') else (k', w)) d"
proof (induction d)
  case (Cons a d)
  obtain k1 w1 where a: "a = (k1, w1)" by (cases a)
  show ?case
  proof (cases "k1 = k")
    case True
    with Cons.prems a have "k \<notin> fst ` set d" by (simp add: dict_ok_def dkeys_def)
    then have "map (\<lambda>(k', w). if k' = k then (k', v') else (k', w)) d = d"
      by (induction d) auto
    with True a show ?thesis by simp
  next
    case False
    with Cons a show ?thesis by (simp add: dict_ok_def dkeys_def)
  qed
qed simp

lemma dkeys_map_fst [dict_simps]: "(\<And>x. fst (g x) = fst x) \<Longrightarrow> dkeys (map g d) = dkeys d"
  by (simp add: dkeys_def)

subsection \<open>String lemmas\<close>

lemma lower_idem [simp]: "lower (lower s) = lower s"
  by (induction s) (auto simp: lower_def lower_char_def Let_def)

lemma lower_Nil [simp]: "lower s = [] \<longleftrightarrow> s = []"
  by (simp add: lower_def)

end
