(* ===== verification/Store.thy ===== *)
theory Store
  imports Prelude
begin

text \<open>
  The data model of \<^verbatim>\<open>src/backend/gdb_ops.py\<close>: an identity record (the JSON object
  \<^verbatim>\<open>write_gdb_data\<close> builds), its name leases, the replicated key-value store
  (\<^verbatim>\<open>CFGDBGroup\<close>, an external collaborator, modelled as an ordered dictionary from
  keys to stored values that may fail to decode) and the helpers every component calls:
  \<^verbatim>\<open>_get_all_gdb_data\<close>, \<^verbatim>\<open>_is_name_taken\<close> and \<^verbatim>\<open>_get_public_hash\<close>.
  Timestamps are seconds since the epoch. A stored ISO timestamp is either timezone-aware
  (every timestamp the code writes is), naive, unparsable or missing; the sweeper and
  the renewal path treat the four differently.
\<close>

datatype stamp = Aware int | Naive int | Unparsable | Missing

record name_entry =
  created_at :: stamp
  expires_on :: stamp
  tx_hash :: "string option"

record identity =
  public_hash :: string
  guuid :: "string option"
  sign_id :: int
  registered_names :: "(string, name_entry) dict"
  socials :: "(string, string) dict"
  bio :: string
  dinosaur_wallets :: "(string, string) dict"
  nft_images :: "string list"
  profile_picture :: string
  delegations :: "jobj list"
  messages :: "jobj list"
  modified_at :: "stamp option"

text \<open>A stored value either decodes as a record or is bytes that \<^verbatim>\<open>json.loads\<close> rejects.\<close>
datatype stored = Rec identity | Garbage

type_synonym store = "(string, stored) dict"

text \<open>\<^verbatim>\<open>gdb_group.get\<close> and \<^verbatim>\<open>gdb_group.set\<close>.\<close>
definition gdb_get :: "store \<Rightarrow> string \<Rightarrow> stored option" where
  "gdb_get s k = map_of s k"

definition gdb_set :: "string \<Rightarrow> stored \<Rightarrow> store \<Rightarrow> store" where
  "gdb_set k v s = AList.update k v s"

text \<open>\<^verbatim>\<open>_get_all_gdb_data\<close>: every record that decodes, in store order; the others are
  logged and skipped.\<close>
fun get_all_gdb_data :: "store \<Rightarrow> (string \<times> identity) list" where
  "get_all_gdb_data [] = []"
| "get_all_gdb_data ((k, Rec r) # s) = (k, r) # get_all_gdb_data s"
| "get_all_gdb_data ((k, Garbage) # s) = get_all_gdb_data s"

text \<open>\<^verbatim>\<open>_is_name_taken\<close>: the name is a key of the \<^verbatim>\<open>registered_names\<close> of a record
  other than the excluded one. Expiry is not consulted.\<close>
fun is_name_taken :: "string \<Rightarrow> (string \<times> identity) list \<Rightarrow> string \<Rightarrow> bool" where
  "is_name_taken name [] excl = False"
| "is_name_taken name ((k, r) # rs) excl =
     ((k \<noteq> excl \<and> name \<in> set (dkeys (registered_names r))) \<or> is_name_taken name rs excl)"

text \<open>A parsed Cellframe v1 address, as \<^verbatim>\<open>parse_cf_v1_address\<close> returns it.\<close>
record cf_addr =
  addr_version :: nat
  addr_net_id :: nat
  addr_sign_id :: nat
  addr_public_hash :: "byte list"
  addr_summary_hash :: "byte list"
  addr_control_hash :: "byte list"

type_synonym addr_parser = "string \<Rightarrow> cf_addr option"

subsection \<open>Hex encoding of the public hash\<close>

definition hex_digit :: "nat \<Rightarrow> char" where
  "hex_digit n = ''0123456789abcdef'' ! n"

text \<open>\<^verbatim>\<open>bytes.hex()\<close>: two lower-case digits per byte.\<close>
definition hex :: "byte list \<Rightarrow> string" where
  "hex bs = concat (map (\<lambda>b. [hex_digit (unat b div 16), hex_digit (unat b mod 16)]) bs)"

text \<open>\<^verbatim>\<open>_get_public_hash\<close> (\<^verbatim>\<open>gdb_ops.py\<close>, lines 20--25): the hex public hash
  and the signature id of the data's wallet, or nothing when the wallet is absent or
  does not parse. The callers' test \<^verbatim>\<open>if not public_hash\<close> (lines 54, 117, 280)
  fails exactly in these cases: \<^verbatim>\<open>parse_cf_v1_address\<close> cuts the public hash as a
  fixed-length field of the decoded address, so a parsed address never has an empty
  one (an address parser that returned one would make the test reject it).\<close>
definition get_public_hash :: "addr_parser \<Rightarrow> string option \<Rightarrow> (string \<times> int) option" where
  "get_public_hash parse w =
     (case w of None \<Rightarrow> None
      | Some a \<Rightarrow> (case parse a of None \<Rightarrow> None
                  | Some c \<Rightarrow> Some (hex (addr_public_hash c), int (addr_sign_id c))))"

subsection \<open>The store invariant\<close>

text \<open>
  What every write of the registry keeps: the store is a dictionary, each record sits
  under its own public hash, its leases form a dictionary of lower-case names, and no
  name is a key of two records (the code's form of global name uniqueness: it holds
  for every leased name, expired or not, which implies it for the active ones).
\<close>

definition rec_ok :: "string \<Rightarrow> identity \<Rightarrow> bool" where
  "rec_ok k r \<longleftrightarrow> public_hash r = k \<and> dict_ok (registered_names r)
     \<and> (\<forall>n \<in> set (dkeys (registered_names r)). lower n = n)"

definition names_disjoint :: "identity \<Rightarrow> identity \<Rightarrow> bool" where
  "names_disjoint r1 r2 \<longleftrightarrow> set (dkeys (registered_names r1)) \<inter> set (dkeys (registered_names r2)) = {}"

definition names_unique :: "store \<Rightarrow> bool" where
  "names_unique s \<longleftrightarrow> (\<forall>(k1, r1) \<in> set (get_all_gdb_data s). \<forall>(k2, r2) \<in> set (get_all_gdb_data s).
     k1 \<noteq> k2 \<longrightarrow> names_disjoint r1 r2)"

definition wf_store :: "store \<Rightarrow> bool" where
  "wf_store s \<longleftrightarrow> dict_ok s \<and> (\<forall>(k, r) \<in> set (get_all_gdb_data s). rec_ok k r) \<and> names_unique s"

declare gdb_get_def [eval_simps] gdb_set_def [eval_simps] hex_def [eval_simps]
  hex_digit_def [eval_simps] get_public_hash_def [eval_simps] rec_ok_def [eval_simps]
  names_disjoint_def [eval_simps] names_unique_def [eval_simps] wf_store_def [eval_simps]
  dict_ok_def [eval_simps]

subsection \<open>Store lemmas\<close>

lemma gdb_get_set [store_simps]: "gdb_get (gdb_set k v s) k' = (if k' = k then Some v else gdb_get s k')"
  by (simp add: gdb_get_def gdb_set_def update_conv')

lemma get_all_gdb_data_set_fresh [store_simps]:
  "k \<notin> set (dkeys s) \<Longrightarrow> get_all_gdb_data (gdb_set k (Rec r) s) = get_all_gdb_data s @ [(k, r)]"
  by (induction s rule: get_all_gdb_data.induct) (auto simp: gdb_set_def)

lemma in_get_all_gdb_data [store_simps]: "(k, r) \<in> set (get_all_gdb_data s) \<longleftrightarrow> (k, Rec r) \<in> set s"
  by (induction s rule: get_all_gdb_data.induct) auto

lemma is_name_taken_iff [store_simps]:
  "is_name_taken n rs excl \<longleftrightarrow> (\<exists>(k, r) \<in> set rs. k \<noteq> excl \<and> n \<in> set (dkeys (registered_names r)))"
  by (induction rs) auto

lemma in_get_all_gdb_data_set [store_simps]:
  "dict_ok s \<Longrightarrow> (a, b) \<in> set (get_all_gdb_data (gdb_set k (Rec r) s)) \<longleftrightarrow>
     (a = k \<and> b = r) \<or> (a \<noteq> k \<and> (a, b) \<in> set (get_all_gdb_data s))"
  by (auto simp: in_get_all_gdb_data gdb_set_def in_set_update)

lemma dict_ok_gdb_set [store_simps]: "dict_ok s \<Longrightarrow> dict_ok (gdb_set k v s)"
  by (simp add: gdb_set_def dict_ok_update)

lemma gdb_get_Rec [store_simps]: "dict_ok s \<Longrightarrow> gdb_get s k = Some (Rec r) \<longleftrightarrow> (k, r) \<in> set (get_all_gdb_data s)"
  by (simp add: gdb_get_def in_get_all_gdb_data dict_ok_map_of_in)

lemma names_disjoint_sym: "names_disjoint r1 r2 \<longleftrightarrow> names_disjoint r2 r1"
  by (auto simp: names_disjoint_def)

text \<open>
  The one lemma every writer uses: storing a well-formed record under its key keeps the
  invariant when its names are disjoint from those of every other record.
\<close>

lemma wf_store_set [store_simps]:
  assumes "wf_store s" "rec_ok k r"
    and "\<forall>(k', r') \<in> set (get_all_gdb_data s). k' \<noteq> k \<longrightarrow> names_disjoint r r'"
  shows "wf_store (gdb_set k (Rec r) s)"
proof -
  have ok: "dict_ok s" using assms(1) by (simp add: wf_store_def)
  let ?s = "gdb_set k (Rec r) s"
  have recs: "rec_ok a b" if "(a, b) \<in> set (get_all_gdb_data ?s)" for a b
    using that assms(1,2) ok by (auto simp: in_get_all_gdb_data_set wf_store_def)
  have disj: "names_disjoint r1 r2"
    if m1: "(k1, r1) \<in> set (get_all_gdb_data ?s)" and m2: "(k2, r2) \<in> set (get_all_gdb_data ?s)"
      and ne: "k1 \<noteq> k2"
    for k1 r1 k2 r2
  proof -
    consider (fst_new) "k1 = k" "r1 = r" "(k2, r2) \<in> set (get_all_gdb_data s)" "k2 \<noteq> k"
      | (snd_new) "k2 = k" "r2 = r" "(k1, r1) \<in> set (get_all_gdb_data s)" "k1 \<noteq> k"
      | (old) "(k1, r1) \<in> set (get_all_gdb_data s)" "(k2, r2) \<in> set (get_all_gdb_data s)"
      using m1 m2 ne ok by (auto simp: in_get_all_gdb_data_set)
    then show ?thesis
    proof cases
      case fst_new
      then show ?thesis using assms(3) by auto
    next
      case snd_new
      then show ?thesis using assms(3) names_disjoint_sym by blast
    next
      case old
      then show ?thesis using assms(1) ne by (auto simp: wf_store_def names_unique_def)
    qed
  qed
  show ?thesis
    using ok recs disj by (auto simp: wf_store_def names_unique_def dict_ok_gdb_set)
qed

text \<open>Replacing the record under a key keeps the invariant when the new record is
  well-formed and its names are the old record's names plus names no other record has.\<close>

lemma wf_store_replace [store_simps]:
  assumes "wf_store s" "(k, r) \<in> set (get_all_gdb_data s)" "rec_ok k r'"
    and "set (dkeys (registered_names r')) \<subseteq> set (dkeys (registered_names r)) \<union> N"
    and "\<forall>n \<in> N. \<not> is_name_taken n (get_all_gdb_data s) k"
  shows "wf_store (gdb_set k (Rec r') s)"
proof (rule wf_store_set [OF assms(1,3)])
  have "names_disjoint r r''" if "(k'', r'') \<in> set (get_all_gdb_data s)" "k'' \<noteq> k" for k'' r''
    using assms(1,2) that by (auto simp: wf_store_def names_unique_def)
  then show "\<forall>(k'', r'') \<in> set (get_all_gdb_data s). k'' \<noteq> k \<longrightarrow> names_disjoint r' r''"
    using assms(4,5) by (fastforce simp: names_disjoint_def is_name_taken_iff)
qed

text \<open>Storing a record under a key no record occupies: its names must be free.\<close>

lemma wf_store_insert [store_simps]:
  assumes "wf_store s" "gdb_get s k = None" "rec_ok k r'"
    and "\<forall>n \<in> set (dkeys (registered_names r')). \<not> is_name_taken n (get_all_gdb_data s) k"
  shows "wf_store (gdb_set k (Rec r') s)"
  using assms by (intro wf_store_set) (fastforce simp: names_disjoint_def is_name_taken_iff)+

lemma names_uniqueD [store_simps]:
  "names_unique s \<Longrightarrow> (k1, r1) \<in> set (get_all_gdb_data s) \<Longrightarrow> (k2, r2) \<in> set (get_all_gdb_data s)
   \<Longrightarrow> k1 \<noteq> k2 \<Longrightarrow> names_disjoint r1 r2"
  unfolding names_unique_def by auto

text \<open>In a well-formed store the record that holds a name is its only holder.\<close>

lemma wf_store_holder_unique [store_simps]:
  assumes "wf_store s" "(k, r) \<in> set (get_all_gdb_data s)" "n \<in> set (dkeys (registered_names r))"
  shows "\<not> is_name_taken n (get_all_gdb_data s) k"
proof
  assume "is_name_taken n (get_all_gdb_data s) k"
  then obtain k' r' where m': "(k', r') \<in> set (get_all_gdb_data s)" and "k' \<noteq> k"
    and n': "n \<in> set (dkeys (registered_names r'))"
    by (auto simp: is_name_taken_iff)
  have "names_unique s" using assms(1) by (simp add: wf_store_def)
  then have "names_disjoint r r'"
    using names_uniqueD assms(2) m' \<open>k' \<noteq> k\<close> by metis
  then show False using assms(3) n' by (auto simp: names_disjoint_def)
qed

lemma distinct_get_all_gdb_data [store_simps]:
  "dict_ok s \<Longrightarrow> distinct (map fst (get_all_gdb_data s))"
proof (induction s rule: get_all_gdb_data.induct)
  case (2 k r s)
  have "k \<notin> fst ` set (get_all_gdb_data s)"
    using "2.prems" by (force simp: dict_ok_def dkeys_def in_get_all_gdb_data)
  then show ?case using 2 by (simp add: dict_ok_def)
qed (simp_all add: dict_ok_def)

end
