(* ===== verification/Registry.thy ===== *)
theory Registry
  imports Store
begin

text \<open>
  The write path of \<^verbatim>\<open>src/backend/gdb_ops.py\<close>: \<^verbatim>\<open>write_gdb_data\<close> (action
  "add") and \<^verbatim>\<open>update_gdb_data_old_name\<close> (action "update"). The request's JSON
  object is a payload record whose fields are present or absent as in the request; each
  raise and early return of the source is an error value, and each handler returns its
  result with the store it leaves. The clock, the address parser and the unique-id
  generator are the handler's environment.
\<close>

record payload =
  p_name :: "string option"
  p_wallet :: "string option"
  p_tx_hash :: "string option option"
  p_guuid :: "string option"
  p_socials :: "(string \<times> string option) list option"
  p_nft_images :: "string list option"
  p_bio :: "string option"
  p_profile_picture :: "string option"
  p_dinosaur_wallets :: "(string \<times> string) list option"
  p_delegations :: "jobj list option"
  p_messages :: "jobj list option"

definition empty_payload :: payload where
  "empty_payload = \<lparr>p_name = None, p_wallet = None, p_tx_hash = None, p_guuid = None,
     p_socials = None, p_nft_images = None, p_bio = None, p_profile_picture = None,
     p_dinosaur_wallets = None, p_delegations = None, p_messages = None\<rparr>"

record env =
  parse_wallet :: addr_parser
  clock :: int
  fresh_guuid :: string

datatype error =
    NameMissing
  | WalletParseFailed
  | AlreadyRegistered string
  | NameTaken string
  | NoExistingData string
  | GuuidImmutable
  | WriteFailed
  | UpdateFailed

datatype outcome = Created identity | Updated identity | NoChanges identity

type_synonym result = "(error + outcome) \<times> store"

text \<open>\<^verbatim>\<open>data.get("name", "").lower()\<close>\<close>
definition payload_name :: "payload \<Rightarrow> string" where
  "payload_name p = lower (case p_name p of None \<Rightarrow> [] | Some n \<Rightarrow> n)"

text \<open>\<^verbatim>\<open>if data.get("guuid")\<close>: a present, non-empty value.\<close>
definition guuid_given :: "payload \<Rightarrow> bool" where
  "guuid_given p = (case p_guuid p of None \<Rightarrow> False | Some g \<Rightarrow> g \<noteq> [])"

definition one_year :: int where
  "one_year = 365 * 86400"

definition new_lease :: "int \<Rightarrow> string option \<Rightarrow> name_entry" where
  "new_lease now tx = \<lparr>created_at = Aware now, expires_on = Aware (now + one_year), tx_hash = tx\<rparr>"

text \<open>\<^verbatim>\<open>datetime.fromisoformat(current_expiration) + timedelta(days=365)\<close>: a
  timestamp that does not parse raises \<^verbatim>\<open>ValueError\<close>, a missing one \<^verbatim>\<open>KeyError\<close>.\<close>
fun add_year :: "stamp \<Rightarrow> stamp option" where
  "add_year (Aware t) = Some (Aware (t + one_year))"
| "add_year (Naive t) = Some (Naive (t + one_year))"
| "add_year Unparsable = None"
| "add_year Missing = None"

text \<open>The name step of \<^verbatim>\<open>update_gdb_data_old_name\<close> (lines 131--152): uniqueness
  against every other record, then renewal of an owned name or a fresh lease.\<close>
definition register_name :: "env \<Rightarrow> payload \<Rightarrow> store \<Rightarrow> string \<Rightarrow> identity \<Rightarrow> error + identity" where
  "register_name e p s ph r =
     (let n = payload_name p in
      if n = [] then Inr r
      else if is_name_taken n (get_all_gdb_data s) ph then Inl (NameTaken n)
      else (case map_of (registered_names r) n of
        Some ent \<Rightarrow>
          (case add_year (expires_on ent) of
            None \<Rightarrow> Inl UpdateFailed
          | Some exp \<Rightarrow>
              Inr (r\<lparr>registered_names := AList.update n
                 (ent\<lparr>expires_on := exp,
                      tx_hash := (case p_tx_hash p of None \<Rightarrow> tx_hash ent | Some tx \<Rightarrow> tx)\<rparr>)
                 (registered_names r)\<rparr>))
      | None \<Rightarrow>
          Inr (r\<lparr>registered_names := AList.update n
             (new_lease (clock e) (case p_tx_hash p of None \<Rightarrow> Some [] | Some tx \<Rightarrow> tx))
             (registered_names r)\<rparr>)))"

text \<open>Socials merge key by key; a platform is added with an empty profile before
  its \<^verbatim>\<open>profile\<close> is copied, when the request gives one.\<close>
fun merge_socials :: "(string \<times> string option) list \<Rightarrow> (string, string) dict \<Rightarrow> (string, string) dict" where
  "merge_socials [] d = d"
| "merge_socials ((pl, det) # xs) d =
     merge_socials xs (let d1 = setdefault pl [] d in
                       case det of None \<Rightarrow> d1 | Some pr \<Rightarrow> AList.update pl pr d1)"

fun merge_wallets :: "(string \<times> string) list \<Rightarrow> (string, string) dict \<Rightarrow> (string, string) dict" where
  "merge_wallets [] d = d"
| "merge_wallets ((nw, a) # xs) d = merge_wallets xs (AList.update nw a d)"

text \<open>Delegations and messages: an empty list clears the field, otherwise each object
  gains the time stamp under \<open>key\<close> when it has none, and is appended.\<close>
definition append_stamped :: "string \<Rightarrow> int \<Rightarrow> jobj list \<Rightarrow> jobj list \<Rightarrow> jobj list" where
  "append_stamped key now new old =
     (if new = [] then [] else old @ map (setdefault key (show_int now)) new)"

text \<open>The field merges of lines 154--192, in the order of the source.\<close>
definition merge_fields :: "int \<Rightarrow> payload \<Rightarrow> identity \<Rightarrow> identity" where
  "merge_fields now p r0 =
     (let r1 = (case p_socials p of None \<Rightarrow> r0 | Some xs \<Rightarrow> r0\<lparr>socials := merge_socials xs (socials r0)\<rparr>);
          r2 = (case p_nft_images p of None \<Rightarrow> r1 | Some xs \<Rightarrow> r1\<lparr>nft_images := nft_images r1 @ xs\<rparr>);
          r3 = (case p_bio p of None \<Rightarrow> r2 | Some b \<Rightarrow> r2\<lparr>bio := b\<rparr>);
          r4 = (case p_profile_picture p of None \<Rightarrow> r3 | Some pic \<Rightarrow> r3\<lparr>profile_picture := pic\<rparr>);
          r5 = (case p_dinosaur_wallets p of None \<Rightarrow> r4
                | Some xs \<Rightarrow> r4\<lparr>dinosaur_wallets := merge_wallets xs (dinosaur_wallets r4)\<rparr>);
          r6 = (case p_delegations p of None \<Rightarrow> r5
                | Some ds \<Rightarrow> r5\<lparr>delegations := append_stamped ''delegation_time'' now ds (delegations r5)\<rparr>);
          r7 = (case p_messages p of None \<Rightarrow> r6
                | Some ms \<Rightarrow> r6\<lparr>messages := append_stamped ''timestamp'' now ms (messages r6)\<rparr>)
      in r7)"

text \<open>\<^verbatim>\<open>update_gdb_data_old_name\<close> (lines 114--207).\<close>
definition update_gdb_data_old_name :: "env \<Rightarrow> payload \<Rightarrow> store \<Rightarrow> result" where
  "update_gdb_data_old_name e p s =
     (case get_public_hash (parse_wallet e) (p_wallet p) of
       None \<Rightarrow> (Inl WalletParseFailed, s)
     | Some (ph, _) \<Rightarrow>
       (case gdb_get s ph of
         None \<Rightarrow> (Inl (NoExistingData ph), s)
       | Some Garbage \<Rightarrow> (Inl UpdateFailed, s)
       | Some (Rec r) \<Rightarrow>
           (if guuid_given p then (Inl GuuidImmutable, s)
            else (case register_name e p s ph r of
              Inl err \<Rightarrow> (Inl err, s)
            | Inr r1 \<Rightarrow>
                (let r2 = merge_fields (clock e) p r1 in
                 if r2 \<noteq> r
                 then (let r3 = r2\<lparr>modified_at := Some (Aware (clock e))\<rparr> in
                       (Inr (Updated (r3\<lparr>public_hash := ph\<rparr>)), gdb_set ph (Rec r3) s))
                 else (Inr (NoChanges r2), s))))))"

text \<open>The record \<^verbatim>\<open>write_gdb_data\<close> creates (lines 71--102).\<close>
definition new_identity :: "string \<Rightarrow> string \<Rightarrow> int \<Rightarrow> string \<Rightarrow> name_entry \<Rightarrow> identity" where
  "new_identity ph g sid n ent =
     \<lparr>public_hash = ph, guuid = Some g, sign_id = sid, registered_names = [(n, ent)],
      socials = [(''telegram'', []), (''x'', []), (''facebook'', []), (''instagram'', [])],
      bio = [], dinosaur_wallets = [(''BTC'', []), (''ETH'', []), (''SOL'', []), (''QEVM'', [])],
      nft_images = [], profile_picture = [], delegations = [], messages = [], modified_at = None\<rparr>"

text \<open>\<^verbatim>\<open>write_gdb_data\<close> (lines 45--112). An address that already owns a record is
  handed to the update path with the same request.\<close>
definition write_gdb_data :: "env \<Rightarrow> payload \<Rightarrow> store \<Rightarrow> result" where
  "write_gdb_data e p s =
     (let n = payload_name p in
      if n = [] then (Inl NameMissing, s)
      else (case get_public_hash (parse_wallet e) (p_wallet p) of
        None \<Rightarrow> (Inl WalletParseFailed, s)
      | Some (ph, sid) \<Rightarrow>
        (case gdb_get s ph of
          Some Garbage \<Rightarrow> (Inl WriteFailed, s)
        | Some (Rec r) \<Rightarrow>
            (if n \<in> set (dkeys (registered_names r)) then (Inl (AlreadyRegistered n), s)
             else update_gdb_data_old_name e p s)
        | None \<Rightarrow>
            (if is_name_taken n (get_all_gdb_data s) ph then (Inl (NameTaken n), s)
             else (let r = new_identity ph (lower (fresh_guuid e)) sid n
                         (new_lease (clock e) (case p_tx_hash p of None \<Rightarrow> None | Some tx \<Rightarrow> tx))
                   in (Inr (Created r), gdb_set ph (Rec r) s))))))"

text \<open>The two write actions of \<^verbatim>\<open>handle_post_request\<close> (\<^verbatim>\<open>src/backend/handlers.py\<close>,
  lines 48--51), once the request has passed validation.\<close>
datatype action = Add payload | Update payload

fun dispatch :: "env \<Rightarrow> action \<Rightarrow> store \<Rightarrow> result" where
  "dispatch e (Add p) s = write_gdb_data e p s"
| "dispatch e (Update p) s = update_gdb_data_old_name e p s"

declare empty_payload_def [eval_simps] payload_name_def [eval_simps] guuid_given_def [eval_simps]
  new_lease_def [eval_simps] register_name_def [eval_simps] append_stamped_def [eval_simps]
  merge_fields_def [eval_simps] update_gdb_data_old_name_def [eval_simps]
  new_identity_def [eval_simps] write_gdb_data_def [eval_simps]

subsection \<open>Facts on the steps of the update path\<close>

named_theorems registry_simps "facts on the write path"

lemma payload_name_lower [registry_simps]: "lower (payload_name p) = payload_name p"
  by (simp add: payload_name_def)

lemma merge_fields_frame [registry_simps]:
  "public_hash (merge_fields now p r) = public_hash r"
  "guuid (merge_fields now p r) = guuid r"
  "sign_id (merge_fields now p r) = sign_id r"
  "registered_names (merge_fields now p r) = registered_names r"
  "modified_at (merge_fields now p r) = modified_at r"
  by (simp_all add: merge_fields_def Let_def split: option.splits)

text \<open>What a successful name step does: only \<open>registered_names\<close> changes, by at most
  the requested name, and that name is free in every other record.\<close>

lemma register_name_Inr [registry_simps]:
  assumes "register_name e p s ph r = Inr r1"
  shows "r1 = r\<lparr>registered_names := registered_names r1\<rparr>"
    and "set (dkeys (registered_names r1)) \<subseteq> insert (payload_name p) (set (dkeys (registered_names r)))"
    and "dict_ok (registered_names r) \<Longrightarrow> dict_ok (registered_names r1)"
    and "payload_name p \<noteq> [] \<Longrightarrow> \<not> is_name_taken (payload_name p) (get_all_gdb_data s) ph"
    and "payload_name p = [] \<Longrightarrow> r1 = r"
  using assms
  by (auto simp: register_name_def Let_def dict_ok_update split: if_splits option.splits)

lemma rec_ok_register_name [registry_simps]:
  assumes "register_name e p s ph r = Inr r1" "rec_ok ph r"
  shows "rec_ok ph (merge_fields now p r1\<lparr>modified_at := m\<rparr>)"
proof -
  note step = register_name_Inr [OF assms(1)]
  have "public_hash r1 = public_hash r"
    by (subst step(1)) simp
  moreover have "\<forall>n \<in> set (dkeys (registered_names r1)). lower n = n"
    using step(2) assms(2) by (auto simp: rec_ok_def payload_name_lower)
  ultimately show ?thesis
    using assms(2) step(3) by (simp add: rec_ok_def merge_fields_frame)
qed

subsection \<open>The registry invariant\<close>

lemma update_gdb_data_old_name_wf [registry_simps]:
  assumes "wf_store s"
  shows "wf_store (snd (update_gdb_data_old_name e p s))"
proof -
  have ok: "dict_ok s" using assms by (simp add: wf_store_def)
  show ?thesis
  proof (cases "get_public_hash (parse_wallet e) (p_wallet p)")
    case None
    then show ?thesis using assms by (simp add: update_gdb_data_old_name_def)
  next
    case (Some a)
    obtain ph sid where a: "a = (ph, sid)" by (cases a)
    show ?thesis
    proof (cases "gdb_get s ph")
      case None
      then show ?thesis using assms Some a by (simp add: update_gdb_data_old_name_def)
    next
      case (Some v)
      show ?thesis
      proof (cases v)
        case Garbage
        then show ?thesis
          using assms \<open>gdb_get s ph = Some v\<close> \<open>get_public_hash _ _ = Some a\<close> a
          by (simp add: update_gdb_data_old_name_def)
      next
        case (Rec r)
        have mem: "(ph, r) \<in> set (get_all_gdb_data s)"
          using \<open>gdb_get s ph = Some v\<close> Rec ok by (simp add: gdb_get_Rec)
        have rok: "rec_ok ph r" using assms mem by (auto simp: wf_store_def)
        show ?thesis
        proof (cases "register_name e p s ph r")
          case (Inl err)
          then show ?thesis
            using assms \<open>gdb_get s ph = Some v\<close> \<open>get_public_hash _ _ = Some a\<close> a Rec
            by (simp add: update_gdb_data_old_name_def)
        next
          case (Inr r1)
          note step = register_name_Inr [OF Inr]
          let ?r3 = "merge_fields (clock e) p r1\<lparr>modified_at := Some (Aware (clock e))\<rparr>"
          have "rec_ok ph ?r3" by (rule rec_ok_register_name [OF Inr rok])
          moreover have "set (dkeys (registered_names ?r3))
              \<subseteq> set (dkeys (registered_names r)) \<union> (if payload_name p = [] then {} else {payload_name p})"
            using step(2) step(5) by (auto simp: merge_fields_frame)
          moreover have "\<forall>n \<in> (if payload_name p = [] then {} else {payload_name p}).
              \<not> is_name_taken n (get_all_gdb_data s) ph"
            using step(4) by simp
          ultimately have "wf_store (gdb_set ph (Rec ?r3) s)"
            by (rule wf_store_replace [OF assms mem])
          then show ?thesis
            using assms \<open>gdb_get s ph = Some v\<close> \<open>get_public_hash _ _ = Some a\<close> a Rec Inr
            by (simp add: update_gdb_data_old_name_def Let_def)
        qed
      qed
    qed
  qed
qed

lemma rec_ok_new_identity [registry_simps]:
  "lower n = n \<Longrightarrow> rec_ok ph (new_identity ph g sid n ent)"
  by (simp add: rec_ok_def new_identity_def dict_ok_def)

lemma write_gdb_data_wf [registry_simps]:
  assumes "wf_store s"
  shows "wf_store (snd (write_gdb_data e p s))"
proof (cases "payload_name p = [] \<or> get_public_hash (parse_wallet e) (p_wallet p) = None")
  case True
  then show ?thesis using assms by (auto simp: write_gdb_data_def Let_def)
next
  case False
  then obtain ph sid where pk: "get_public_hash (parse_wallet e) (p_wallet p) = Some (ph, sid)"
    and n: "payload_name p \<noteq> []" by auto
  show ?thesis
  proof (cases "gdb_get s ph")
    case None
    let ?r = "new_identity ph (lower (fresh_guuid e)) sid (payload_name p)
       (new_lease (clock e) (case p_tx_hash p of None \<Rightarrow> None | Some tx \<Rightarrow> tx))"
    have "wf_store (gdb_set ph (Rec ?r) s)"
      if "\<not> is_name_taken (payload_name p) (get_all_gdb_data s) ph"
      using assms None rec_ok_new_identity [OF payload_name_lower] that
      by (intro wf_store_insert) (simp_all add: new_identity_def)
    then show ?thesis using assms n pk None by (simp add: write_gdb_data_def Let_def)
  next
    case (Some v)
    then show ?thesis
      using assms n pk update_gdb_data_old_name_wf [OF assms]
      by (cases v) (simp_all add: write_gdb_data_def Let_def)
  qed
qed

lemma merge_socials_noop [registry_simps]:
  "\<forall>(pl, det) \<in> set xs. \<exists>v. map_of d pl = Some v \<and> (det = None \<or> det = Some v)
   \<Longrightarrow> merge_socials xs d = d"
  by (induction xs) (auto simp: setdefault_def set_dkeys_map_of update_triv)

lemma merge_wallets_noop [registry_simps]:
  "\<forall>(nw, a) \<in> set xs. map_of d nw = Some a \<Longrightarrow> merge_wallets xs d = d"
  by (induction xs) (auto simp: update_triv)

lemma update_other_key [registry_simps]:
  assumes "update_gdb_data_old_name e p s = (res, s')" "k \<noteq> ph"
    and "get_public_hash (parse_wallet e) (p_wallet p) = Some (ph, sid)"
  shows "gdb_get s' k = gdb_get s k"
  using assms
  by (auto simp: update_gdb_data_old_name_def Let_def gdb_get_set
           split: option.splits stored.splits sum.splits if_splits)

lemma update_same_key [registry_simps]:
  assumes "update_gdb_data_old_name e p s = (res, s')"
    and "gdb_get s k = Some (Rec r)" "gdb_get s' k = Some (Rec r')"
  shows "guuid r' = guuid r \<and> public_hash r' = public_hash r \<and> sign_id r' = sign_id r"
proof -
  have "r' = r \<or> (\<exists>r1. register_name e p s k r = Inr r1 \<and>
           r' = merge_fields (clock e) p r1\<lparr>modified_at := Some (Aware (clock e))\<rparr>)"
    using assms
    by (auto simp: update_gdb_data_old_name_def Let_def gdb_get_set
             split: option.splits stored.splits sum.splits if_splits)
  then show ?thesis
  proof
    assume "\<exists>r1. register_name e p s k r = Inr r1 \<and>
           r' = merge_fields (clock e) p r1\<lparr>modified_at := Some (Aware (clock e))\<rparr>"
    then obtain r1 where r1: "register_name e p s k r = Inr r1"
      and r': "r' = merge_fields (clock e) p r1\<lparr>modified_at := Some (Aware (clock e))\<rparr>" by blast
    have "r1 = r\<lparr>registered_names := registered_names r1\<rparr>" by (rule register_name_Inr(1) [OF r1])
    then have "guuid r1 = guuid r \<and> public_hash r1 = public_hash r \<and> sign_id r1 = sign_id r"
      by (metis identity.select_convs identity.surjective identity.update_convs(4))
    then show ?thesis by (simp add: r' merge_fields_frame)
  qed simp
qed

lemma merge_fields_noop [registry_simps]:
  assumes "p_nft_images p = None \<or> p_nft_images p = Some []"
    and "p_delegations p = None" "p_messages p = None"
    and "p_bio p = None \<or> p_bio p = Some (bio r)"
    and "p_profile_picture p = None \<or> p_profile_picture p = Some (profile_picture r)"
    and "\<forall>xs. p_socials p = Some xs \<longrightarrow>
           (\<forall>(pl, det) \<in> set xs. \<exists>v. map_of (socials r) pl = Some v \<and> (det = None \<or> det = Some v))"
    and "\<forall>xs. p_dinosaur_wallets p = Some xs \<longrightarrow> (\<forall>(nw, a) \<in> set xs. map_of (dinosaur_wallets r) nw = Some a)"
  shows "merge_fields now p r = r"
proof -
  have s1: "(case p_socials p of None \<Rightarrow> r | Some xs \<Rightarrow> r\<lparr>socials := merge_socials xs (socials r)\<rparr>) = r"
    using assms(6) by (cases "p_socials p") (simp_all add: merge_socials_noop)
  have s2: "(case p_nft_images p of None \<Rightarrow> r | Some xs \<Rightarrow> r\<lparr>nft_images := nft_images r @ xs\<rparr>) = r"
    using assms(1) by auto
  have s3: "(case p_bio p of None \<Rightarrow> r | Some b \<Rightarrow> r\<lparr>bio := b\<rparr>) = r"
    using assms(4) by auto
  have s4: "(case p_profile_picture p of None \<Rightarrow> r | Some pic \<Rightarrow> r\<lparr>profile_picture := pic\<rparr>) = r"
    using assms(5) by auto
  have s5: "(case p_dinosaur_wallets p of None \<Rightarrow> r
             | Some xs \<Rightarrow> r\<lparr>dinosaur_wallets := merge_wallets xs (dinosaur_wallets r)\<rparr>) = r"
    using assms(7) by (cases "p_dinosaur_wallets p") (simp_all add: merge_wallets_noop)
  show ?thesis
    unfolding merge_fields_def Let_def using assms(2,3) by (simp only: s1 s2 s3 s4 s5 option.case)
qed

subsection \<open>Properties of the write path\<close>

text \<open>
  C2. Creating an identity for an address that owns no record, with a name no record
  holds, stores under the address's public hash a record whose only lease is that name,
  created now and expiring one year later, with the generated (lower-cased) guuid and
  no \<^verbatim>\<open>modified_at\<close>, and returns that record.
\<close>

theorem create_fresh_identity:
  assumes "payload_name p = n" "n \<noteq> []"
    and "get_public_hash (parse_wallet e) (p_wallet p) = Some (ph, sid)"
    and "gdb_get s ph = None" "\<not> is_name_taken n (get_all_gdb_data s) ph"
  shows "\<exists>r ent. write_gdb_data e p s = (Inr (Created r), gdb_set ph (Rec r) s)
           \<and> registered_names r = [(n, ent)]
           \<and> created_at ent = Aware (clock e) \<and> expires_on ent = Aware (clock e + one_year)
           \<and> guuid r = Some (lower (fresh_guuid e)) \<and> public_hash r = ph \<and> sign_id r = sid
           \<and> modified_at r = None"
  using assms by (simp add: write_gdb_data_def new_identity_def new_lease_def Let_def)

text \<open>
  C3. A name held by another record cannot be taken: an "add" request for it from any
  address that does not already hold it fails with \<^verbatim>\<open>NameTaken\<close> and writes
  nothing, whether the address owns no record yet or already owns one (the request then
  goes through the update path).
\<close>

theorem create_name_taken:
  assumes "payload_name p = n" "n \<noteq> []"
    and "get_public_hash (parse_wallet e) (p_wallet p) = Some (ph, sid)"
    and "is_name_taken n (get_all_gdb_data s) ph" "\<not> guuid_given p"
    and "gdb_get s ph = None \<or> (\<exists>r. gdb_get s ph = Some (Rec r) \<and> n \<notin> set (dkeys (registered_names r)))"
  shows "write_gdb_data e p s = (Inl (NameTaken n), s)"
  using assms
  by (auto simp: write_gdb_data_def update_gdb_data_old_name_def register_name_def Let_def)

text \<open>
  C4. Re-registering a name the caller already holds extends its lease by exactly one
  year from the previous expiration (not from now), keeps its creation time, replaces its
  transaction hash only when the request carries one, and is always written as a change.
\<close>

theorem renewal_extends_one_year:
  assumes "wf_store s"
    and "get_public_hash (parse_wallet e) (p_wallet p) = Some (ph, sid)"
    and "gdb_get s ph = Some (Rec r)" "\<not> guuid_given p" "payload_name p = n" "n \<noteq> []"
    and "map_of (registered_names r) n = Some ent" "expires_on ent = Aware t"
  shows "\<exists>r'. update_gdb_data_old_name e p s = (Inr (Updated (r'\<lparr>public_hash := ph\<rparr>)), gdb_set ph (Rec r') s)
          \<and> map_of (registered_names r') n =
              Some (ent\<lparr>expires_on := Aware (t + one_year),
                        tx_hash := (case p_tx_hash p of None \<Rightarrow> tx_hash ent | Some tx \<Rightarrow> tx)\<rparr>)
          \<and> modified_at r' = Some (Aware (clock e))"
proof -
  have mem: "(ph, r) \<in> set (get_all_gdb_data s)"
    using assms(1,3) by (simp add: wf_store_def gdb_get_Rec)
  have owned: "n \<in> set (dkeys (registered_names r))"
    using assms(7) by (simp add: set_dkeys_map_of)
  have free: "\<not> is_name_taken n (get_all_gdb_data s) ph"
    by (rule wf_store_holder_unique [OF assms(1) mem owned])
  let ?ent = "ent\<lparr>expires_on := Aware (t + one_year),
                  tx_hash := (case p_tx_hash p of None \<Rightarrow> tx_hash ent | Some tx \<Rightarrow> tx)\<rparr>"
  let ?r1 = "r\<lparr>registered_names := AList.update n ?ent (registered_names r)\<rparr>"
  have step: "register_name e p s ph r = Inr ?r1"
    using assms(5,6,7,8) free by (simp add: register_name_def)
  have names: "map_of (registered_names (merge_fields (clock e) p ?r1)) n = Some ?ent"
    by (simp add: merge_fields_frame update_conv')
  have changed: "merge_fields (clock e) p ?r1 \<noteq> r"
  proof
    assume "merge_fields (clock e) p ?r1 = r"
    then have "map_of (registered_names r) n = Some ?ent" using names by simp
    then have "expires_on ?ent = expires_on ent" using assms(7) by simp
    then show False using assms(8) by (simp add: one_year_def)
  qed
  let ?r3 = "merge_fields (clock e) p ?r1\<lparr>modified_at := Some (Aware (clock e))\<rparr>"
  have "update_gdb_data_old_name e p s = (Inr (Updated (?r3\<lparr>public_hash := ph\<rparr>)), gdb_set ph (Rec ?r3) s)"
    using assms(2,3,4) step changed by (simp add: update_gdb_data_old_name_def Let_def)
  moreover have "map_of (registered_names ?r3) n = Some ?ent"
    using names by simp
  ultimately show ?thesis by auto
qed

text \<open>
  C5. A request that carries a non-empty \<^verbatim>\<open>guuid\<close> for an existing identity is
  rejected with \<^verbatim>\<open>GuuidImmutable\<close> and writes nothing, whatever other fields it
  carries.
\<close>

theorem guuid_change_rejected:
  assumes "guuid_given p"
    and "get_public_hash (parse_wallet e) (p_wallet p) = Some (ph, sid)"
    and "gdb_get s ph = Some (Rec r)"
  shows "update_gdb_data_old_name e p s = (Inl GuuidImmutable, s)"
  using assms by (simp add: update_gdb_data_old_name_def)

text \<open>
  C6. An update whose fields all equal the record's current values (no name, no images,
  delegations or messages to append, scalar and map fields equal to the stored ones)
  reports "no changes", returns the record as stored, and neither writes nor advances
  \<^verbatim>\<open>modified_at\<close>.
\<close>

theorem noop_update_no_write:
  assumes "get_public_hash (parse_wallet e) (p_wallet p) = Some (ph, sid)"
    and "gdb_get s ph = Some (Rec r)" "\<not> guuid_given p" "payload_name p = []"
    and "p_nft_images p = None \<or> p_nft_images p = Some []"
    and "p_delegations p = None" "p_messages p = None"
    and "p_bio p = None \<or> p_bio p = Some (bio r)"
    and "p_profile_picture p = None \<or> p_profile_picture p = Some (profile_picture r)"
    and "\<forall>xs. p_socials p = Some xs \<longrightarrow>
           (\<forall>(pl, det) \<in> set xs. \<exists>v. map_of (socials r) pl = Some v \<and> (det = None \<or> det = Some v))"
    and "\<forall>xs. p_dinosaur_wallets p = Some xs \<longrightarrow> (\<forall>(nw, a) \<in> set xs. map_of (dinosaur_wallets r) nw = Some a)"
  shows "update_gdb_data_old_name e p s = (Inr (NoChanges r), s)"
proof -
  have step: "register_name e p s ph r = Inr r"
    using assms(4) by (simp add: register_name_def)
  have "merge_fields (clock e) p r = r"
    using assms(5-11) by (rule merge_fields_noop)
  then show ?thesis
    using assms(1-3) step by (simp add: update_gdb_data_old_name_def)
qed

text \<open>
  C7. No write request changes the \<^verbatim>\<open>guuid\<close>, the \<^verbatim>\<open>public_hash\<close> or the
  \<^verbatim>\<open>sign_id\<close> of a record that already exists, and none removes a record.
\<close>

theorem write_keeps_identity_fields:
  assumes "dispatch e a s = (res, s')" "gdb_get s k = Some (Rec r)"
  shows "\<exists>r'. gdb_get s' k = Some (Rec r') \<and>
           guuid r' = guuid r \<and> public_hash r' = public_hash r \<and> sign_id r' = sign_id r"
proof -
  have upd: "\<exists>r'. gdb_get s' k = Some (Rec r') \<and>
               guuid r' = guuid r \<and> public_hash r' = public_hash r \<and> sign_id r' = sign_id r"
    if u: "update_gdb_data_old_name e p s = (res, s')" for p
  proof -
    have "\<exists>r'. gdb_get s' k = Some (Rec r')"
      using u assms(2)
      by (auto simp: update_gdb_data_old_name_def Let_def gdb_get_set
               split: option.splits stored.splits sum.splits if_splits)
    then obtain r' where "gdb_get s' k = Some (Rec r')" by blast
    with update_same_key [OF u assms(2)] show ?thesis by blast
  qed
  show ?thesis
  proof (cases a)
    case (Update p)
    then show ?thesis using assms(1) upd by simp
  next
    case (Add p)
    then show ?thesis
      using assms upd
      by (auto simp: write_gdb_data_def Let_def gdb_get_set split: option.splits stored.splits if_splits)
  qed
qed

end
