(* ===== verification/Sweeper.thy ===== *)
theory Sweeper
  imports Store
begin

text \<open>
  The expiration sweeper, \<^verbatim>\<open>remove_expired_gdb_entries\<close> of
  \<^verbatim>\<open>src/backend/gdb_ops.py\<close> (lines 299--329). One cycle reads every decodable
  record, collects the names whose \<^verbatim>\<open>expires_on\<close> lies before the cycle's clock,
  deletes them and writes the record back when it lost a name. Only \<^verbatim>\<open>ValueError\<close>
  (an unparsable timestamp) is caught per name; comparing a naive timestamp with the
  aware clock raises \<^verbatim>\<open>TypeError\<close> and a missing one \<^verbatim>\<open>KeyError\<close>, which escape
  to the loop's handler and end the cycle at that record: the records before it have
  been written, those after it are not visited. The loop then starts the next cycle
  at once (the \<^verbatim>\<open>sleep(1)\<close> is skipped).
\<close>

text \<open>The names of one record that have expired, in dictionary order, or \<open>None\<close> when
  an exception escapes the per-name handler.\<close>
fun expired_names :: "int \<Rightarrow> (string, name_entry) dict \<Rightarrow> string list option" where
  "expired_names now [] = Some []"
| "expired_names now ((n, ent) # rest) =
     (case expires_on ent of
       Aware t \<Rightarrow> (if t < now then map_option (Cons n) (expired_names now rest)
                  else expired_names now rest)
     | Naive t \<Rightarrow> None
     | Unparsable \<Rightarrow> expired_names now rest
     | Missing \<Rightarrow> None)"

text \<open>\<^verbatim>\<open>for expired_key in expired_keys: del value["registered_names"][expired_key]\<close>\<close>
definition remove_names :: "string list \<Rightarrow> (string, name_entry) dict \<Rightarrow> (string, name_entry) dict" where
  "remove_names ks d = filter (\<lambda>(n, _). n \<notin> set ks) d"

text \<open>The loop over the records read at the start of the cycle. The flag says whether
  an exception ended the cycle.\<close>
fun sweep_records :: "int \<Rightarrow> (string \<times> identity) list \<Rightarrow> store \<Rightarrow> store \<times> bool" where
  "sweep_records now [] s = (s, False)"
| "sweep_records now ((k, r) # rs) s =
     (case expired_names now (registered_names r) of
       None \<Rightarrow> (s, True)
     | Some ks \<Rightarrow> sweep_records now rs
         (if ks = [] then s
          else gdb_set k (Rec (r\<lparr>registered_names := remove_names ks (registered_names r)\<rparr>)) s))"

text \<open>One cycle of \<^verbatim>\<open>remove_expired_gdb_entries\<close> at clock \<open>now\<close>.\<close>
definition remove_expired_cycle :: "int \<Rightarrow> store \<Rightarrow> store \<times> bool" where
  "remove_expired_cycle now s = sweep_records now (get_all_gdb_data s) s"

text \<open>A name is expired at \<open>now\<close> when its expiry is an aware time before \<open>now\<close>.\<close>
definition is_expired :: "int \<Rightarrow> name_entry \<Rightarrow> bool" where
  "is_expired now ent = (case expires_on ent of Aware t \<Rightarrow> t < now | _ \<Rightarrow> False)"

text \<open>A stamp the sweeper cannot compare: naive or missing.\<close>
definition blocks_sweep :: "name_entry \<Rightarrow> bool" where
  "blocks_sweep ent = (case expires_on ent of Naive _ \<Rightarrow> True | Missing \<Rightarrow> True | _ \<Rightarrow> False)"

text \<open>No lease of a decodable record has a stamp that stops the sweeper.\<close>
definition no_blocking_stamps :: "store \<Rightarrow> bool" where
  "no_blocking_stamps s =
     (\<forall>(k, r) \<in> set (get_all_gdb_data s). \<forall>x \<in> set (registered_names r). \<not> blocks_sweep (snd x))"

text \<open>
  The abstract specification of a cycle: every decodable record loses exactly its
  expired leases, and nothing else changes.
\<close>

definition swept :: "int \<Rightarrow> identity \<Rightarrow> identity" where
  "swept now r = r\<lparr>registered_names := filter (\<lambda>(n, ent). \<not> is_expired now ent) (registered_names r)\<rparr>"

fun swept_value :: "int \<Rightarrow> stored \<Rightarrow> stored" where
  "swept_value now (Rec r) = Rec (swept now r)"
| "swept_value now Garbage = Garbage"

definition sweep_spec :: "int \<Rightarrow> store \<Rightarrow> store" where
  "sweep_spec now s = map (\<lambda>(k, v). (k, swept_value now v)) s"

text \<open>The \<^verbatim>\<open>while True\<close> loop, one cycle per clock reading.\<close>
fun sweep_loop :: "int list \<Rightarrow> store \<Rightarrow> store" where
  "sweep_loop [] s = s"
| "sweep_loop (now # nows) s = sweep_loop nows (fst (remove_expired_cycle now s))"

named_theorems sweeper_simps "facts on the expiration sweeper"

declare remove_names_def [eval_simps] remove_expired_cycle_def [eval_simps] is_expired_def [eval_simps]
  blocks_sweep_def [eval_simps] swept_def [eval_simps] sweep_spec_def [eval_simps]

lemma expired_names_Cons [sweeper_simps]:
  "expired_names now ((n, ent) # rest) =
     (if blocks_sweep ent then None
      else if is_expired now ent then map_option (Cons n) (expired_names now rest)
      else expired_names now rest)"
  by (cases "expires_on ent") (simp_all add: blocks_sweep_def is_expired_def)

lemma expired_names_None_iff [sweeper_simps]:
  "expired_names now d = None \<longleftrightarrow> (\<exists>x \<in> set d. blocks_sweep (snd x))"
  by (induction d) (auto simp: expired_names_Cons split: if_splits simp del: expired_names.simps(2))

lemma expired_names_set [sweeper_simps]:
  "expired_names now d = Some ks \<Longrightarrow> set ks = {n. \<exists>ent. (n, ent) \<in> set d \<and> is_expired now ent}"
proof (induction d arbitrary: ks)
  case Nil
  then show ?case by simp
next
  case (Cons x d)
  obtain n ent where x: "x = (n, ent)" by (cases x)
  from Cons.prems x obtain ks' where ks': "expired_names now d = Some ks'"
    and ks: "ks = (if is_expired now ent then n # ks' else ks')"
    by (auto simp: expired_names_Cons split: if_splits simp del: expired_names.simps(2))
  have "set ks' = {n. \<exists>ent. (n, ent) \<in> set d \<and> is_expired now ent}" by (rule Cons.IH [OF ks'])
  then show ?case using x ks by auto
qed

lemma map_of_remove_names [sweeper_simps]:
  "map_of (remove_names ks d) n = (if n \<in> set ks then None else map_of d n)"
  by (induction d) (auto simp: remove_names_def)

lemma remove_names_expired [sweeper_simps]:
  assumes "dict_ok d" "expired_names now d = Some ks"
  shows "remove_names ks d = filter (\<lambda>(n, ent). \<not> is_expired now ent) d"
proof -
  have ks: "set ks = {n. \<exists>ent. (n, ent) \<in> set d \<and> is_expired now ent}"
    by (rule expired_names_set [OF assms(2)])
  have "n \<in> set ks \<longleftrightarrow> is_expired now ent" if "(n, ent) \<in> set d" for n ent
    using that assms(1) ks by (auto simp: dict_ok_map_of_in)
  then show ?thesis
    unfolding remove_names_def by (auto intro: filter_cong)
qed

lemma map_update_keys_id [sweeper_simps]:
  "\<forall>(k', v) \<in> set s. k' = k \<longrightarrow> g v = v \<Longrightarrow>
   map (\<lambda>(k', v). if k' = k then (k', g v) else (k', v)) s = s"
  by (induction s) auto

lemma map_update_keys_compose [sweeper_simps]:
  "k \<notin> K \<Longrightarrow>
   map (\<lambda>(k', v). if k' \<in> K then (k', g v) else (k', v))
     (map (\<lambda>(k', v). if k' = k then (k', g v) else (k', v)) s)
   = map (\<lambda>(k', v). if k' \<in> insert k K then (k', g v) else (k', v)) s"
  by (induction s) auto

text \<open>The loop over a list of records with distinct keys, each stored as read and
  none with a stamp the sweeper cannot compare, applies the specification to exactly
  their keys.\<close>

lemma sweep_records_spec [sweeper_simps]:
  assumes "dict_ok s" "distinct (map fst rs)"
    and "\<forall>(k, r) \<in> set rs. (k, Rec r) \<in> set s \<and> dict_ok (registered_names r)
           \<and> (\<forall>x \<in> set (registered_names r). \<not> blocks_sweep (snd x))"
  shows "sweep_records now rs s =
           (map (\<lambda>(k, v). if k \<in> fst ` set rs then (k, swept_value now v) else (k, v)) s, False)"
  using assms
proof (induction rs arbitrary: s)
  case Nil
  then show ?case by (simp add: map_idI split_def)
next
  case (Cons x rs)
  obtain k r where x: "x = (k, r)" by (cases x)
  have kr: "(k, Rec r) \<in> set s" and okr: "dict_ok (registered_names r)"
    and nb: "\<forall>y \<in> set (registered_names r). \<not> blocks_sweep (snd y)"
    using Cons.prems(3) x by auto
  obtain ks where ks: "expired_names now (registered_names r) = Some ks"
    using nb by (cases "expired_names now (registered_names r)") (auto simp: expired_names_None_iff)
  have only: "\<forall>(k', v) \<in> set s. k' = k \<longrightarrow> v = Rec r"
    using Cons.prems(1) kr by (auto simp: dict_ok_map_of_in)
  let ?g = "\<lambda>s. map (\<lambda>(k', v). if k' = k then (k', swept_value now v) else (k', v)) s"
  let ?s' = "if ks = [] then s
             else gdb_set k (Rec (r\<lparr>registered_names := remove_names ks (registered_names r)\<rparr>)) s"
  have rm: "remove_names ks (registered_names r) = filter (\<lambda>(n, ent). \<not> is_expired now ent) (registered_names r)"
    by (rule remove_names_expired [OF okr ks])
  have s': "?s' = ?g s"
  proof (cases "ks = []")
    case True
    then have "filter (\<lambda>(n, ent). \<not> is_expired now ent) (registered_names r) = registered_names r"
      using rm by (simp add: remove_names_def)
    then have "swept now r = r" by (simp add: swept_def)
    then have "\<forall>(k', v) \<in> set s. k' = k \<longrightarrow> swept_value now v = v"
      using only by auto
    then show ?thesis using True by (simp add: map_update_keys_id)
  next
    case False
    have sw: "r\<lparr>registered_names := remove_names ks (registered_names r)\<rparr> = swept now r"
      using rm by (simp add: swept_def)
    have "?s' = map (\<lambda>(k', w). if k' = k then (k', Rec (swept now r)) else (k', w)) s"
      using False Cons.prems(1) kr by (simp add: gdb_set_def update_as_map sw)
    also have "\<dots> = ?g s"
      using only by (auto intro!: map_cong)
    finally show ?thesis .
  qed
  have "dkeys (?g s) = dkeys s"
    by (rule dkeys_map_fst) (simp add: split_def)
  then have ok': "dict_ok (?g s)"
    using Cons.prems(1) by (simp add: dict_ok_def)
  have knot: "k \<notin> fst ` set rs" using Cons.prems(2) x by simp
  have keep: "(a, b) \<in> set (?g s)" if "(a, b) \<in> set s" "a \<noteq> k" for a b
    using that by (auto intro: rev_image_eqI)
  have "(k2, Rec r2) \<in> set (?g s)" if "(k2, r2) \<in> set rs" for k2 r2
  proof (rule keep)
    show "(k2, Rec r2) \<in> set s" using that Cons.prems(3) by auto
    show "k2 \<noteq> k" using that knot by (auto intro: rev_image_eqI)
  qed
  then have rest: "\<forall>(k2, r2) \<in> set rs. (k2, Rec r2) \<in> set (?g s) \<and> dict_ok (registered_names r2)
           \<and> (\<forall>y \<in> set (registered_names r2). \<not> blocks_sweep (snd y))"
    using Cons.prems(3) by auto
  have IH: "sweep_records now rs (?g s) =
      (map (\<lambda>(k, v). if k \<in> fst ` set rs then (k, swept_value now v) else (k, v)) (?g s), False)"
    using Cons.IH [OF ok' _ rest] Cons.prems(2) x by simp
  have "sweep_records now ((k, r) # rs) s = sweep_records now rs (?g s)"
    using ks s' by simp
  also have "\<dots> = (map (\<lambda>(k, v). if k \<in> fst ` set rs then (k, swept_value now v) else (k, v)) (?g s), False)"
    by (rule IH)
  also have "\<dots> = (map (\<lambda>(k', v). if k' \<in> insert k (fst ` set rs) then (k', swept_value now v) else (k', v)) s, False)"
    by (simp only: map_update_keys_compose [OF knot])
  finally show ?case using x by simp
qed

lemma sweep_records_blocked [sweeper_simps]:
  "\<exists>x \<in> set (registered_names r). blocks_sweep (snd x) \<Longrightarrow>
   sweep_records now (pre @ (k, r) # post) s = (fst (sweep_records now pre s), True)"
proof (induction pre arbitrary: s)
  case Nil
  then have "expired_names now (registered_names r) = None"
    by (simp add: expired_names_None_iff)
  then show ?case by simp
next
  case (Cons x pre)
  then show ?case by (cases x) (auto split: option.splits)
qed

lemma get_all_gdb_data_append [store_simps]:
  "get_all_gdb_data (s1 @ s2) = get_all_gdb_data s1 @ get_all_gdb_data s2"
  by (induction s1 rule: get_all_gdb_data.induct) auto

lemma gdb_set_append [store_simps]:
  "k \<in> set (dkeys s1) \<Longrightarrow> gdb_set k v (s1 @ s2) = AList.update k v s1 @ s2"
  by (induction s1) (auto simp: gdb_set_def)

text \<open>A sweep over records of a prefix of the store rewrites values inside that prefix
  only: the prefix keeps its keys and the rest of the store is untouched.\<close>

lemma sweep_records_prefix [sweeper_simps]:
  "set (map fst rs) \<subseteq> set (dkeys pre) \<Longrightarrow>
   \<exists>pre'. fst (sweep_records now rs (pre @ rest)) = pre' @ rest \<and> dkeys pre' = dkeys pre"
proof (induction rs arbitrary: pre)
  case Nil
  then show ?case by auto
next
  case (Cons x rs)
  obtain k r where x: "x = (k, r)" by (cases x)
  have k: "k \<in> set (dkeys pre)" using Cons.prems x by simp
  show ?case
  proof (cases "expired_names now (registered_names r)")
    case None
    then show ?thesis using x by auto
  next
    case (Some ks)
    let ?v = "Rec (r\<lparr>registered_names := remove_names ks (registered_names r)\<rparr>)"
    let ?pre = "if ks = [] then pre else AList.update k ?v pre"
    have keys: "dkeys ?pre = dkeys pre"
      using k by (simp add: dkeys_def update_keys set_dkeys_map_of)
    have "(if ks = [] then pre @ rest else gdb_set k ?v (pre @ rest)) = ?pre @ rest"
      using k by (simp add: gdb_set_append)
    moreover obtain pre' where "fst (sweep_records now rs (?pre @ rest)) = pre' @ rest"
      and "dkeys pre' = dkeys ?pre"
      using Cons.IH [of ?pre] Cons.prems keys by auto
    ultimately show ?thesis using Some x keys by auto
  qed
qed

lemma get_all_keys_subset [store_simps]: "set (map fst (get_all_gdb_data s)) \<subseteq> set (dkeys s)"
  by (induction s rule: get_all_gdb_data.induct) auto

lemma rec_ok_remove_names [sweeper_simps]:
  "rec_ok k r \<Longrightarrow> rec_ok k (r\<lparr>registered_names := remove_names ks (registered_names r)\<rparr>)"
  using set_filter_dkeys [of "\<lambda>(n, _). n \<notin> set ks" "registered_names r"]
  by (auto simp: rec_ok_def remove_names_def dict_ok_filter)

text \<open>Every cycle keeps the store invariant, also one an exception ends: it only
  deletes leases from records it read.\<close>

lemma sweep_records_wf [sweeper_simps]:
  "wf_store s \<Longrightarrow> distinct (map fst rs) \<Longrightarrow> \<forall>(k, r) \<in> set rs. (k, r) \<in> set (get_all_gdb_data s)
   \<Longrightarrow> wf_store (fst (sweep_records now rs s))"
proof (induction rs arbitrary: s)
  case (Cons x rs)
  obtain k r where x: "x = (k, r)" by (cases x)
  have mem: "(k, r) \<in> set (get_all_gdb_data s)" using Cons.prems x by auto
  show ?case
  proof (cases "expired_names now (registered_names r)")
    case (Some ks)
    let ?r' = "r\<lparr>registered_names := remove_names ks (registered_names r)\<rparr>"
    let ?s = "if ks = [] then s else gdb_set k (Rec ?r') s"
    have rok: "rec_ok k r" using Cons.prems(1) mem by (auto simp: wf_store_def)
    have ok: "dict_ok s" using Cons.prems(1) by (simp add: wf_store_def)
    have wf: "wf_store ?s"
    proof -
      have "wf_store (gdb_set k (Rec ?r') s)"
        by (rule wf_store_replace [OF Cons.prems(1) mem rec_ok_remove_names [OF rok], where N = "{}"])
           (auto simp: remove_names_def dkeys_def)
      then show ?thesis using Cons.prems(1) by simp
    qed
    have "\<forall>(k2, r2) \<in> set rs. (k2, r2) \<in> set (get_all_gdb_data ?s)"
      using Cons.prems(2,3) x ok by (force simp: in_get_all_gdb_data_set)
    then have "wf_store (fst (sweep_records now rs ?s))"
      using Cons.IH [OF wf] Cons.prems(2) x by simp
    then show ?thesis using Some x by simp
  qed (use Cons.prems x in simp)
qed simp

lemma remove_expired_cycle_wf [sweeper_simps]:
  "wf_store s \<Longrightarrow> wf_store (fst (remove_expired_cycle now s))"
  unfolding remove_expired_cycle_def
  by (rule sweep_records_wf) (auto simp: wf_store_def distinct_get_all_gdb_data)

subsection \<open>Properties of the sweeper\<close>

lemma remove_expired_cycle_spec:
  assumes "wf_store s"
    and "\<forall>(k, r) \<in> set (get_all_gdb_data s). \<forall>x \<in> set (registered_names r). \<not> blocks_sweep (snd x)"
  shows "remove_expired_cycle now s = (sweep_spec now s, False)"
proof -
  have ok: "dict_ok s" using assms(1) by (simp add: wf_store_def)
  have recs: "\<forall>(k, r) \<in> set (get_all_gdb_data s). (k, Rec r) \<in> set s \<and> dict_ok (registered_names r)
      \<and> (\<forall>x \<in> set (registered_names r). \<not> blocks_sweep (snd x))"
    using assms by (auto simp: wf_store_def rec_ok_def in_get_all_gdb_data)
  have "remove_expired_cycle now s =
      (map (\<lambda>(k, v). if k \<in> fst ` set (get_all_gdb_data s) then (k, swept_value now v) else (k, v)) s, False)"
    unfolding remove_expired_cycle_def
    by (rule sweep_records_spec [OF ok distinct_get_all_gdb_data [OF ok] recs])
  also have "\<dots> = (sweep_spec now s, False)"
  proof -
    have "(if k \<in> fst ` set (get_all_gdb_data s) then (k, swept_value now v) else (k, v)) = (k, swept_value now v)"
      if "(k, v) \<in> set s" for k v
    proof (cases v)
      case (Rec r)
      then have "(k, r) \<in> set (get_all_gdb_data s)"
        using that by (simp add: in_get_all_gdb_data)
      then have "k \<in> fst ` set (get_all_gdb_data s)"
        by (rule rev_image_eqI) simp
      then show ?thesis by simp
    qed simp
    then show ?thesis unfolding sweep_spec_def by (auto intro!: map_cong)
  qed
  finally show ?thesis .
qed

text \<open>
  C8. When no lease carries a naive or missing expiry, one sweep cycle in a well-formed
  store completes and does exactly what the specification says: every record loses
  its leases that expired before the cycle's clock and keeps all others (including
  unparsable ones) unchanged and in order; undecodable values and record order are
  untouched.
\<close>

theorem remove_expired_cycle_refines:
  assumes "wf_store s"
    and "\<forall>(k, r) \<in> set (get_all_gdb_data s). \<forall>x \<in> set (registered_names r). \<not> blocks_sweep (snd x)"
  shows "remove_expired_cycle now s = (sweep_spec now s, False)"
  using assms by (rule remove_expired_cycle_spec)

text \<open>
  C9. A single lease whose expiry is naive or missing stops the sweeper for good: from
  then on every cycle, whatever its clock, ends at that record, so that record and every
  record stored after it keep their expired leases forever (the spec promises that
  malformed timestamps are skipped and expired names reclaimed within one interval).
\<close>

theorem sweep_blocked_forever:
  assumes "s = pre @ (k, Rec r) # post" "\<exists>x \<in> set (registered_names r). blocks_sweep (snd x)"
  shows "\<exists>pre'. sweep_loop nows s = pre' @ (k, Rec r) # post \<and> dkeys pre' = dkeys pre"
  using assms(1)
proof (induction nows arbitrary: s pre)
  case Nil
  then show ?case by auto
next
  case (Cons now nows)
  have "remove_expired_cycle now s = (fst (sweep_records now (get_all_gdb_data pre) s), True)"
    using Cons.prems assms(2)
    by (simp add: remove_expired_cycle_def get_all_gdb_data_append sweep_records_blocked)
  moreover obtain pre1 where "fst (sweep_records now (get_all_gdb_data pre) (pre @ (k, Rec r) # post))
      = pre1 @ (k, Rec r) # post" and k1: "dkeys pre1 = dkeys pre"
    using sweep_records_prefix [OF get_all_keys_subset] by blast
  ultimately have "fst (remove_expired_cycle now s) = pre1 @ (k, Rec r) # post"
    using Cons.prems by simp
  then obtain pre2 where "sweep_loop nows (fst (remove_expired_cycle now s)) = pre2 @ (k, Rec r) # post"
    and "dkeys pre2 = dkeys pre1"
    using Cons.IH by blast
  then show ?case using k1 by auto
qed

end
