(* ===== verification/Lookup.thy ===== *)
theory Lookup
  imports Store
begin

text \<open>
  The read path, \<^verbatim>\<open>gdb_lookup\<close> of \<^verbatim>\<open>src/backend/gdb_ops.py\<close> (lines 209--297),
  with the query switch of \<^verbatim>\<open>handle_get_request\<close> (\<^verbatim>\<open>src/backend/handlers.py\<close>,
  lines 59--89). The wallet addresses attached to a response come from an address
  generator given as a parameter (\<open>addr_gen\<close>: the record's \<^verbatim>\<open>sign_id\<close> and hex
  public hash to a dictionary of network names to addresses, or nothing when the
  generation raises); \<open>Address\<close> implements it with \<^verbatim>\<open>generate_wallet_addresses\<close>.
  A response record is the stored record with \<^verbatim>\<open>guuid\<close> removed as the code removes
  it, together with its wallet addresses.
\<close>

type_synonym addr_gen = "int \<Rightarrow> string \<Rightarrow> (string, string) dict option"

text \<open>A delegation of \<^verbatim>\<open>all_delegations\<close>: the stored object with its owner's
  \<^verbatim>\<open>public_hash\<close>, \<^verbatim>\<open>sign_id\<close> and \<^verbatim>\<open>registered_names\<close> attached.\<close>
record enriched =
  d_object :: jobj
  d_public_hash :: string
  d_sign_id :: int
  d_names :: "(string, name_entry) dict"

datatype lresult =
    LRecord identity "(string, string) dict"
  | LNames "string list"
  | LDelegations "enriched list"
  | LNotFound string
  | LParseFailed
  | LError

text \<open>\<^verbatim>\<open>if parsed_data.get("guuid", ""): del parsed_data["guuid"]\<close>: an empty
  \<^verbatim>\<open>guuid\<close> stays.\<close>
definition strip_guuid :: "identity \<Rightarrow> identity" where
  "strip_guuid r = (case guuid r of Some g \<Rightarrow> if g = [] then r else r\<lparr>guuid := None\<rparr> | None \<Rightarrow> r)"

text \<open>Lines 212--226.\<close>
fun all_delegations :: "(string \<times> identity) list \<Rightarrow> enriched list" where
  "all_delegations [] = []"
| "all_delegations ((ph, r) # rs) =
     map (\<lambda>d. \<lparr>d_object = d, d_public_hash = ph, d_sign_id = sign_id r, d_names = registered_names r\<rparr>)
       (delegations r) @ all_delegations rs"

text \<open>Lines 228--239: the first record whose telegram profile, lower-cased and
  non-empty, equals the lower-cased query.\<close>
fun by_telegram :: "addr_gen \<Rightarrow> string \<Rightarrow> (string \<times> identity) list \<Rightarrow> lresult" where
  "by_telegram gen q [] = LNotFound q"
| "by_telegram gen q ((ph, r) # rs) =
     (let tp = lower (dget (socials r) ''telegram'' [])
      in if tp \<noteq> [] \<and> tp = lower q
         then (case gen (sign_id r) ph of None \<Rightarrow> LError | Some w \<Rightarrow> LRecord (strip_guuid r) w)
         else by_telegram gen q rs)"

text \<open>Lines 241--249: the first record with a delegation whose \<^verbatim>\<open>order_hash\<close>
  (default empty) equals the query.\<close>
fun by_order_hash :: "addr_gen \<Rightarrow> string \<Rightarrow> (string \<times> identity) list \<Rightarrow> lresult" where
  "by_order_hash gen q [] = LNotFound q"
| "by_order_hash gen q ((ph, r) # rs) =
     (if (\<exists>d \<in> set (delegations r). dget d ''order_hash'' [] = q)
      then (case gen (sign_id r) ph of None \<Rightarrow> LError | Some w \<Rightarrow> LRecord (r\<lparr>guuid := None\<rparr>) w)
      else by_order_hash gen q rs)"

text \<open>The names of a record that match the query: equal or containing it,
  case-insensitively.\<close>
definition matched_names :: "bool \<Rightarrow> string \<Rightarrow> identity \<Rightarrow> string list" where
  "matched_names as_list q r =
     filter (\<lambda>n. if as_list then contains (lower q) (lower n) else lower q = lower n)
       (dkeys (registered_names r))"

text \<open>Lines 251--277 for an exact query: the first record with a matching name.\<close>
fun by_name :: "addr_gen \<Rightarrow> string \<Rightarrow> (string \<times> identity) list \<Rightarrow> lresult" where
  "by_name gen q [] = LNotFound q"
| "by_name gen q ((ph, r) # rs) =
     (if matched_names False q r \<noteq> []
      then (case gen (sign_id r) ph of None \<Rightarrow> LError | Some w \<Rightarrow> LRecord (strip_guuid r) w)
      else by_name gen q rs)"

text \<open>Lines 251--277 for a list query: every matching name, record after record.\<close>
definition names_list :: "string \<Rightarrow> (string \<times> identity) list \<Rightarrow> lresult" where
  "names_list q rs =
     (let ns = concat (map (\<lambda>(ph, r). matched_names True q r) rs)
      in if ns \<noteq> [] then LNames ns else LNotFound q)"

text \<open>Lines 279--292: the record stored under the address's public hash, if it has
  a \<^verbatim>\<open>registered_names\<close> key (every decodable record has one).\<close>
definition by_address :: "addr_parser \<Rightarrow> addr_gen \<Rightarrow> string \<Rightarrow> store \<Rightarrow> lresult" where
  "by_address parse gen q s =
     (case get_public_hash parse (Some q) of
       None \<Rightarrow> LParseFailed
     | Some (ph, _) \<Rightarrow>
         (case gdb_get s ph of
           None \<Rightarrow> LNotFound q
         | Some Garbage \<Rightarrow> LError
         | Some (Rec r) \<Rightarrow> (case gen (sign_id r) ph of None \<Rightarrow> LError | Some w \<Rightarrow> LRecord (strip_guuid r) w)))"

text \<open>\<^verbatim>\<open>gdb_lookup(lookup, by_telegram_name, by_order_hash, as_list)\<close>.\<close>
definition gdb_lookup :: "addr_parser \<Rightarrow> addr_gen \<Rightarrow> string \<Rightarrow> bool \<Rightarrow> bool \<Rightarrow> bool \<Rightarrow> store \<Rightarrow> lresult" where
  "gdb_lookup parse gen q tg oh as_list s =
     (let rs = get_all_gdb_data s in
      if q = ''all_delegations'' then LDelegations (all_delegations rs)
      else if tg then by_telegram gen q rs
      else if oh then by_order_hash gen q rs
      else if parse q = None then (if as_list then names_list q rs else by_name gen q rs)
      else by_address parse gen q s)"

text \<open>The lookup queries of \<^verbatim>\<open>handle_get_request\<close>, in the order it tests them.\<close>
datatype query = QLookup string | QLookup2 string | QByTelegram string | QByOrder string | QAllDelegations

fun handle_lookup :: "addr_parser \<Rightarrow> addr_gen \<Rightarrow> query \<Rightarrow> store \<Rightarrow> lresult" where
  "handle_lookup parse gen (QLookup q) s = gdb_lookup parse gen q False False False s"
| "handle_lookup parse gen (QLookup2 q) s = gdb_lookup parse gen q False False True s"
| "handle_lookup parse gen (QByTelegram q) s = gdb_lookup parse gen q True False False s"
| "handle_lookup parse gen (QByOrder q) s = gdb_lookup parse gen q False True False s"
| "handle_lookup parse gen QAllDelegations s = gdb_lookup parse gen ''all_delegations'' False False False s"

named_theorems lookup_simps "facts on the lookup engine"

declare strip_guuid_def [eval_simps] matched_names_def [eval_simps] names_list_def [eval_simps]
  by_address_def [eval_simps] gdb_lookup_def [eval_simps]

lemma guuid_strip_guuid [lookup_simps]: "guuid (strip_guuid r) = None \<or> guuid (strip_guuid r) = Some []"
  by (auto simp: strip_guuid_def split: option.splits)

lemma by_telegram_LRecord [lookup_simps]:
  "by_telegram gen q rs = LRecord r w \<Longrightarrow> \<exists>r0. r = strip_guuid r0"
  by (induction rs rule: by_telegram.induct) (auto simp: Let_def split: if_splits option.splits)

lemma by_order_hash_LRecord [lookup_simps]:
  "by_order_hash gen q rs = LRecord r w \<Longrightarrow> guuid r = None"
  by (induction rs rule: by_order_hash.induct) (auto split: if_splits option.splits)

lemma by_name_LRecord [lookup_simps]:
  "by_name gen q rs = LRecord r w \<Longrightarrow> \<exists>r0. r = strip_guuid r0"
  by (induction rs rule: by_name.induct) (auto split: if_splits option.splits)

lemma names_list_not_LRecord [lookup_simps]: "names_list q rs \<noteq> LRecord r w"
  by (simp add: names_list_def Let_def)

lemma by_address_LRecord [lookup_simps]:
  "by_address parse gen q s = LRecord r w \<Longrightarrow> \<exists>r0. r = strip_guuid r0"
  by (auto simp: by_address_def split: option.splits stored.splits)

text \<open>The exact-name search returns the record with a matching name when it is the
  only record with one.\<close>

lemma by_name_unique_match [lookup_simps]:
  assumes "(k, r) \<in> set rs" "matched_names False q r \<noteq> []"
    and "\<forall>(k', r') \<in> set rs. matched_names False q r' \<noteq> [] \<longrightarrow> k' = k \<and> r' = r"
  shows "by_name gen q rs = (case gen (sign_id r) k of None \<Rightarrow> LError | Some w \<Rightarrow> LRecord (strip_guuid r) w)"
  using assms by (induction rs) auto

lemma matched_names_exact [lookup_simps]:
  assumes "rec_ok k r"
  shows "matched_names False q r \<noteq> [] \<longleftrightarrow> lower q \<in> set (dkeys (registered_names r))"
proof -
  have "lower n = n" if "n \<in> set (dkeys (registered_names r))" for n
    using assms that by (simp add: rec_ok_def)
  then show ?thesis
    by (auto simp: matched_names_def filter_empty_conv)
qed

subsection \<open>Properties of the lookup engine\<close>

text \<open>
  C10. In a well-formed store, looking a name up (the \<^verbatim>\<open>lookup\<close> query, any letter
  case) returns the record that holds it, with its \<^verbatim>\<open>guuid\<close> removed and its wallet
  addresses attached, provided the query is not itself a wallet address and is not the
  literal "all_delegations".
\<close>

theorem lookup_name_finds_owner:
  assumes "wf_store s" "(k, r) \<in> set (get_all_gdb_data s)" "lower q \<in> set (dkeys (registered_names r))"
    and "parse q = None" "q \<noteq> ''all_delegations''" "gen (sign_id r) k = Some w"
  shows "gdb_lookup parse gen q False False False s = LRecord (strip_guuid r) w"
proof -
  let ?rs = "get_all_gdb_data s"
  have ok: "dict_ok s" and rok: "\<forall>(k', r') \<in> set ?rs. rec_ok k' r'"
    using assms(1) by (auto simp: wf_store_def)
  have m: "matched_names False q r \<noteq> []"
    using assms(2,3) rok matched_names_exact by blast
  have only: "k' = k \<and> r' = r" if "(k', r') \<in> set ?rs" "matched_names False q r' \<noteq> []" for k' r'
  proof -
    have n': "lower q \<in> set (dkeys (registered_names r'))"
      using that rok matched_names_exact by blast
    have "k' = k"
    proof (rule ccontr)
      assume "k' \<noteq> k"
      then have "is_name_taken (lower q) ?rs k" using that(1) n' by (auto simp: is_name_taken_iff)
      then show False using wf_store_holder_unique [OF assms(1,2,3)] by simp
    qed
    moreover have "distinct (map fst ?rs)" by (rule distinct_get_all_gdb_data [OF ok])
    ultimately show ?thesis
      using that(1) assms(2) by (metis eq_key_imp_eq_value)
  qed
  have all: "\<forall>(k', r') \<in> set ?rs. matched_names False q r' \<noteq> [] \<longrightarrow> k' = k \<and> r' = r"
    using only by blast
  have "by_name gen q ?rs = LRecord (strip_guuid r) w"
    using by_name_unique_match [OF assms(2) m all] assms(6) by simp
  then show ?thesis using assms(4,5) by (simp add: gdb_lookup_def)
qed

text \<open>
  C11. No lookup response exposes a non-empty \<^verbatim>\<open>guuid\<close>: in every mode, a record
  returned has no \<^verbatim>\<open>guuid\<close> or an empty one (the code deletes the field only when it
  is non-empty, except in the order-hash mode, which always deletes it).
\<close>

theorem lookup_hides_guuid:
  assumes "handle_lookup parse gen qry s = LRecord r w"
  shows "guuid r = None \<or> guuid r = Some []"
proof -
  obtain q tg oh al where g: "gdb_lookup parse gen q tg oh al s = LRecord r w"
    using assms by (cases qry) auto
  show ?thesis
    using g guuid_strip_guuid by_order_hash_LRecord by_telegram_LRecord by_name_LRecord
      by_address_LRecord names_list_not_LRecord
    by (auto simp: gdb_lookup_def Let_def split: if_splits) metis+
qed

text \<open>
  C12. Looking up a wallet address whose record holds no name at all (every lease has
  been swept) still returns that record, with wallet addresses, in both the
  \<^verbatim>\<open>lookup\<close> and the \<^verbatim>\<open>lookup2\<close> queries; the spec says such a lookup fails
  with NotFound.
\<close>

theorem lookup_address_without_names:
  assumes "get_public_hash parse (Some q) = Some (ph, sid)" "gdb_get s ph = Some (Rec r)"
    and "registered_names r = []" "q \<noteq> ''all_delegations''" "gen (sign_id r) ph = Some w"
  shows "gdb_lookup parse gen q False False al s = LRecord (strip_guuid r) w"
proof -
  obtain c where "parse q = Some c"
    using assms(1) by (auto simp: get_public_hash_def split: option.splits)
  then show ?thesis using assms by (simp add: gdb_lookup_def by_address_def Let_def)
qed

end
