(* ===== verification/Address.thy ===== *)
theory Address
  imports Lookup
begin

text \<open>
  Address derivation, \<^verbatim>\<open>Utils.build_cf_address\<close> and
  \<^verbatim>\<open>Utils.generate_wallet_addresses\<close> of \<^verbatim>\<open>src/backend/utils.py\<close> (lines 98--120),
  and the builtins they call: \<^verbatim>\<open>int.to_bytes\<close> (which raises \<^verbatim>\<open>OverflowError\<close> for
  a negative or too large value), \<^verbatim>\<open>int(s, 16)\<close>, \<^verbatim>\<open>bytes.fromhex\<close>, and the
  \<^verbatim>\<open>base58\<close> library's \<^verbatim>\<open>b58encode\<close> (with its inverse, used only in proofs).
  SHA3-256 is a parameter: any function whose digests have a fixed length.
  \<open>generate_wallet_addresses\<close> implements the lookup engine's \<open>addr_gen\<close>.
\<close>

subsection \<open>Integers as bytes\<close>

fun le_bytes :: "nat \<Rightarrow> nat \<Rightarrow> byte list" where
  "le_bytes 0 x = []"
| "le_bytes (Suc n) x = word_of_nat (x mod 256) # le_bytes n (x div 256)"

text \<open>\<^verbatim>\<open>x.to_bytes(n, byteorder="little")\<close>\<close>
definition int_to_bytes_le :: "nat \<Rightarrow> int \<Rightarrow> byte list option" where
  "int_to_bytes_le n x = (if 0 \<le> x \<and> x < 2 ^ (8 * n) then Some (le_bytes n (nat x)) else None)"

text \<open>\<^verbatim>\<open>x.to_bytes(n, "big")\<close>\<close>
definition int_to_bytes_be :: "nat \<Rightarrow> int \<Rightarrow> byte list option" where
  "int_to_bytes_be n x = map_option rev (int_to_bytes_le n x)"

text \<open>\<^verbatim>\<open>int.from_bytes(bs, "little")\<close> and \<^verbatim>\<open>int.from_bytes(bs, "big")\<close>\<close>
fun from_le :: "byte list \<Rightarrow> nat" where
  "from_le [] = 0"
| "from_le (b # bs) = unat b + 256 * from_le bs"

definition from_be :: "byte list \<Rightarrow> nat" where
  "from_be bs = foldl (\<lambda>acc b. acc * 256 + unat b) 0 bs"

subsection \<open>Hexadecimal text\<close>

definition hex_val :: "char \<Rightarrow> nat option" where
  "hex_val c =
     (let n = (of_char c :: nat) in
      if 48 \<le> n \<and> n \<le> 57 then Some (n - 48)
      else if 97 \<le> n \<and> n \<le> 102 then Some (n - 87)
      else if 65 \<le> n \<and> n \<le> 70 then Some (n - 55)
      else None)"

definition is_ascii_space :: "char \<Rightarrow> bool" where
  "is_ascii_space c = (of_char c \<in> {9, 10, 11, 12, 13, 32 :: nat})"

text \<open>\<^verbatim>\<open>bytes.fromhex(s)\<close>: pairs of hex digits, ASCII white space skipped between
  pairs; anything else raises \<^verbatim>\<open>ValueError\<close>.\<close>
fun fromhex :: "string \<Rightarrow> byte list option" where
  "fromhex [] = Some []"
| "fromhex (c # cs) =
     (if is_ascii_space c then fromhex cs
      else (case cs of
              [] \<Rightarrow> None
            | d # ds \<Rightarrow>
                (case (hex_val c, hex_val d) of
                  (Some h, Some l) \<Rightarrow> map_option (Cons (word_of_nat (16 * h + l))) (fromhex ds)
                | _ \<Rightarrow> None)))"

text \<open>The digits of \<^verbatim>\<open>int(s, 16)\<close> after the sign and prefix: hex digits with
  single underscores between them (CPython's \<^verbatim>\<open>PyLong_FromString\<close>: no leading,
  trailing or doubled underscore).\<close>
fun hex_us_val :: "nat \<Rightarrow> string \<Rightarrow> nat option" where
  "hex_us_val acc [] = Some acc"
| "hex_us_val acc (c # cs) =
     (if c = CHR ''_'' then (case cs of [] \<Rightarrow> None | d # ds \<Rightarrow> if d = CHR ''_'' then None else hex_us_val acc cs)
      else (case hex_val c of None \<Rightarrow> None | Some d \<Rightarrow> hex_us_val (16 * acc + d) cs))"

text \<open>\<^verbatim>\<open>int(s, 16)\<close> on ASCII text: surrounding white space (\<^verbatim>\<open>str.isspace\<close>), an
  optional sign, an optional \<^verbatim>\<open>0x\<close>/\<^verbatim>\<open>0X\<close> prefix which one underscore may follow,
  then at least one digit, not starting with an underscore.\<close>
definition parse_hex_int :: "string \<Rightarrow> int option" where
  "parse_hex_int s =
     (let s0 = strip s;
          (sg, s1) = (case s0 of c # cs \<Rightarrow> if c = CHR ''-'' then (-1, cs) else if c = CHR ''+'' then (1, cs) else (1, s0)
                              | [] \<Rightarrow> (1, []));
          s2 = (if take 2 s1 \<in> {''0x'', ''0X''}
                then (let r = drop 2 s1 in if take 1 r = ''_'' then drop 1 r else r) else s1)
      in if s2 = [] \<or> hd s2 = CHR ''_'' then None else map_option (\<lambda>v. sg * int v) (hex_us_val 0 s2))"

subsection \<open>Base58\<close>

definition b58_alphabet :: string where
  "b58_alphabet = ''123456789ABCDEFGHJKLMNPQRSTUVWXYZabcdefghijkmnopqrstuvwxyz''"

text \<open>\<^verbatim>\<open>b58encode_int(i, default_one=False)\<close>\<close>
fun b58encode_int :: "nat \<Rightarrow> string" where
  "b58encode_int i = (if i = 0 then [] else b58encode_int (i div 58) @ [b58_alphabet ! (i mod 58)])"

text \<open>\<^verbatim>\<open>b58encode(v)\<close>: one \<^verbatim>\<open>1\<close> per leading zero byte, then the rest as a
  big-endian number in base 58.\<close>
definition b58encode :: "byte list \<Rightarrow> string" where
  "b58encode v =
     (let v' = dropWhile (\<lambda>b. b = 0) v
      in replicate (length v - length v') (CHR ''1'') @ b58encode_int (from_be v'))"

definition b58_index :: "char \<Rightarrow> nat option" where
  "b58_index c = (let i = length (takeWhile (\<lambda>x. x \<noteq> c) b58_alphabet) in if i < 58 then Some i else None)"

fun b58decode_int :: "nat \<Rightarrow> string \<Rightarrow> nat option" where
  "b58decode_int acc [] = Some acc"
| "b58decode_int acc (c # cs) = (case b58_index c of None \<Rightarrow> None | Some d \<Rightarrow> b58decode_int (acc * 58 + d) cs)"

fun to_be_min :: "nat \<Rightarrow> byte list" where
  "to_be_min i = (if i = 0 then [] else to_be_min (i div 256) @ [word_of_nat (i mod 256)])"

text \<open>The library's \<^verbatim>\<open>b58decode\<close>, the inverse the proofs use.\<close>
definition b58decode :: "string \<Rightarrow> byte list option" where
  "b58decode s =
     (let s' = dropWhile (\<lambda>c. c = CHR ''1'') s
      in map_option (\<lambda>i. replicate (length s - length s') 0 @ to_be_min i) (b58decode_int 0 s'))"

subsection \<open>Addresses\<close>

type_synonym hash_fn = "byte list \<Rightarrow> byte list"

text \<open>\<^verbatim>\<open>build_cf_address(version, net_id, sign_id, public_hash)\<close>, lines 98--112.\<close>
definition build_cf_address :: "hash_fn \<Rightarrow> int \<Rightarrow> int \<Rightarrow> int \<Rightarrow> byte list \<Rightarrow> string option" where
  "build_cf_address sha3 version nid sid ph =
     (case (int_to_bytes_le 8 nid, int_to_bytes_le 4 sid, int_to_bytes_be 1 version) of
       (Some nb, Some sb, Some vb) \<Rightarrow>
         (let raw = vb @ nb @ sb @ ph in Some (b58encode (raw @ sha3 raw)))
     | _ \<Rightarrow> None)"

text \<open>\<^verbatim>\<open>generate_wallet_addresses(sign_id, public_hash)\<close>, lines 114--120: the
  dictionary comprehension over the configured networks, built left to right (a later
  network of the same name replaces the address of an earlier one in its place); any
  exception aborts the whole result.\<close>
fun wallet_addresses_acc :: "hash_fn \<Rightarrow> (string \<times> string) list \<Rightarrow> int \<Rightarrow> string \<Rightarrow> (string, string) dict \<Rightarrow> (string, string) dict option" where
  "wallet_addresses_acc sha3 [] sid ph acc = Some acc"
| "wallet_addresses_acc sha3 ((name, idstr) # nets) sid ph acc =
     (case parse_hex_int idstr of
       None \<Rightarrow> None
     | Some nid \<Rightarrow>
       (case fromhex ph of
         None \<Rightarrow> None
       | Some phb \<Rightarrow>
         (case build_cf_address sha3 1 nid sid phb of
           None \<Rightarrow> None
         | Some a \<Rightarrow> wallet_addresses_acc sha3 nets sid ph (AList.update name a acc))))"

text \<open>The address one configured network entry yields, as a whole.\<close>
definition net_address :: "hash_fn \<Rightarrow> int \<Rightarrow> byte list \<Rightarrow> string \<Rightarrow> string option" where
  "net_address sha3 sid phb idstr = Option.bind (parse_hex_int idstr) (\<lambda>nid. build_cf_address sha3 1 nid sid phb)"

definition generate_wallet_addresses :: "hash_fn \<Rightarrow> (string \<times> string) list \<Rightarrow> addr_gen" where
  "generate_wallet_addresses sha3 nets sid ph = wallet_addresses_acc sha3 nets sid ph []"

subsection \<open>Properties of address derivation\<close>

lemma unat_byte_less: "unat (b :: byte) < 256"
  using unsigned_less [of b] by simp

lemma length_le_bytes [simp]: "length (le_bytes n x) = n"
  by (induction n arbitrary: x) auto

lemma unat_byte_of_nat [simp]: "unat (word_of_nat x :: byte) = x mod 256"
  by (simp add: unat_of_nat)

lemma from_le_le_bytes: "from_le (le_bytes n x) = x mod 256 ^ n"
proof (induction n arbitrary: x)
  case (Suc n)
  then show ?case by (simp add: mod_mult2_eq mult.commute)
qed simp

lemma le_bytes_from_le: "le_bytes (length bs) (from_le bs) = bs"
proof (induction bs)
  case (Cons b bs)
  have "word_of_nat ((unat b + 256 * from_le bs) mod 256) = b"
    using unat_byte_less [of b] by simp
  moreover have "(unat b + 256 * from_le bs) div 256 = from_le bs"
    using unat_byte_less [of b] by simp
  ultimately show ?case using Cons by simp
qed simp

lemma from_le_less: "from_le bs < 256 ^ length bs"
proof (induction bs)
  case (Cons b bs)
  have "unat b < 256" using unat_byte_less [of b] by simp
  then show ?case using Cons by simp
qed simp

lemma int_to_bytes_le_Some:
  "int_to_bytes_le n x = Some bs \<longleftrightarrow> length bs = n \<and> x = int (from_le bs)"
proof
  assume h: "int_to_bytes_le n x = Some bs"
  then have r: "0 \<le> x" "x < 2 ^ (8 * n)" and bs: "bs = le_bytes n (nat x)"
    by (auto simp: int_to_bytes_le_def split: if_splits)
  have "nat x < 256 ^ n"
    using r by (simp add: power_mult nat_less_iff)
  then show "length bs = n \<and> x = int (from_le bs)"
    using r by (simp add: bs from_le_le_bytes)
next
  assume h: "length bs = n \<and> x = int (from_le bs)"
  then have "x < 2 ^ (8 * n)"
    using from_le_less [of bs] by (simp add: power_mult flip: of_nat_less_iff)
  then show "int_to_bytes_le n x = Some bs"
    using h le_bytes_from_le [of bs] by (auto simp: int_to_bytes_le_def)
qed

lemma int_to_bytes_le_None:
  "int_to_bytes_le n x = None \<longleftrightarrow> x < 0 \<or> 2 ^ (8 * n) \<le> x"
  by (auto simp: int_to_bytes_le_def)

declare b58encode_int.simps [simp del] to_be_min.simps [simp del]

declare int_to_bytes_le_def [eval_simps] int_to_bytes_be_def [eval_simps] hex_val_def [eval_simps]
  is_ascii_space_def [eval_simps] parse_hex_int_def [eval_simps] build_cf_address_def [eval_simps]
  net_address_def [eval_simps] generate_wallet_addresses_def [eval_simps]

lemma le_bytes_numeral [eval_simps]:
  "le_bytes (numeral k) x = word_of_nat (x mod 256) # le_bytes (pred_numeral k) (x div 256)"
  by (simp only: numeral_eq_Suc [of k] le_bytes.simps)

lemma length_b58_alphabet [simp]: "length b58_alphabet = 58"
  by (simp add: b58_alphabet_def)

lemma distinct_b58_alphabet: "distinct b58_alphabet"
  by code_simp

lemma b58encode_int_alphabet: "set (b58encode_int i) \<subseteq> set b58_alphabet"
proof (induction i rule: b58encode_int.induct)
  case (1 i)
  then show ?case by (subst b58encode_int.simps) auto
qed

lemma b58encode_alphabet: "set (b58encode v) \<subseteq> set b58_alphabet"
proof -
  have "CHR ''1'' \<in> set b58_alphabet" by (simp add: b58_alphabet_def)
  then show ?thesis using b58encode_int_alphabet by (auto simp: b58encode_def Let_def)
qed

lemma takeWhile_neq_nth:
  "distinct xs \<Longrightarrow> j < length xs \<Longrightarrow> length (takeWhile (\<lambda>x. x \<noteq> xs ! j) xs) = j"
proof (induction xs arbitrary: j)
  case (Cons x xs)
  then show ?case by (cases j) (auto simp: nth_mem)
qed simp

lemma b58_index_nth: "j < 58 \<Longrightarrow> b58_index (b58_alphabet ! j) = Some j"
  using takeWhile_neq_nth [OF distinct_b58_alphabet, of j] by (simp add: b58_index_def)

lemma b58_alphabet_nth_one: "0 < j \<Longrightarrow> j < 58 \<Longrightarrow> b58_alphabet ! j \<noteq> CHR ''1''"
proof
  assume "0 < j" "j < 58" "b58_alphabet ! j = CHR ''1''"
  moreover have "b58_alphabet ! 0 = CHR ''1''" by (simp add: b58_alphabet_def)
  ultimately show False
    using nth_eq_iff_index_eq [OF distinct_b58_alphabet, of j 0] by simp
qed

lemma b58encode_int_Nil_iff: "b58encode_int i = [] \<longleftrightarrow> i = 0"
  by (subst b58encode_int.simps) simp

lemma b58encode_int_hd: "b58encode_int i = [] \<or> hd (b58encode_int i) \<noteq> CHR ''1''"
proof (induction i rule: b58encode_int.induct)
  case (1 i)
  show ?case
  proof (cases "i div 58 = 0")
    case True
    then have "i = 0 \<or> (0 < i mod 58 \<and> b58encode_int i = [b58_alphabet ! (i mod 58)])"
      by (subst b58encode_int.simps) (simp add: b58encode_int_Nil_iff)
    then show ?thesis using b58_alphabet_nth_one [of "i mod 58"] by (auto simp: b58encode_int_Nil_iff)
  next
    case False
    then have "i \<noteq> 0" by auto
    then show ?thesis using 1 False
      by (subst (1 2) b58encode_int.simps) (simp add: b58encode_int_Nil_iff)
  qed
qed

lemma dropWhile_one_b58encode_int:
  "dropWhile (\<lambda>c. c = CHR ''1'') (b58encode_int i) = b58encode_int i"
  using b58encode_int_hd [of i] by (cases "b58encode_int i") auto

lemma b58decode_int_append:
  "b58decode_int acc (xs @ ys) = Option.bind (b58decode_int acc xs) (\<lambda>a. b58decode_int a ys)"
  by (induction xs arbitrary: acc) (auto split: option.split)

lemma b58decode_int_encode: "b58decode_int 0 (b58encode_int i) = Some i"
proof (induction i rule: b58encode_int.induct)
  case (1 i)
  show ?case
  proof (cases "i = 0")
    case False
    then show ?thesis using 1
      by (subst b58encode_int.simps) (simp add: b58decode_int_append b58_index_nth)
  qed (simp add: b58encode_int.simps)
qed

lemma from_be_snoc: "from_be (xs @ [b]) = from_be xs * 256 + unat b"
  by (simp add: from_be_def)

lemma from_be_Nil [simp]: "from_be [] = 0"
  by (simp add: from_be_def)

lemma from_be_eq_0: "from_be xs = 0 \<longleftrightarrow> (\<forall>b\<in>set xs. b = 0)"
  by (induction xs rule: rev_induct) (auto simp: from_be_snoc unsigned_eq_0_iff)

lemma to_be_min_from_be:
  "xs = [] \<or> hd xs \<noteq> 0 \<Longrightarrow> to_be_min (from_be xs) = xs"
proof (induction xs rule: rev_induct)
  case (snoc b xs)
  have ne: "from_be (xs @ [b]) \<noteq> 0"
    using snoc.prems by (cases xs) (auto simp: from_be_eq_0)
  have "xs = [] \<or> hd xs \<noteq> 0"
    using snoc.prems by (cases xs) auto
  then have "to_be_min (from_be xs) = xs" by (rule snoc.IH)
  then show ?case using ne unat_byte_less [of b]
    by (subst to_be_min.simps) (simp add: from_be_snoc)
qed (simp add: to_be_min.simps)

lemma dropWhile_replicate_append:
  "P x \<Longrightarrow> dropWhile P (replicate n x @ ys) = dropWhile P ys"
  by (induction n) auto

lemma replicate_takeWhile_eq:
  "replicate (length xs - length (dropWhile (\<lambda>y. y = x) xs)) x @ dropWhile (\<lambda>y. y = x) xs = xs"
proof -
  have "length xs - length (dropWhile (\<lambda>y. y = x) xs) = length (takeWhile (\<lambda>y. y = x) xs)"
    using arg_cong [OF takeWhile_dropWhile_id [of "\<lambda>y. y = x" xs], of length]
    by (simp del: takeWhile_dropWhile_id)
  moreover have "replicate (length (takeWhile (\<lambda>y. y = x) xs)) x = takeWhile (\<lambda>y. y = x) xs"
    by (rule replicate_length_same) (auto dest: set_takeWhileD)
  ultimately show ?thesis by simp
qed

lemma b58decode_b58encode: "b58decode (b58encode v) = Some v"
proof -
  define v' where "v' = dropWhile (\<lambda>b. b = 0) v"
  define z where "z = length v - length v'"
  have hd: "v' = [] \<or> hd v' \<noteq> 0"
    unfolding v'_def using hd_dropWhile [of "\<lambda>b. b = 0" v] by blast
  have "b58encode v = replicate z (CHR ''1'') @ b58encode_int (from_be v')"
    by (simp add: b58encode_def v'_def z_def Let_def)
  moreover have "dropWhile (\<lambda>c. c = CHR ''1'') (replicate z (CHR ''1'') @ b58encode_int (from_be v'))
                 = b58encode_int (from_be v')"
    by (simp add: dropWhile_replicate_append dropWhile_one_b58encode_int)
  ultimately have "b58decode (b58encode v) = Some (replicate z 0 @ to_be_min (from_be v'))"
    by (simp add: b58decode_def b58decode_int_encode Let_def)
  also have "\<dots> = Some v"
    using replicate_takeWhile_eq [of v 0] to_be_min_from_be [OF hd] by (simp add: z_def v'_def)
  finally show ?thesis .
qed

lemma hex_digit_val:
  assumes "n < 16"
  shows "hex_val (hex_digit n) = Some n \<and> \<not> is_ascii_space (hex_digit n)"
proof -
  have "list_all (\<lambda>d. hex_val (hex_digit d) = Some d \<and> \<not> is_ascii_space (hex_digit d)) [0..<16]"
    by code_simp
  then show ?thesis
    using assms by (simp add: list_all_iff)
qed

lemma fromhex_hex: "fromhex (hex bs) = Some bs"
proof (induction bs)
  case (Cons b bs)
  have lt: "unat b div 16 < 16" "unat b mod 16 < 16"
    using unat_byte_less [of b] by auto
  have "word_of_nat (16 * (unat b div 16) + unat b mod 16) = b"
    by simp
  then show ?case
    using Cons hex_digit_val [OF lt(1)] hex_digit_val [OF lt(2)] by (simp add: hex_def)
qed (simp add: hex_def)

lemma int_to_bytes_be_Some:
  "int_to_bytes_be n x = Some bs \<longleftrightarrow> length bs = n \<and> x = int (from_le (rev bs))"
  using int_to_bytes_le_Some [of n x "rev bs"]
  by (auto simp: int_to_bytes_be_def map_option_eq_Some)

lemma build_cf_address_Some:
  "build_cf_address sha3 v n s ph = Some a \<longleftrightarrow>
     (\<exists>vb nb sb. int_to_bytes_be 1 v = Some vb \<and> int_to_bytes_le 8 n = Some nb \<and> int_to_bytes_le 4 s = Some sb
        \<and> b58encode ((vb @ nb @ sb @ ph) @ sha3 (vb @ nb @ sb @ ph)) = a)"
  by (cases "int_to_bytes_le 8 n"; cases "int_to_bytes_le 4 s"; cases "int_to_bytes_be 1 v")
     (simp_all add: build_cf_address_def Let_def)

lemma append_same_length:
  "length xs = length ys \<Longrightarrow> xs @ us = ys @ vs \<longleftrightarrow> xs = ys \<and> us = vs"
  by simp

lemma b58encode_inj: "b58encode x = b58encode y \<Longrightarrow> x = y"
  by (metis b58decode_b58encode option.inject)

lemma build_cf_address_defined:
  "build_cf_address sha3 v n s ph \<noteq> None \<longleftrightarrow>
     0 \<le> v \<and> v < 256 \<and> 0 \<le> n \<and> n < 2 ^ 64 \<and> 0 \<le> s \<and> s < 2 ^ 32"
  by (auto simp: build_cf_address_def int_to_bytes_be_def int_to_bytes_le_def split: option.split)

lemma wallet_addresses_acc_map:
  "wallet_addresses_acc sha3 nets sid ph acc = Some w \<Longrightarrow> fromhex ph = Some phb \<Longrightarrow>
   map_of w n = (case map_of (rev nets) n of None \<Rightarrow> map_of acc n | Some i \<Rightarrow> net_address sha3 sid phb i)"
proof (induction sha3 nets sid ph acc arbitrary: w rule: wallet_addresses_acc.induct)
  case (2 sha3 name idstr nets sid ph acc)
  then obtain nid a where nid: "parse_hex_int idstr = Some nid" and a: "build_cf_address sha3 1 nid sid phb = Some a"
    and rest: "wallet_addresses_acc sha3 nets sid ph (AList.update name a acc) = Some w"
    by (auto split: option.splits)
  have "net_address sha3 sid phb idstr = Some a"
    using nid a by (simp add: net_address_def)
  then show ?case
    using "2.IH" [OF nid _ _ rest] "2.prems"(2) a
    by (auto simp: update_conv' map_add_def split: option.split)
qed simp

lemma dict_ok_wallet_addresses_acc:
  "wallet_addresses_acc sha3 nets sid ph acc = Some w \<Longrightarrow> dict_ok acc \<Longrightarrow> dict_ok w"
  by (induction sha3 nets sid ph acc rule: wallet_addresses_acc.induct)
     (auto simp: dict_ok_update split: option.splits)

lemma wallet_addresses_acc_defined:
  "wallet_addresses_acc sha3 nets sid ph acc \<noteq> None \<longleftrightarrow>
     nets = [] \<or> (\<exists>phb. fromhex ph = Some phb \<and> (\<forall>(n, i) \<in> set nets. net_address sha3 sid phb i \<noteq> None))"
  by (induction sha3 nets sid ph acc rule: wallet_addresses_acc.induct)
     (auto simp: net_address_def split: option.splits)

lemma net_address_defined:
  "net_address sha3 sid phb i \<noteq> None \<longleftrightarrow>
     (\<exists>nid. parse_hex_int i = Some nid \<and> 0 \<le> nid \<and> nid < 2 ^ 64) \<and> 0 \<le> sid \<and> sid < 2 ^ 32"
proof (cases "parse_hex_int i")
  case (Some nid)
  then show ?thesis
    using build_cf_address_defined [of sha3 1 nid sid phb] by (simp add: net_address_def)
qed (simp add: net_address_def)

lemma all_net_address_defined:
  "nets \<noteq> [] \<Longrightarrow>
   (\<forall>(n, i) \<in> set nets. net_address sha3 sid phb i \<noteq> None) \<longleftrightarrow>
   0 \<le> sid \<and> sid < 2 ^ 32 \<and> (\<forall>(n, i) \<in> set nets. \<exists>nid. parse_hex_int i = Some nid \<and> 0 \<le> nid \<and> nid < 2 ^ 64)"
  by (auto simp: net_address_defined neq_Nil_conv simp del: not_None_eq)

text \<open>
  \<^verbatim>\<open>int.to_bytes(n, "little")\<close> raises \<^verbatim>\<open>OverflowError\<close> exactly for a
  negative value or one of more than \<open>8 n\<close> bits, and otherwise yields the unique
  \<open>n\<close>-byte little-endian representation: the bytes it returns read back as the value.
\<close>

lemma to_bytes_le_exact:
  "(int_to_bytes_le n x = None \<longleftrightarrow> x < 0 \<or> 2 ^ (8 * n) \<le> x) \<and>
   (int_to_bytes_le n x = Some bs \<longleftrightarrow> length bs = n \<and> x = int (from_le bs))"
  using int_to_bytes_le_None int_to_bytes_le_Some by blast

text \<open>
  C13. A derived address is base58 text that decodes back to the byte layout
  \<^verbatim>\<open>build_cf_address\<close> assembles: one version byte, eight bytes of network id and
  four of signature id (little-endian, reading back as the given values), the public
  hash, and the digest of all of these as control hash (leading zero bytes included,
  which base58 writes as leading \<^verbatim>\<open>1\<close>s).
\<close>

theorem address_b58_roundtrip:
  assumes "build_cf_address sha3 v n s ph = Some a"
  shows "\<exists>vb nb sb. b58decode a = Some ((vb @ nb @ sb @ ph) @ sha3 (vb @ nb @ sb @ ph))
           \<and> length vb = 1 \<and> length nb = 8 \<and> length sb = 4
           \<and> v = int (from_le (rev vb)) \<and> n = int (from_le nb) \<and> s = int (from_le sb)"
  using assms b58decode_b58encode
  by (auto simp: build_cf_address_Some int_to_bytes_le_Some int_to_bytes_be_Some)

text \<open>
  The public hash \<^verbatim>\<open>_get_public_hash\<close> stores as the record's key (its
  \<^verbatim>\<open>.hex()\<close>) is turned back by \<^verbatim>\<open>bytes.fromhex\<close> in
  \<^verbatim>\<open>generate_wallet_addresses\<close> into exactly the bytes of the parsed wallet, and
  the signature id passed on is the parsed one.
\<close>

lemma public_hash_hex_roundtrip:
  assumes "get_public_hash parse (Some w) = Some (ph, sid)" "parse w = Some c"
  shows "fromhex ph = Some (addr_public_hash c) \<and> sid = int (addr_sign_id c)"
  using assms fromhex_hex by (auto simp: get_public_hash_def)

text \<open>
  C14. Address derivation is injective: with a hash of fixed digest length, two
  version/network/signature/public-hash tuples that both encode (none of the
  \<^verbatim>\<open>to_bytes\<close> calls overflows) to the same address are the same tuple.
\<close>

theorem build_cf_address_injective:
  assumes hl: "\<forall>r. length (sha3 r) = hl"
    and a1: "build_cf_address sha3 v1 n1 s1 p1 = Some a"
    and a2: "build_cf_address sha3 v2 n2 s2 p2 = Some a"
  shows "v1 = v2 \<and> n1 = n2 \<and> s1 = s2 \<and> p1 = p2"
proof -
  obtain vb1 nb1 sb1 vb2 nb2 sb2 where
    b1: "int_to_bytes_be 1 v1 = Some vb1" "int_to_bytes_le 8 n1 = Some nb1" "int_to_bytes_le 4 s1 = Some sb1"
    and b2: "int_to_bytes_be 1 v2 = Some vb2" "int_to_bytes_le 8 n2 = Some nb2" "int_to_bytes_le 4 s2 = Some sb2"
    and eq: "(vb1 @ nb1 @ sb1 @ p1) @ sha3 (vb1 @ nb1 @ sb1 @ p1) = (vb2 @ nb2 @ sb2 @ p2) @ sha3 (vb2 @ nb2 @ sb2 @ p2)"
    using a1 a2 b58encode_inj unfolding build_cf_address_Some by metis
  have len: "length vb1 = 1" "length nb1 = 8" "length sb1 = 4" "length vb2 = 1" "length nb2 = 8" "length sb2 = 4"
    using b1 b2 by (simp_all add: int_to_bytes_le_Some int_to_bytes_be_Some)
  have "length (vb1 @ nb1 @ sb1 @ p1) = length (vb2 @ nb2 @ sb2 @ p2)"
    using arg_cong [OF eq, of length] hl by simp
  then have raw: "vb1 @ nb1 @ sb1 @ p1 = vb2 @ nb2 @ sb2 @ p2"
    using eq append_same_length by blast
  then have "vb1 = vb2 \<and> nb1 = nb2 \<and> sb1 = sb2 \<and> p1 = p2"
    using len by (simp add: append_same_length)
  then show ?thesis
    using b1 b2 by (simp add: int_to_bytes_le_Some int_to_bytes_be_Some)
qed


text \<open>
  C16. When \<^verbatim>\<open>generate_wallet_addresses\<close> succeeds its result has one entry per
  configured network name, and the address under a name is the one built from the
  network id of the last configured network with that name (the dictionary
  comprehension overwrites earlier ones).
\<close>

theorem generate_wallet_addresses_map:
  assumes "generate_wallet_addresses sha3 nets sid ph = Some w" and "fromhex ph = Some phb"
  shows "dict_ok w \<and>
         map_of w n = (case map_of (rev nets) n of None \<Rightarrow> None | Some i \<Rightarrow> net_address sha3 sid phb i)"
  using assms wallet_addresses_acc_map [of sha3 nets sid ph "[]" w phb n]
    dict_ok_wallet_addresses_acc [of sha3 nets sid ph "[]" w]
  by (simp add: generate_wallet_addresses_def dict_ok_def split: option.split)

end
