(* ===== verification/Snapshot.thy ===== *)
theory Snapshot
  imports Store
begin

text \<open>
  The snapshot manager: the backup thread \<^verbatim>\<open>GlobalDBOps.backup_dna_data\<close>
  (\<^verbatim>\<open>src/backend/gdb_ops.py\<close>, lines 331--368), the restore
  \<^verbatim>\<open>GlobalDBOps.restore_dna_data\<close> (lines 370--377) and the CLI command
  \<^verbatim>\<open>restore_dna_data_from_file\<close> of \<^verbatim>\<open>src/backend/cpunk-gdb-server.py\<close>
  (lines 10--42). The backup directory is a dictionary from file names to contents in
  modification-time order (a file written again moves to the end); a file's content is
  the snapshot \<^verbatim>\<open>json.dumps(all_data)\<close> wrote, kept as the decoded records
  (\<^verbatim>\<open>json.dumps\<close> is injective on them, so comparing the texts compares the
  snapshots). The formatting of the clock in file names is a parameter.
\<close>

type_synonym snapshot = "(string \<times> identity) list"

text \<open>An entry of \<^verbatim>\<open>backup_files\<close>: the bare names \<^verbatim>\<open>os.listdir\<close> returns, or
  the paths \<^verbatim>\<open>os.path.join(backup_dir, ...)\<close> the loop appends. \<^verbatim>\<open>os.remove\<close>
  resolves a bare name against the working directory, which is not the backup
  directory.\<close>
datatype file_ref = Bare string | InDir string

record backup_state =
  bk_dir :: "(string, snapshot) dict"
  bk_files :: "file_ref list"
  bk_last :: "snapshot option"
  bk_alive :: bool

text \<open>\<^verbatim>\<open>f.startswith("backup_")\<close>\<close>
definition is_backup_name :: "string \<Rightarrow> bool" where
  "is_backup_name f = (take 7 f = ''backup_'')"

text \<open>\<^verbatim>\<open>os.path.join(backup_dir, f"backup_{curr_time}.json")\<close>\<close>
definition backup_file_name :: "(int \<Rightarrow> string) \<Rightarrow> int \<Rightarrow> string" where
  "backup_file_name fmt t = ''backup_'' @ fmt t @ ''.json''"

text \<open>Lines 335--347: the backup files already in the directory, oldest first, and the
  content of the newest one.\<close>
definition backup_init :: "(string, snapshot) dict \<Rightarrow> backup_state" where
  "backup_init dir =
     (let fs = filter is_backup_name (dkeys dir)
      in \<lparr>bk_dir = dir, bk_files = map Bare fs, bk_last = (if fs = [] then None else map_of dir (last fs)),
          bk_alive = True\<rparr>)"

text \<open>One iteration of the \<^verbatim>\<open>while True\<close> loop (lines 349--364) at clock \<open>t\<close>
  on store \<open>s\<close>. The new file name is appended to \<^verbatim>\<open>backup_files\<close> whether or
  not a file was written; \<^verbatim>\<open>os.remove\<close> of a path with no file, or of a bare
  name listed at start-up, raises \<^verbatim>\<open>FileNotFoundError\<close>, which ends the thread
  (the handler is outside the loop).\<close>
definition backup_step :: "(int \<Rightarrow> string) \<Rightarrow> int \<Rightarrow> store \<Rightarrow> backup_state \<Rightarrow> backup_state" where
  "backup_step fmt t s st =
     (let f = backup_file_name fmt t; all = get_all_gdb_data s in
      if all = [] then st
      else
        (let st1 = (if Some all \<noteq> bk_last st
                    then st\<lparr>bk_dir := AList.delete f (bk_dir st) @ [(f, all)], bk_last := Some all\<rparr>
                    else st);
             fs = bk_files st1 @ [InDir f]
         in if 100 < length fs
            then (case hd fs of
                   InDir g \<Rightarrow> if map_of (bk_dir st1) g \<noteq> None
                              then st1\<lparr>bk_files := tl fs, bk_dir := AList.delete g (bk_dir st1)\<rparr>
                              else st1\<lparr>bk_files := tl fs, bk_alive := False\<rparr>
                 | Bare g \<Rightarrow> st1\<lparr>bk_files := tl fs, bk_alive := False\<rparr>)
            else st1\<lparr>bk_files := fs\<rparr>))"

text \<open>The thread over a sequence of (clock, store) readings ten minutes apart; it stops
  at the first exception.\<close>
fun backup_run :: "(int \<Rightarrow> string) \<Rightarrow> (int \<times> store) list \<Rightarrow> backup_state \<Rightarrow> backup_state" where
  "backup_run fmt [] st = st"
| "backup_run fmt ((t, s) # ts) st = (if bk_alive st then backup_run fmt ts (backup_step fmt t s st) else st)"

text \<open>\<^verbatim>\<open>restore_dna_data(data)\<close>: every key of the loaded backup is set to its
  record, in the backup's order; keys absent from the backup are left as they are.\<close>
definition restore_dna_data :: "snapshot \<Rightarrow> store \<Rightarrow> store" where
  "restore_dna_data d s = foldl (\<lambda>acc (k, r). gdb_set k (Rec r) acc) s d"

fun dec_digits_val :: "nat \<Rightarrow> string \<Rightarrow> nat option" where
  "dec_digits_val acc [] = Some acc"
| "dec_digits_val acc (c # cs) =
     (let n = (of_char c :: nat) in
      if 48 \<le> n \<and> n \<le> 57 then dec_digits_val (10 * acc + (n - 48)) cs else None)"

text \<open>\<^verbatim>\<open>int(index)\<close>: an optional sign and at least one decimal digit (the
  underscores and surrounding white space Python also accepts are not modelled).\<close>
definition parse_dec_int :: "string \<Rightarrow> int option" where
  "parse_dec_int s =
     (let (sg, ds) = (case s of c # cs \<Rightarrow> if c = CHR ''-'' then (-1, cs) else if c = CHR ''+'' then (1, cs) else (1, s)
                              | [] \<Rightarrow> (1, []))
      in if ds = [] then None else map_option (\<lambda>v. sg * int v) (dec_digits_val 0 ds))"

datatype restore_reply = NeedIndex | NoBackups | InvalidValue | InvalidIndex nat | Restored string

text \<open>\<^verbatim>\<open>restore_dna_data_from_file(index, reply_object)\<close>: the backups newest
  first, the index checks in the order of the code, then the restore.\<close>
definition restore_from_file :: "string option \<Rightarrow> (string, snapshot) dict \<Rightarrow> store \<Rightarrow> restore_reply \<times> store" where
  "restore_from_file idx dir s =
     (case idx of
       None \<Rightarrow> (NeedIndex, s)
     | Some istr \<Rightarrow>
         (let files = rev (filter (\<lambda>(f, _). is_backup_name f) dir) in
          if files = [] then (NoBackups, s)
          else (case parse_dec_int istr of
                 None \<Rightarrow> (InvalidValue, s)
               | Some i \<Rightarrow>
                   if i < 0 \<or> int (length files) \<le> i then (InvalidIndex (length files), s)
                   else (Restored (fst (files ! nat i)), restore_dna_data (snd (files ! nat i)) s))))"

subsection \<open>Properties of backup and restore\<close>

lemma backup_run_dead: "\<not> bk_alive st \<Longrightarrow> backup_run fmt ts st = st"
  by (induction ts) auto

lemma backup_run_append: "backup_run fmt (xs @ ys) st = backup_run fmt ys (backup_run fmt xs st)"
  by (induction fmt xs st rule: backup_run.induct) (auto simp: backup_run_dead)

lemma backup_run_constant:
  assumes "get_all_gdb_data s = D" "D \<noteq> []" "ts \<noteq> []" "length ts \<le> 100"
  shows "backup_run fmt (map (\<lambda>t. (t, s)) ts) (backup_init []) =
           \<lparr>bk_dir = [(backup_file_name fmt (hd ts), D)], bk_files = map (\<lambda>t. InDir (backup_file_name fmt t)) ts,
            bk_last = Some D, bk_alive = True\<rparr>"
  using assms(3,4)
proof (induction ts rule: rev_induct)
  case (snoc x xs)
  show ?case
  proof (cases "xs = []")
    case True
    then show ?thesis using assms(1,2) by (simp add: backup_step_def backup_init_def Let_def)
  next
    case False
    then have "length xs \<le> 100" using snoc.prems by simp
    then show ?thesis
      using snoc.IH [OF False] snoc.prems False assms(1,2)
      by (simp add: backup_run_append backup_step_def Let_def)
  qed
qed simp

text \<open>
  C18. When the store's content does not change, the backup thread keeps adding the
  names of files it never writes to its list: starting from an empty directory, after
  101 iterations its only real backup has been deleted (the directory is empty although
  the store is not), and at the 102nd iteration \<^verbatim>\<open>os.remove\<close> of a file that was
  never written raises and the thread ends for good.
\<close>

theorem backup_thread_dies:
  assumes nonempty: "get_all_gdb_data s \<noteq> []" and long: "102 \<le> length ts"
  shows "bk_dir (backup_run fmt (map (\<lambda>t. (t, s)) (take 101 ts)) (backup_init [])) = []
         \<and> bk_alive (backup_run fmt (map (\<lambda>t. (t, s)) (take 101 ts)) (backup_init []))
         \<and> \<not> bk_alive (backup_run fmt (map (\<lambda>t. (t, s)) ts) (backup_init []))"
proof -
  define run where "run xs = backup_run fmt (map (\<lambda>t. (t, s)) xs) (backup_init [])" for xs
  let ?D = "get_all_gdb_data s" and ?n = "backup_file_name fmt"
  let ?st = "run (take 100 ts)"
  have st: "?st = \<lparr>bk_dir = [(?n (hd ts), ?D)], bk_files = map (\<lambda>t. InDir (?n t)) (take 100 ts), bk_last = Some ?D, bk_alive = True\<rparr>"
    unfolding run_def using backup_run_constant [OF refl nonempty, of "take 100 ts" fmt] long
    by (cases ts) auto
  have t101: "take 101 ts = take 100 ts @ [ts ! 100]"
    using long take_Suc_conv_app_nth [of 100 ts] by simp
  have t102: "take 102 ts = take 101 ts @ [ts ! 101]"
    using long take_Suc_conv_app_nth [of 101 ts] by simp
  have hd100: "hd (map (\<lambda>t. InDir (?n t)) (take 100 ts) @ [InDir (?n (ts ! 100))]) = InDir (?n (hd ts))"
    using long by (cases ts) auto
  have s101: "run (take 101 ts) = \<lparr>bk_dir = [], bk_files = tl (map (\<lambda>t. InDir (?n t)) (take 100 ts) @ [InDir (?n (ts ! 100))]),
                                    bk_last = Some ?D, bk_alive = True\<rparr>"
    unfolding t101 using st hd100 long nonempty
    by (simp add: run_def backup_run_append backup_step_def Let_def)
  have "\<not> bk_alive (run (take 102 ts))"
    unfolding t102 using s101 long nonempty
    by (simp add: run_def backup_run_append backup_step_def Let_def split: file_ref.split)
  then have "\<not> bk_alive (run (take 102 ts @ drop 102 ts))"
    by (simp add: run_def backup_run_append backup_run_dead del: append_take_drop_id)
  then show ?thesis using s101 by (simp add: run_def)
qed

lemma restore_map_of:
  "map_of (restore_dna_data d s) k = (case map_of (rev d) k of Some r \<Rightarrow> Some (Rec r) | None \<Rightarrow> map_of s k)"
  by (induction d arbitrary: s) (auto simp: restore_dna_data_def gdb_set_def update_conv' map_add_def split: option.split)

lemma dict_ok_restore: "dict_ok s \<Longrightarrow> dict_ok (restore_dna_data d s)"
  by (induction d arbitrary: s) (auto simp: restore_dna_data_def dict_ok_gdb_set)

lemma update_fresh_append: "k \<notin> set (dkeys d) \<Longrightarrow> AList.update k v d = d @ [(k, v)]"
  by (induction d) auto

lemma restore_get_all_fresh:
  assumes "dict_ok s" "Garbage \<notin> snd ` set s" "set (dkeys s) \<inter> set (dkeys acc) = {}"
  shows "restore_dna_data (get_all_gdb_data s) acc = acc @ s"
  using assms
proof (induction s arbitrary: acc rule: get_all_gdb_data.induct)
  case (2 k r s)
  have "k \<notin> set (dkeys acc)" using "2.prems"(3) by auto
  then have "gdb_set k (Rec r) acc = acc @ [(k, Rec r)]"
    by (simp add: gdb_set_def update_fresh_append)
  moreover have "restore_dna_data (get_all_gdb_data s) (acc @ [(k, Rec r)]) = (acc @ [(k, Rec r)]) @ s"
    using "2.prems" by (intro "2.IH") (auto simp: dict_ok_def)
  ultimately show ?case by (simp add: restore_dna_data_def)
qed (auto simp: restore_dna_data_def)

text \<open>Restoring the backup of a store whose values all decode into an empty store
  gives back that store, order included.\<close>
lemma restore_backup_roundtrip:
  assumes "dict_ok s" "Garbage \<notin> snd ` set s"
  shows "restore_dna_data (get_all_gdb_data s) [] = s"
  using restore_get_all_fresh [OF assms, of "[]"] by simp

text \<open>
  C19. A restore overwrites every key of the backup with the backup's record (the last
  entry of a key winning, as \<^verbatim>\<open>json.load\<close> keeps it) and leaves every other key
  as it is: keys created since the backup are not removed, keys changed since are set
  back.
\<close>

theorem restore_overrides:
  "map_of (restore_dna_data d s) k = (case map_of (rev d) k of Some r \<Rightarrow> Some (Rec r) | None \<Rightarrow> map_of s k)"
  by (rule restore_map_of)

text \<open>
  C22. A restore can break global name uniqueness: when the backup gives key \<open>k\<close> a
  record leasing a name that another record, stored under a key the backup does not
  mention, leases now, both records lease the name after the restore. The spec asks
  for a verbatim restore and for uniqueness at all times; the code does the first.
\<close>

theorem restore_breaks_uniqueness:
  assumes "dict_ok s" "(k2, r2) \<in> set (get_all_gdb_data s)" "n \<in> set (dkeys (registered_names r2))"
    and "map_of (rev d) k = Some r" "n \<in> set (dkeys (registered_names r))"
    and "k \<noteq> k2" "map_of d k2 = None"
  shows "\<not> names_unique (restore_dna_data d s)"
proof -
  let ?s' = "restore_dna_data d s"
  have ok: "dict_ok ?s'" by (rule dict_ok_restore [OF assms(1)])
  have "map_of ?s' k = Some (Rec r)" using assms(4) by (simp add: restore_map_of)
  then have m1: "(k, r) \<in> set (get_all_gdb_data ?s')"
    using ok by (simp add: in_get_all_gdb_data dict_ok_map_of_in)
  have "map_of (rev d) k2 = None" using assms(7) by (simp add: map_of_eq_None_iff)
  moreover have "map_of s k2 = Some (Rec r2)"
    using assms(1,2) by (simp add: in_get_all_gdb_data dict_ok_map_of_in)
  ultimately have "map_of ?s' k2 = Some (Rec r2)" by (simp add: restore_map_of)
  then have m2: "(k2, r2) \<in> set (get_all_gdb_data ?s')"
    using ok by (simp add: in_get_all_gdb_data dict_ok_map_of_in)
  have "\<not> names_disjoint r r2" using assms(3,5) by (auto simp: names_disjoint_def)
  then show ?thesis using m1 m2 assms(6) unfolding names_unique_def by blast
qed

lemma is_backup_name_file [simp]: "is_backup_name (backup_file_name fmt t)"
  by (simp add: is_backup_name_def backup_file_name_def)

lemma backup_step_writes_last:
  assumes "get_all_gdb_data s \<noteq> []" "Some (get_all_gdb_data s) \<noteq> bk_last st"
    and "InDir (backup_file_name fmt t) \<notin> set (bk_files st)"
  shows "\<exists>d. bk_dir (backup_step fmt t s st) = d @ [(backup_file_name fmt t, get_all_gdb_data s)]"
proof -
  let ?f = "backup_file_name fmt t" and ?a = "get_all_gdb_data s"
  let ?d1 = "AList.delete ?f (bk_dir st) @ [(?f, ?a)]"
  have del: "AList.delete x ?d1 = AList.delete x (AList.delete ?f (bk_dir st)) @ [(?f, ?a)]" if "x \<noteq> ?f" for x
    using that by (simp add: AList.delete_eq)
  have "hd (bk_files st @ [InDir ?f]) \<noteq> InDir ?f" if "100 < length (bk_files st @ [InDir ?f])"
    using that assms(3) by (cases "bk_files st") auto
  then show ?thesis
    using assms(1,2) del by (auto simp: backup_step_def Let_def split: file_ref.split)
qed

lemma parse_dec_int_0 [simp]: "parse_dec_int ''0'' = Some 0"
  by (simp add: parse_dec_int_def)

text \<open>
  C21. Right after an iteration of the backup thread that wrote a new backup (the
  data changed and the file name is new), \<^verbatim>\<open>dna_restore 0\<close> restores exactly that
  snapshot: index 0 is the newest backup file.
\<close>

theorem restore_latest_backup:
  assumes "get_all_gdb_data s \<noteq> []" "Some (get_all_gdb_data s) \<noteq> bk_last st"
    and "InDir (backup_file_name fmt t) \<notin> set (bk_files st)"
  shows "restore_from_file (Some ''0'') (bk_dir (backup_step fmt t s st)) s'
           = (Restored (backup_file_name fmt t), restore_dna_data (get_all_gdb_data s) s')"
proof -
  obtain d where "bk_dir (backup_step fmt t s st) = d @ [(backup_file_name fmt t, get_all_gdb_data s)]"
    using backup_step_writes_last [OF assms] by blast
  then show ?thesis by (simp add: restore_from_file_def)
qed

end
