(* ===== verification/Stamps.thy ===== *)
theory Stamps
  imports Registry Sweeper
begin

text \<open>
  The expiry stamps the program writes. Every lease the write path creates
  (\<^verbatim>\<open>write_gdb_data\<close> and \<^verbatim>\<open>update_gdb_data_old_name\<close> in
  \<^verbatim>\<open>src/backend/gdb_ops.py\<close>) carries a time-zone aware expiry, a renewal keeps the
  kind of its stamp, and a sweep cycle only removes leases; so the program's own writes
  never produce a stamp that stops the sweeper (\<open>no_blocking_stamps\<close>). The root
  theory turns these preservation facts into an invariant of every reachable store.
\<close>

subsection \<open>Preservation of unblocking stamps\<close>

lemma set_update_subset: "set (AList.update k v d) \<subseteq> insert (k, v) (set d)"
  by (induction d) auto

lemma get_all_sweep_spec:
  "get_all_gdb_data (sweep_spec now s) = map (\<lambda>(k, r). (k, swept now r)) (get_all_gdb_data s)"
  by (induction s rule: get_all_gdb_data.induct) (simp_all add: sweep_spec_def)

lemma new_lease_unblocked: "\<not> blocks_sweep (new_lease now tx)"
  by (simp add: blocks_sweep_def new_lease_def)

lemma register_name_unblocked:
  assumes "register_name e p s ph r = Inr r1"
    and "\<forall>x \<in> set (registered_names r). \<not> blocks_sweep (snd x)"
  shows "\<forall>x \<in> set (registered_names r1). \<not> blocks_sweep (snd x)"
proof -
  have upd: "\<forall>x \<in> set (AList.update n ent (registered_names r)). \<not> blocks_sweep (snd x)"
    if "\<not> blocks_sweep ent" for n ent
    using set_update_subset [of n ent "registered_names r"] assms(2) that by auto
  have keep: "\<not> blocks_sweep (ent\<lparr>expires_on := exp, tx_hash := tx\<rparr>)"
    if "map_of (registered_names r) n = Some ent" "add_year (expires_on ent) = Some exp" for n ent exp tx
  proof -
    have "\<not> blocks_sweep ent" using map_of_SomeD [OF that(1)] assms(2) by fastforce
    then show ?thesis using that(2)
      by (cases "expires_on ent") (auto simp: blocks_sweep_def)
  qed
  show ?thesis
  proof (cases "payload_name p = [] \<or> is_name_taken (payload_name p) (get_all_gdb_data s) ph")
    case True
    then show ?thesis using assms by (auto simp: register_name_def Let_def split: if_splits)
  next
    case False
    show ?thesis
    proof (cases "map_of (registered_names r) (payload_name p)")
      case None
      then have "r1 = r\<lparr>registered_names := AList.update (payload_name p)
          (new_lease (clock e) (case p_tx_hash p of None \<Rightarrow> Some [] | Some tx \<Rightarrow> tx)) (registered_names r)\<rparr>"
        using assms(1) False by (simp add: register_name_def Let_def)
      then show ?thesis using upd [OF new_lease_unblocked] by simp
    next
      case (Some ent)
      obtain exp where exp: "add_year (expires_on ent) = Some exp"
        using assms(1) False Some by (auto simp: register_name_def Let_def split: option.splits)
      let ?tx = "case p_tx_hash p of None \<Rightarrow> tx_hash ent | Some tx \<Rightarrow> tx"
      have "r1 = r\<lparr>registered_names := AList.update (payload_name p)
          (ent\<lparr>expires_on := exp, tx_hash := ?tx\<rparr>) (registered_names r)\<rparr>"
        using assms(1) False Some exp by (simp add: register_name_def Let_def)
      then show ?thesis using upd [OF keep [OF Some exp, of ?tx]] by simp
    qed
  qed
qed

lemma no_blocking_stamps_set:
  assumes "dict_ok s" "no_blocking_stamps s"
    and "\<forall>x \<in> set (registered_names r). \<not> blocks_sweep (snd x)"
  shows "no_blocking_stamps (gdb_set k (Rec r) s)"
  using assms unfolding no_blocking_stamps_def by (fastforce simp: in_get_all_gdb_data_set)

lemma update_gdb_data_old_name_cases:
  "snd (update_gdb_data_old_name e p s) = s \<or>
   (\<exists>ph r r1. gdb_get s ph = Some (Rec r) \<and> register_name e p s ph r = Inr r1 \<and>
      snd (update_gdb_data_old_name e p s)
        = gdb_set ph (Rec (merge_fields (clock e) p r1\<lparr>modified_at := Some (Aware (clock e))\<rparr>)) s)"
  by (auto simp: update_gdb_data_old_name_def Let_def split: option.splits stored.splits sum.splits)

lemma update_no_blocking:
  assumes "wf_store s" "no_blocking_stamps s"
  shows "no_blocking_stamps (snd (update_gdb_data_old_name e p s))"
  using update_gdb_data_old_name_cases [of e p s]
proof
  assume "\<exists>ph r r1. gdb_get s ph = Some (Rec r) \<and> register_name e p s ph r = Inr r1 \<and>
      snd (update_gdb_data_old_name e p s)
        = gdb_set ph (Rec (merge_fields (clock e) p r1\<lparr>modified_at := Some (Aware (clock e))\<rparr>)) s"
  then obtain ph r r1 where get: "gdb_get s ph = Some (Rec r)" and r1: "register_name e p s ph r = Inr r1"
    and s': "snd (update_gdb_data_old_name e p s)
        = gdb_set ph (Rec (merge_fields (clock e) p r1\<lparr>modified_at := Some (Aware (clock e))\<rparr>)) s"
    by blast
  have ok: "dict_ok s" using assms(1) by (simp add: wf_store_def)
  have "(ph, r) \<in> set (get_all_gdb_data s)" using get ok by (simp add: gdb_get_Rec)
  then have "\<forall>x \<in> set (registered_names r). \<not> blocks_sweep (snd x)"
    using assms(2) by (auto simp: no_blocking_stamps_def)
  then have "\<forall>x \<in> set (registered_names r1). \<not> blocks_sweep (snd x)"
    by (rule register_name_unblocked [OF r1])
  then show ?thesis
    unfolding s' by (intro no_blocking_stamps_set [OF ok assms(2)]) (simp add: merge_fields_frame)
qed (use assms in simp)

lemma write_no_blocking:
  assumes "wf_store s" "no_blocking_stamps s"
  shows "no_blocking_stamps (snd (write_gdb_data e p s))"
proof -
  have ok: "dict_ok s" using assms(1) by (simp add: wf_store_def)
  have new: "\<forall>x \<in> set (registered_names (new_identity ph g sid n ent)). \<not> blocks_sweep (snd x)"
    if "\<not> blocks_sweep ent" for ph g sid n ent
    using that by (simp add: new_identity_def)
  show ?thesis
    using assms update_no_blocking [OF assms] no_blocking_stamps_set [OF ok assms(2) new [OF new_lease_unblocked]]
    by (auto simp: write_gdb_data_def Let_def split: option.splits stored.splits)
qed

lemma sweep_no_blocking:
  assumes "wf_store s" "no_blocking_stamps s"
  shows "no_blocking_stamps (fst (remove_expired_cycle now s))"
  using assms remove_expired_cycle_spec [of s now]
  by (force simp: no_blocking_stamps_def get_all_sweep_spec swept_def)

end
