(* ===== verification/Concurrency.thy ===== *)
theory Concurrency
  imports Registry Sweeper Stamps
begin

text \<open>
  Interleavings of the request handlers and the expiration sweeper. The HTTP server
  runs each request in its own thread and the constructor of \<^verbatim>\<open>GlobalDBOps\<close>
  (\<^verbatim>\<open>src/backend/gdb_ops.py\<close>, lines 14--18) starts the sweeper thread; the module
  creates \<^verbatim>\<open>thread_lock\<close> (line 11) but no code acquires it. The store offers
  single-key \<^verbatim>\<open>get\<close>/\<^verbatim>\<open>set\<close> only, so each job reads the store, decides from what it
  read, and then performs its \<^verbatim>\<open>gdb_group.set\<close> calls one by one, while other
  threads run. A thread is idle or holds the writes it still has to perform; the writes
  of a job are the entries its serial effect changes (proved below to be exactly its
  serial effect when nothing interleaves).
\<close>

datatype job = Request env action | SweepCycle int

text \<open>The serial effect of a job on the store it reads: one request handler, or one
  cycle of the sweeper.\<close>
definition job_effect :: "job \<Rightarrow> store \<Rightarrow> store" where
  "job_effect j s = (case j of Request e a \<Rightarrow> snd (dispatch e a s) | SweepCycle now \<Rightarrow> fst (remove_expired_cycle now s))"

text \<open>The \<^verbatim>\<open>gdb_group.set\<close> calls a job decided on: the entries of its result that
  differ from the store it read, in store order.\<close>
definition changed :: "store \<Rightarrow> store \<Rightarrow> (string \<times> stored) list" where
  "changed s s' = filter (\<lambda>(k, v). map_of s k \<noteq> Some v) s'"

definition apply_writes :: "(string \<times> stored) list \<Rightarrow> store \<Rightarrow> store" where
  "apply_writes ws s = foldl (\<lambda>acc (k, v). gdb_set k v acc) s ws"

datatype thread = Idle | Writing "(string \<times> stored) list"

type_synonym conf = "store \<times> thread list"

text \<open>One step of one thread: an idle thread starts a job by reading the store; a
  writing thread performs its next \<^verbatim>\<open>set\<close>; a thread with no writes left returns.\<close>
inductive conc_step :: "conf \<Rightarrow> conf \<Rightarrow> bool" where
  start_job: "i < length ts \<Longrightarrow> ts ! i = Idle \<Longrightarrow>
         conc_step (s, ts) (s, ts[i := Writing (changed s (job_effect j s))])"
| do_set: "i < length ts \<Longrightarrow> ts ! i = Writing ((k, v) # ws) \<Longrightarrow>
         conc_step (s, ts) (gdb_set k v s, ts[i := Writing ws])"
| end_job: "i < length ts \<Longrightarrow> ts ! i = Writing [] \<Longrightarrow>
         conc_step (s, ts) (s, ts[i := Idle])"

inductive_cases conc_stepE: "conc_step c c'"

subsection \<open>Properties of the interleaving model\<close>


lemma map_of_apply_writes:
  "map_of (apply_writes ws s) k = (case map_of (rev ws) k of Some v \<Rightarrow> Some v | None \<Rightarrow> map_of s k)"
  by (induction ws arbitrary: s) (auto simp: apply_writes_def gdb_set_def update_conv' map_add_def split: option.split)

lemma dkeys_update_in: "k \<in> set (dkeys d) \<Longrightarrow> dkeys (AList.update k v d) = dkeys d"
  by (induction d) auto

lemma dkeys_apply_writes:
  "set (dkeys ws) \<subseteq> set (dkeys s) \<Longrightarrow> dkeys (apply_writes ws s) = dkeys s"
proof (induction ws arbitrary: s)
  case (Cons w ws)
  obtain k v where w: "w = (k, v)" by fastforce
  have "dkeys (gdb_set k v s) = dkeys s"
    using Cons.prems w by (simp add: gdb_set_def dkeys_update_in)
  then show ?case
    using Cons.IH [of "gdb_set k v s"] Cons.prems w by (simp add: apply_writes_def)
qed (simp add: apply_writes_def)

lemma dict_eqI:
  "dict_ok a \<Longrightarrow> dkeys a = dkeys b \<Longrightarrow> map_of a = map_of b \<Longrightarrow> a = b"
proof (induction a arbitrary: b)
  case Nil
  then show ?case by (simp add: dkeys_def)
next
  case (Cons x a)
  obtain k v where x: "x = (k, v)" by fastforce
  obtain v' b' where b: "b = (k, v') # b'" and keys: "dkeys a = dkeys b'"
    using Cons.prems(2) x by (cases b) (auto simp: dkeys_def)
  have kn: "k \<notin> set (dkeys a)" using Cons.prems(1) x by (simp add: dict_ok_def)
  have "v = v'" using Cons.prems(3) x b by (metis map_of_Cons_code(2) option.inject)
  moreover have "map_of a = map_of b'"
  proof
    fix k0
    show "map_of a k0 = map_of b' k0"
    proof (cases "k0 = k")
      case True
      then show ?thesis using kn keys by (metis map_of_eq_None_iff set_dkeys_map_of)
    next
      case False
      then show ?thesis using Cons.prems(3) x b by (metis map_of_Cons_code(2))
    qed
  qed
  ultimately show ?case
    using Cons.IH [of b'] Cons.prems(1) keys x b by (simp add: dict_ok_def)
qed

lemma dispatch_one_set:
  "snd (dispatch e a s) = s \<or> (\<exists>k v. snd (dispatch e a s) = gdb_set k v s)"
proof -
  have u: "snd (update_gdb_data_old_name e p s) = s \<or> (\<exists>k v. snd (update_gdb_data_old_name e p s) = gdb_set k v s)" for p
    by (auto simp: update_gdb_data_old_name_def Let_def split: option.split stored.split sum.split)
  show ?thesis
  proof (cases a)
    case (Add p)
    then show ?thesis
      using u [of p] by (auto simp: write_gdb_data_def Let_def split: option.split stored.split)
  qed (use u in auto)
qed

lemma filter_key_update:
  "dict_ok d \<Longrightarrow> filter (\<lambda>(a, _). a = k) (AList.update k v d) = [(k, v)]"
proof (induction d)
  case (Cons x d)
  obtain k0 v0 where x: "x = (k0, v0)" by fastforce
  show ?case
  proof (cases "k0 = k")
    case True
    then have "filter (\<lambda>(a, _). a = k) d = []"
      using Cons.prems x by (force simp: dict_ok_def dkeys_def filter_empty_conv)
    then show ?thesis using True x by simp
  next
    case False
    then show ?thesis using Cons x by (simp add: dict_ok_def)
  qed
qed simp

lemma changed_gdb_set:
  assumes "dict_ok s"
  shows "changed s (gdb_set k v s) = (if map_of s k = Some v then [] else [(k, v)])"
proof -
  have "changed s (gdb_set k v s) = filter (\<lambda>(a, _). a = k) (filter (\<lambda>(a, b). map_of s a \<noteq> Some b) (AList.update k v s))"
    using assms in_set_update [OF assms, of _ _ k v] dict_ok_map_of_in [OF assms]
    unfolding changed_def gdb_set_def filter_filter by (intro filter_cong) auto
  also have "\<dots> = filter (\<lambda>(a, b). map_of s a \<noteq> Some b) (filter (\<lambda>(a, _). a = k) (AList.update k v s))"
    unfolding filter_filter by (intro filter_cong) auto
  finally show ?thesis
    using filter_key_update [OF assms, of k v] by simp
qed

lemma map_of_rev_dict: "dict_ok d \<Longrightarrow> map_of (rev d) = map_of d"
proof
  fix k
  assume ok: "dict_ok d"
  then have "distinct (map fst (rev d))" by (simp add: dict_ok_def dkeys_def rev_map [symmetric])
  show "map_of (rev d) k = map_of d k"
  proof (cases "map_of d k")
    case None
    then have "k \<notin> fst ` set d" by (simp add: map_of_eq_None_iff)
    then have "map_of (rev d) k = None" by (simp add: map_of_eq_None_iff)
    then show ?thesis using None by simp
  next
    case (Some y)
    then have "(k, y) \<in> set (rev d)" by (simp add: map_of_SomeD)
    then show ?thesis using Some map_of_is_SomeI [OF \<open>distinct (map fst (rev d))\<close>] by simp
  qed
qed

lemma apply_writes_gdb_set:
  "dict_ok s \<Longrightarrow> apply_writes (changed s (gdb_set k v s)) s = gdb_set k v s"
  using changed_gdb_set [of s k v]
  by (cases "map_of s k = Some v") (simp_all add: apply_writes_def gdb_set_def update_same_noop)

lemma apply_writes_same_keys:
  assumes ok: "dict_ok s" "dict_ok s'" and keys: "dkeys s' = dkeys s"
  shows "apply_writes (changed s s') s = s'"
proof -
  let ?w = "changed s s'"
  have wk: "set (dkeys ?w) \<subseteq> set (dkeys s)"
    using keys set_filter_dkeys [of _ s'] by (simp add: changed_def)
  have wok: "dict_ok ?w" using ok(2) by (simp add: changed_def dict_ok_filter)
  have dk: "dkeys (apply_writes ?w s) = dkeys s"
    by (rule dkeys_apply_writes [OF wk])
  have "map_of (apply_writes ?w s) = map_of s'"
  proof
    fix k
    show "map_of (apply_writes ?w s) k = map_of s' k"
  proof (cases "map_of ?w k")
    case None
    have "map_of s k = map_of s' k"
    proof (cases "map_of s' k")
      case None
      then have "k \<notin> set (dkeys s)" using keys set_dkeys_map_of [of k s'] by simp
      then show ?thesis using None set_dkeys_map_of [of k s] by simp
    next
      case (Some v')
      then have "(k, v') \<in> set s'" by (rule map_of_SomeD)
      moreover have "(k, v') \<notin> set ?w"
        using \<open>map_of ?w k = None\<close> weak_map_of_SomeI [of k v' ?w] by auto
      ultimately show ?thesis using Some by (auto simp: changed_def)
    qed
    then show ?thesis using None by (simp add: map_of_apply_writes map_of_rev_dict [OF wok])
  next
    case (Some v)
    then have "map_of s' k = Some v"
      using ok(2) wok by (auto simp: changed_def dict_ok_map_of_in [symmetric] dest: map_of_SomeD)
    then show ?thesis using Some by (simp add: map_of_apply_writes map_of_rev_dict [OF wok])
  qed
  qed
  then show ?thesis
    using dict_eqI [of "apply_writes ?w s" s'] dk keys ok(1) by (simp add: dict_ok_def)
qed

lemma changed_self: "dict_ok s \<Longrightarrow> changed s s = []"
  by (auto simp: changed_def filter_empty_conv dict_ok_map_of_in [symmetric])

lemma sweep_same_keys:
  "dict_ok s \<Longrightarrow> dkeys (fst (remove_expired_cycle now s)) = dkeys s"
  using sweep_records_prefix [OF get_all_keys_subset, of now s "[]"]
  by (auto simp: remove_expired_cycle_def)

lemma job_effect_apply_writes:
  "dict_ok s \<Longrightarrow> apply_writes (changed s (job_effect j s)) s = job_effect j s"
proof (cases j)
  case (Request e a)
  assume ok: "dict_ok s"
  show ?thesis
    using dispatch_one_set [of e a s] apply_writes_gdb_set [OF ok] changed_self [OF ok] Request
    by (auto simp: job_effect_def apply_writes_def)
next
  case (SweepCycle now)
  assume ok: "dict_ok s"
  have "dict_ok (fst (remove_expired_cycle now s))"
    using ok sweep_same_keys [OF ok, of now] by (simp add: dict_ok_def)
  then show ?thesis
    using apply_writes_same_keys [OF ok _ sweep_same_keys [OF ok]] SweepCycle by (simp add: job_effect_def)
qed

lemma conc_step_dict_ok: "conc_step (s, ts) (s', ts') \<Longrightarrow> dict_ok s \<Longrightarrow> dict_ok s'"
  by (erule conc_stepE) (auto simp: dict_ok_gdb_set)

lemma run_writes:
  "i < length ts \<Longrightarrow> conc_step\<^sup>*\<^sup>* (s, ts[i := Writing ws]) (apply_writes ws s, ts[i := Writing []])"
proof (induction ws arbitrary: s)
  case Nil
  then show ?case by (simp add: apply_writes_def)
next
  case (Cons w ws)
  obtain k v where w: "w = (k, v)" by fastforce
  have "conc_step (s, ts[i := Writing ((k, v) # ws)]) (gdb_set k v s, ts[i := Writing ws])"
    using conc_step.do_set [of i "ts[i := Writing ((k, v) # ws)]" k v ws s] Cons.prems by simp
  moreover have "conc_step\<^sup>*\<^sup>* (gdb_set k v s, ts[i := Writing ws]) (apply_writes ws (gdb_set k v s), ts[i := Writing []])"
    using Cons by blast
  ultimately show ?case using w by (simp add: apply_writes_def)
qed

lemma race_run:
  "conc_step\<^sup>*\<^sup>* (s, [Idle, Idle])
     (apply_writes (changed s (job_effect j2 s)) (apply_writes (changed s (job_effect j1 s)) s), [Idle, Idle])"
proof -
  let ?w1 = "changed s (job_effect j1 s)" and ?w2 = "changed s (job_effect j2 s)"
  let ?s1 = "apply_writes ?w1 s"
  have "conc_step (s, [Idle, Idle]) (s, [Writing ?w1, Idle])"
    using conc_step.start_job [of 0 "[Idle, Idle]" s j1] by simp
  moreover have "conc_step (s, [Writing ?w1, Idle]) (s, [Writing ?w1, Writing ?w2])"
    using conc_step.start_job [of 1 "[Writing ?w1, Idle]" s j2] by simp
  moreover have "conc_step\<^sup>*\<^sup>* (s, [Writing ?w1, Writing ?w2]) (?s1, [Writing [], Writing ?w2])"
    using run_writes [of 0 "[Idle, Writing ?w2]" s ?w1] by simp
  moreover have "conc_step (?s1, [Writing [], Writing ?w2]) (?s1, [Idle, Writing ?w2])"
    using conc_step.end_job [of 0 "[Writing [], Writing ?w2]" ?s1] by simp
  moreover have "conc_step\<^sup>*\<^sup>* (?s1, [Idle, Writing ?w2]) (apply_writes ?w2 ?s1, [Idle, Writing []])"
    using run_writes [of 1 "[Idle, Idle]" ?s1 ?w2] by simp
  moreover have "conc_step (apply_writes ?w2 ?s1, [Idle, Writing []]) (apply_writes ?w2 ?s1, [Idle, Idle])"
    using conc_step.end_job [of 1 "[Idle, Writing []]" "apply_writes ?w2 ?s1"] by simp
  ultimately show ?thesis
    by (meson converse_rtranclp_into_rtranclp rtranclp.rtrancl_into_rtrancl rtranclp_trans)
qed

lemma write_created:
  assumes "write_gdb_data e p s = (Inr (Created r), s')"
  shows "s' = gdb_set (public_hash r) (Rec r) s \<and> gdb_get s (public_hash r) = None
         \<and> dkeys (registered_names r) = [payload_name p]"
proof -
  have u: "fst (update_gdb_data_old_name e p s) \<noteq> Inr (Created r)"
    by (auto simp: update_gdb_data_old_name_def Let_def split: option.splits stored.splits sum.splits)
  show ?thesis
    using assms u by (auto simp: write_gdb_data_def Let_def new_identity_def
        split: option.splits stored.splits if_splits)
qed

lemma changed_fresh_set: "dict_ok s \<Longrightarrow> gdb_get s k = None \<Longrightarrow> changed s (gdb_set k v s) = [(k, v)]"
  by (simp add: changed_gdb_set gdb_get_def)

text \<open>
  C23. Two "add" requests for one name from two addresses that own no record, each of
  which would create its identity when run alone, both succeed when both threads read
  the store before either writes (no lock is taken): both answer \<^verbatim>\<open>Created\<close>, and
  the store they leave has two records leasing the name. The spec requires exactly one
  of two concurrent creations of a name to succeed.
\<close>

theorem concurrent_creates_break_uniqueness:
  assumes "dict_ok s"
    and "write_gdb_data e1 p1 s = (Inr (Created r1), s1)" "write_gdb_data e2 p2 s = (Inr (Created r2), s2)"
    and "payload_name p1 = payload_name p2" "public_hash r1 \<noteq> public_hash r2"
  shows "\<exists>s'. conc_step\<^sup>*\<^sup>* (s, [Idle, Idle]) (s', [Idle, Idle])
           \<and> gdb_get s' (public_hash r1) = Some (Rec r1) \<and> gdb_get s' (public_hash r2) = Some (Rec r2)
           \<and> \<not> names_unique s'"
proof -
  let ?j1 = "Request e1 (Add p1)" and ?j2 = "Request e2 (Add p2)"
  let ?k1 = "public_hash r1" and ?k2 = "public_hash r2"
  note c1 = write_created [OF assms(2)] and c2 = write_created [OF assms(3)]
  have w1: "changed s (job_effect ?j1 s) = [(?k1, Rec r1)]"
    using c1 assms(1,2) changed_fresh_set by (simp add: job_effect_def)
  have w2: "changed s (job_effect ?j2 s) = [(?k2, Rec r2)]"
    using c2 assms(1,3) changed_fresh_set by (simp add: job_effect_def)
  let ?s' = "gdb_set ?k2 (Rec r2) (gdb_set ?k1 (Rec r1) s)"
  have run: "conc_step\<^sup>*\<^sup>* (s, [Idle, Idle]) (?s', [Idle, Idle])"
    using race_run [of s ?j2 ?j1] unfolding w1 w2 by (simp add: apply_writes_def)
  have ok1: "dict_ok (gdb_set ?k1 (Rec r1) s)" using assms(1) by (rule dict_ok_gdb_set)
  have m1: "(?k1, r1) \<in> set (get_all_gdb_data ?s')"
    using ok1 assms(1,5) by (simp add: in_get_all_gdb_data_set)
  have m2: "(?k2, r2) \<in> set (get_all_gdb_data ?s')"
    using ok1 by (simp add: in_get_all_gdb_data_set)
  have "\<not> names_disjoint r1 r2" using c1 c2 assms(4) by (simp add: names_disjoint_def)
  then have "\<not> names_unique ?s'" using m1 m2 assms(5) unfolding names_unique_def by blast
  moreover have "gdb_get ?s' ?k1 = Some (Rec r1)" "gdb_get ?s' ?k2 = Some (Rec r2)"
    using assms(5) by (simp_all add: gdb_get_set)
  ultimately show ?thesis using run by blast
qed

lemma get_all_sweep_spec_map_of:
  "map_of (sweep_spec now s) k = map_option (swept_value now) (map_of s k)"
  by (induction s) (auto simp: sweep_spec_def)

lemma changed_map_of:
  assumes "dict_ok s'" "map_of s' k = Some v" "map_of s k \<noteq> Some v"
  shows "map_of (rev (changed s s')) k = Some v"
proof -
  have ok: "dict_ok (changed s s')" using assms(1) by (simp add: changed_def dict_ok_filter)
  have "(k, v) \<in> set (changed s s')"
    using assms by (auto simp: changed_def dest: map_of_SomeD)
  then show ?thesis using ok by (simp add: map_of_rev_dict dict_ok_map_of_in)
qed

text \<open>
  C24. The lost update: an "update" request that changes the record under key \<open>k\<close>
  and a sweep cycle that reclaims an expired lease of that record both read the store;
  the update writes first and answers \<^verbatim>\<open>Updated\<close>, then the sweeper writes back
  the record it read, swept, and the update is gone. Run one after the other in the
  same order, the sweep keeps the update.
\<close>

theorem lost_update:
  assumes "wf_store s" "no_blocking_stamps s" "gdb_get s k = Some (Rec r)" "swept now r \<noteq> r"
    and "modified_at r \<noteq> Some (Aware (clock e))"
    and "get_public_hash (parse_wallet e) (p_wallet p) = Some (k, sid)"
    and "fst (update_gdb_data_old_name e p s) = Inr (Updated u)"
  shows "\<exists>r3 s'. snd (update_gdb_data_old_name e p s) = gdb_set k (Rec r3) s \<and> swept now r3 \<noteq> swept now r
           \<and> conc_step\<^sup>*\<^sup>* (s, [Idle, Idle]) (s', [Idle, Idle]) \<and> gdb_get s' k = Some (Rec (swept now r))
           \<and> gdb_get (job_effect (SweepCycle now) (job_effect (Request e (Update p)) s)) k
                = Some (Rec (swept now r3))"
proof -
  have ok: "dict_ok s" using assms(1) by (simp add: wf_store_def)
  have "\<exists>r3. snd (update_gdb_data_old_name e p s) = gdb_set k (Rec r3) s \<and> modified_at r3 \<noteq> modified_at r"
    using assms(3,5,6,7)
    by (auto simp: update_gdb_data_old_name_def Let_def split: option.splits stored.splits sum.splits if_splits)
  then obtain r3 where s1: "snd (update_gdb_data_old_name e p s) = gdb_set k (Rec r3) s"
      and "modified_at r3 \<noteq> modified_at r"
    by blast
  then have ne: "swept now r3 \<noteq> swept now r" by (auto simp: swept_def dest: arg_cong [where f = modified_at])
  let ?j1 = "Request e (Update p)" and ?j2 = "SweepCycle now"
  have nb: "\<forall>(k, r) \<in> set (get_all_gdb_data s). \<forall>x \<in> set (registered_names r). \<not> blocks_sweep (snd x)"
    using assms(2) by (simp add: no_blocking_stamps_def)
  have sw: "job_effect ?j2 s = sweep_spec now s"
    using remove_expired_cycle_spec [OF assms(1) nb] by (simp add: job_effect_def)
  have okw: "dict_ok (sweep_spec now s)"
    using ok by (simp add: sweep_spec_def dict_ok_def dkeys_def case_prod_beta o_def)
  have "map_of (sweep_spec now s) k = Some (Rec (swept now r))"
    using assms(3) by (simp add: get_all_sweep_spec_map_of gdb_get_def)
  moreover have "map_of s k \<noteq> Some (Rec (swept now r))"
    using assms(3,4) by (simp add: gdb_get_def)
  ultimately have last: "map_of (rev (changed s (job_effect ?j2 s))) k = Some (Rec (swept now r))"
    using changed_map_of [OF okw] sw by simp
  let ?s' = "apply_writes (changed s (job_effect ?j2 s)) (apply_writes (changed s (job_effect ?j1 s)) s)"
  have run: "conc_step\<^sup>*\<^sup>* (s, [Idle, Idle]) (?s', [Idle, Idle])" by (rule race_run)
  have final: "gdb_get ?s' k = Some (Rec (swept now r))"
    using last by (simp add: gdb_get_def map_of_apply_writes)
  have wf1: "wf_store (gdb_set k (Rec r3) s)"
    using update_gdb_data_old_name_wf [OF assms(1), of e p] s1 by simp
  have nb1: "no_blocking_stamps (gdb_set k (Rec r3) s)"
    using update_no_blocking [OF assms(1,2), of e p] s1 by simp
  have "job_effect ?j2 (gdb_set k (Rec r3) s) = sweep_spec now (gdb_set k (Rec r3) s)"
    using remove_expired_cycle_spec [OF wf1] nb1 by (simp add: job_effect_def no_blocking_stamps_def)
  then have "gdb_get (job_effect ?j2 (job_effect ?j1 s)) k = Some (Rec (swept now r3))"
    using s1 by (simp add: job_effect_def get_all_sweep_spec_map_of gdb_get_def gdb_set_def update_conv')
  then show ?thesis using s1 ne run final by blast
qed

end
