(* ===== verification/Json.thy ===== *)
theory Json
  imports Prelude
begin

text \<open>
  Decoded JSON values, as \<^verbatim>\<open>json.loads\<close> returns them, with the Python operations
  the program applies to them: \<^verbatim>\<open>d.get(k)\<close> on an object, truthiness, and the
  operator \<^verbatim>\<open>x in v\<close> for a string \<open>x\<close>, which means substring, element or key
  membership according to the type of \<open>v\<close> and raises \<^verbatim>\<open>TypeError\<close> on
  \<^verbatim>\<open>None\<close>, numbers and booleans.
\<close>

datatype json = JNull | JBool bool | JNum int | JStr string | JArr "json list" | JObj "(string \<times> json) list"

text \<open>\<^verbatim>\<open>d.get(k)\<close> on a decoded object: with duplicate keys the last one counts, as
  \<^verbatim>\<open>json.loads\<close> keeps it.\<close>
definition jget :: "string \<Rightarrow> (string \<times> json) list \<Rightarrow> json option" where
  "jget k d = map_of (rev d) k"

text \<open>Python truthiness of a \<^verbatim>\<open>.get\<close> result (\<^verbatim>\<open>None\<close> when the key is absent).\<close>
fun truthy :: "json option \<Rightarrow> bool" where
  "truthy None = False"
| "truthy (Some JNull) = False"
| "truthy (Some (JBool b)) = b"
| "truthy (Some (JNum n)) = (n \<noteq> 0)"
| "truthy (Some (JStr s)) = (s \<noteq> [])"
| "truthy (Some (JArr xs)) = (xs \<noteq> [])"
| "truthy (Some (JObj d)) = (d \<noteq> [])"

text \<open>\<^verbatim>\<open>x in v\<close> for a string \<open>x\<close>; nothing when it raises.\<close>
fun py_in :: "string \<Rightarrow> json \<Rightarrow> bool option" where
  "py_in x (JStr t) = Some (contains x t)"
| "py_in x (JArr vs) = Some (JStr x \<in> set vs)"
| "py_in x (JObj d) = Some (x \<in> set (map fst d))"
| "py_in x JNull = None"
| "py_in x (JBool b) = None"
| "py_in x (JNum n) = None"

end
