(* ===== verification/Config.thy ===== *)
theory Config
  imports Json Address
begin

text \<open>
  The configuration file \<^verbatim>\<open>config.json\<close> as \<^verbatim>\<open>Config.load_config\<close> of
  \<^verbatim>\<open>src/backend/config.py\<close> (lines 19--26) reads it, and the two settings the program
  takes from it on every use: \<^verbatim>\<open>DISALLOWED_NAMES\<close>, tested by
  \<^verbatim>\<open>validate_json_data\<close> (\<^verbatim>\<open>utils.py\<close>, line 47), and \<^verbatim>\<open>NET_IDS\<close>, the networks of
  \<^verbatim>\<open>generate_wallet_addresses\<close> (\<^verbatim>\<open>utils.py\<close>, lines 114--120). The file is given
  by its state when it is read: absent, not JSON, unreadable for another reason
  (\<^verbatim>\<open>PermissionError\<close>, \<^verbatim>\<open>IsADirectoryError\<close>, which \<^verbatim>\<open>load_config\<close> does not
  catch), or a decoded JSON value. A raised exception is the value nothing.
\<close>

datatype config_file = NoConfigFile | ConfigInvalidJson | ConfigUnreadable | ConfigJson json

text \<open>\<^verbatim>\<open>load_config()\<close>: \<^verbatim>\<open>{}\<close> when the file is missing or not JSON.\<close>
fun load_config :: "config_file \<Rightarrow> json option" where
  "load_config NoConfigFile = Some (JObj [])"
| "load_config ConfigInvalidJson = Some (JObj [])"
| "load_config ConfigUnreadable = None"
| "load_config (ConfigJson j) = Some j"

text \<open>\<^verbatim>\<open>save_config(config_data)\<close> (lines 28--32): \<^verbatim>\<open>json.dump\<close> of a dictionary,
  which \<^verbatim>\<open>json.load\<close> reads back as the same object.\<close>
definition save_config :: "(string \<times> json) list \<Rightarrow> config_file" where
  "save_config d = ConfigJson (JObj d)"

text \<open>\<^verbatim>\<open>load_config().get(k, default)\<close>: \<^verbatim>\<open>.get\<close> raises
  \<^verbatim>\<open>AttributeError\<close> when the file holds JSON that is not an object.\<close>
definition config_get :: "config_file \<Rightarrow> string \<Rightarrow> json \<Rightarrow> json option" where
  "config_get cf k dflt =
     (case load_config cf of
       Some (JObj d) \<Rightarrow> Some (case jget k d of None \<Rightarrow> dflt | Some v \<Rightarrow> v)
     | _ \<Rightarrow> None)"

text \<open>\<^verbatim>\<open>name in c.load_config().get("DISALLOWED_NAMES")\<close>: the default is
  \<^verbatim>\<open>None\<close>, so a configuration without the key raises \<^verbatim>\<open>TypeError\<close>.\<close>
definition disallowed_check :: "config_file \<Rightarrow> string \<Rightarrow> bool option" where
  "disallowed_check cf n = Option.bind (config_get cf ''DISALLOWED_NAMES'' JNull) (py_in n)"

text \<open>One entry of \<^verbatim>\<open>NET_IDS\<close>: \<^verbatim>\<open>net['name']\<close> and \<^verbatim>\<open>net['id']\<close>. A missing
  key raises \<^verbatim>\<open>KeyError\<close> and an id that is not a string raises in
  \<^verbatim>\<open>int(x, 16)\<close>; names other than strings (which Python would accept as keys) are
  outside the model, whose address dictionaries have string keys.\<close>
fun net_entry :: "json \<Rightarrow> (string \<times> string) option" where
  "net_entry (JObj d) =
     (case (jget ''name'' d, jget ''id'' d) of
       (Some (JStr n), Some (JStr i)) \<Rightarrow> Some (n, i)
     | _ \<Rightarrow> None)"
| "net_entry _ = None"

text \<open>\<^verbatim>\<open>for net in c.load_config().get("NET_IDS", [])\<close>: a list gives its entries;
  an empty object or string iterates over nothing; the keys of a non-empty object and
  the characters of a non-empty string are strings, which \<^verbatim>\<open>net['name']\<close> cannot
  index; other values are not iterable.\<close>
fun nets_of :: "json \<Rightarrow> (string \<times> string) list option" where
  "nets_of (JArr xs) = those (map net_entry xs)"
| "nets_of (JObj d) = (if d = [] then Some [] else None)"
| "nets_of (JStr t) = (if t = [] then Some [] else None)"
| "nets_of _ = None"

definition config_nets :: "config_file \<Rightarrow> (string \<times> string) list option" where
  "config_nets cf = Option.bind (config_get cf ''NET_IDS'' (JArr [])) nets_of"

text \<open>\<^verbatim>\<open>generate_wallet_addresses\<close> with the networks of the configuration file it
  reads: the address generator the lookups use.\<close>
definition config_addr_gen :: "hash_fn \<Rightarrow> config_file \<Rightarrow> addr_gen" where
  "config_addr_gen sha3 cf sid ph =
     Option.bind (config_nets cf) (\<lambda>nets. generate_wallet_addresses sha3 nets sid ph)"

subsection \<open>Properties of the configuration\<close>

text \<open>Without a configuration file the address generator finds no network, so a
  lookup attaches an empty address dictionary.\<close>
lemma config_addr_gen_no_file: "config_addr_gen sha3 NoConfigFile sid ph = Some []"
  by (simp add: config_addr_gen_def config_nets_def config_get_def jget_def generate_wallet_addresses_def)

lemma load_save_config: "load_config (save_config d) = Some (JObj d)"
  by (simp add: save_config_def)

declare config_get_def [eval_simps] disallowed_check_def [eval_simps] config_nets_def [eval_simps]
  config_addr_gen_def [eval_simps]

end
