(* ===== verification/Validation.thy ===== *)
theory Validation
  imports Registry Config
begin

text \<open>
  Request validation and routing of the write path: \<^verbatim>\<open>Utils.validate_dna_name\<close> and
  \<^verbatim>\<open>Utils.validate_json_data\<close> (\<^verbatim>\<open>src/backend/utils.py\<close>, lines 20--56) and
  \<^verbatim>\<open>handle_post_request\<close> (\<^verbatim>\<open>src/backend/handlers.py\<close>, lines 33--57). The request
  body is a decoded JSON value (or nothing, when \<^verbatim>\<open>json.loads\<close> fails); the regular
  expression \<^verbatim>\<open>^[a-zA-Z0-9\.\_\-]+$\<close> is matched the way Python's \<^verbatim>\<open>re.match\<close>
  does, greedily with backtracking, \<^verbatim>\<open>$\<close> matching at the end or before a final
  newline. The configuration file, which validation reads for \<^verbatim>\<open>DISALLOWED_NAMES\<close>
  at every request, is an input (\<open>Config\<close>). The handlers read the typed fields of the same request
  as a \<open>payload\<close>; \<open>payload_agrees\<close> relates the two views.
\<close>

text \<open>The character class \<^verbatim>\<open>[a-zA-Z0-9\.\_\-]\<close>.\<close>
definition name_char :: "char \<Rightarrow> bool" where
  "name_char c =
     (let n = (of_char c :: nat) in
      (97 \<le> n \<and> n \<le> 122) \<or> (65 \<le> n \<and> n \<le> 90) \<or> (48 \<le> n \<and> n \<le> 57) \<or> n = 46 \<or> n = 95 \<or> n = 45)"

text \<open>\<^verbatim>\<open>$\<close> without \<^verbatim>\<open>re.MULTILINE\<close>: at the end of the string or before a
  newline that ends it.\<close>
fun dollar_at :: "string \<Rightarrow> bool" where
  "dollar_at [] = True"
| "dollar_at [c] = (c = CHR 0x0A)"
| "dollar_at (_ # _ # _) = False"

text \<open>The backtracking of \<^verbatim>\<open>[...]+\<close>: having consumed \<open>i\<close> characters, try \<^verbatim>\<open>$\<close>,
  and on failure give one character back, down to one.\<close>
fun backtrack :: "string \<Rightarrow> nat \<Rightarrow> bool" where
  "backtrack s 0 = False"
| "backtrack s (Suc i) = (dollar_at (drop (Suc i) s) \<or> backtrack s i)"

text \<open>\<^verbatim>\<open>re.match(r"^[a-zA-Z0-9\.\_\-]+$", name)\<close>: the greedy run of class characters,
  then backtracking.\<close>
definition re_match_name :: "string \<Rightarrow> bool" where
  "re_match_name s = backtrack s (length (takeWhile name_char s))"

text \<open>\<^verbatim>\<open>validate_dna_name(name)\<close>, lines 20--29.\<close>
definition validate_dna_name :: "string \<Rightarrow> bool" where
  "validate_dna_name n = (re_match_name n \<and> \<not> (length n < 3 \<or> 36 < length n))"

datatype verr = DecodeFailed | NoAction | MissingName | InvalidName string | DisallowedName string
  | MissingWallet | InvalidWallet string

text \<open>The outcome of \<^verbatim>\<open>validate_json_data\<close>: no error (it returns \<^verbatim>\<open>False\<close> or
  \<^verbatim>\<open>None\<close>), an error message, or an exception it does not catch (\<^verbatim>\<open>.get\<close> on a
  non-object, \<^verbatim>\<open>re.match\<close> on a non-string, \<^verbatim>\<open>in\<close> on a
  \<^verbatim>\<open>DISALLOWED_NAMES\<close> setting that is missing or not a container, an unreadable
  configuration file, the address parser on a non-string).\<close>
datatype vresult = Valid | Invalid verr | Raised

text \<open>\<^verbatim>\<open>validate_json_data(data)\<close>, lines 31--56.\<close>
definition validate_json_data :: "config_file \<Rightarrow> addr_parser \<Rightarrow> json option \<Rightarrow> vresult" where
  "validate_json_data cf parse body =
     (case body of
       None \<Rightarrow> Invalid DecodeFailed
     | Some (JObj d) \<Rightarrow>
         (let action = jget ''action'' d in
          if \<not> truthy action then Invalid NoAction
          else if action = Some (JStr ''add'') then
            (let name = jget ''name'' d; address = jget ''wallet'' d in
             if \<not> truthy name then Invalid MissingName
             else (case name of
                    Some (JStr n) \<Rightarrow>
                      if \<not> validate_dna_name n then Invalid (InvalidName n)
                      else (case disallowed_check cf n of
                             None \<Rightarrow> Raised
                           | Some True \<Rightarrow> Invalid (DisallowedName n)
                           | Some False \<Rightarrow>
                               if \<not> truthy address then Invalid MissingWallet
                               else (case address of
                                      Some (JStr a) \<Rightarrow> if parse a = None then Invalid (InvalidWallet a) else Valid
                                    | _ \<Rightarrow> Raised))
                  | _ \<Rightarrow> Raised))
          else Valid)
     | Some _ \<Rightarrow> Raised)"

text \<open>A string field of the request as the handlers read it.\<close>
fun str_field :: "json option \<Rightarrow> string option" where
  "str_field (Some (JStr s)) = Some s"
| "str_field _ = None"

definition payload_agrees :: "(string \<times> json) list \<Rightarrow> payload \<Rightarrow> bool" where
  "payload_agrees d p = (p_name p = str_field (jget ''name'' d) \<and> p_wallet p = str_field (jget ''wallet'' d))"

datatype post_reply = PostInvalid verr | NoActionGiven | InvalidAction | ProcessingError | Handled "error + outcome"

text \<open>\<^verbatim>\<open>handle_post_request(payload)\<close>, lines 33--57: validation, then the action
  switch; an exception anywhere is answered with "Error while processing action". The
  handlers take the request's typed fields \<open>p\<close>.\<close>
definition handle_post_request :: "config_file \<Rightarrow> env \<Rightarrow> json option \<Rightarrow> payload \<Rightarrow> store \<Rightarrow> post_reply \<times> store" where
  "handle_post_request cf e body p s =
     (case validate_json_data cf (parse_wallet e) body of
       Invalid err \<Rightarrow> (PostInvalid err, s)
     | Raised \<Rightarrow> (ProcessingError, s)
     | Valid \<Rightarrow>
         (case body of
           Some (JObj d) \<Rightarrow>
             (let action = jget ''action'' d in
              if \<not> truthy action then (NoActionGiven, s)
              else if action = Some (JStr ''add'') then (let (r, s') = dispatch e (Add p) s in (Handled r, s'))
              else if action = Some (JStr ''update'') then (let (r, s') = dispatch e (Update p) s in (Handled r, s'))
              else (InvalidAction, s))
         | _ \<Rightarrow> (ProcessingError, s)))"

subsection \<open>Properties of validation\<close>


lemma backtrack_iff: "backtrack s i \<longleftrightarrow> (\<exists>j. 1 \<le> j \<and> j \<le> i \<and> dollar_at (drop j s))"
proof (induction i)
  case (Suc i)
  then show ?case by (auto simp: le_Suc_eq)
qed simp

lemma dollar_at_iff: "dollar_at xs \<longleftrightarrow> xs = [] \<or> xs = [CHR 0x0A]"
  by (cases xs rule: dollar_at.cases) auto

lemma newline_not_name_char: "\<not> name_char (CHR 0x0A)"
  by (simp add: name_char_def)

text \<open>
  C25. The backtracking matcher of \<^verbatim>\<open>re.match(r"^[a-zA-Z0-9\.\_\-]+$", name)\<close>
  accepts exactly the non-empty strings of class characters, and those strings followed
  by one newline: Python's \<^verbatim>\<open>$\<close> also matches before a final newline.
\<close>

theorem re_match_name_iff:
  "re_match_name s \<longleftrightarrow> (\<exists>w. w \<noteq> [] \<and> list_all name_char w \<and> (s = w \<or> s = w @ [CHR 0x0A]))"
proof
  assume "re_match_name s"
  then obtain j where j: "1 \<le> j" "j \<le> length (takeWhile name_char s)" "drop j s = [] \<or> drop j s = [CHR 0x0A]"
    by (auto simp: re_match_name_def backtrack_iff dollar_at_iff)
  let ?t = "takeWhile name_char s"
  have "take j s = take j (?t @ dropWhile name_char s)" by (simp only: takeWhile_dropWhile_id)
  also have "\<dots> = take j ?t" using j(2) by (simp add: take_append del: takeWhile_dropWhile_id)
  finally have w: "take j s = take j ?t" .
  have "list_all name_char (take j s)"
    unfolding w list_all_iff by (auto dest: in_set_takeD set_takeWhileD)
  moreover have "take j s \<noteq> []"
    using j(1,2) length_takeWhile_le [of name_char s] by auto
  moreover have "s = take j s \<or> s = take j s @ [CHR 0x0A]"
    using j(3) by (metis append_Nil2 append_take_drop_id)
  ultimately show "\<exists>w. w \<noteq> [] \<and> list_all name_char w \<and> (s = w \<or> s = w @ [CHR 0x0A])" by blast
next
  assume "\<exists>w. w \<noteq> [] \<and> list_all name_char w \<and> (s = w \<or> s = w @ [CHR 0x0A])"
  then obtain w rest where w: "w \<noteq> []" "list_all name_char w" "s = w @ rest" "rest = [] \<or> rest = [CHR 0x0A]"
    by auto
  have "takeWhile name_char s = w"
    using w(2,3,4) newline_not_name_char by (auto simp: list_all_iff)
  then show "re_match_name s"
    using w unfolding re_match_name_def backtrack_iff dollar_at_iff
    by (intro exI [of _ "length w"]) (auto simp: Suc_le_eq)
qed

lemma validate_add_Valid:
  assumes "validate_json_data dl parse (Some (JObj d)) = Valid" "jget ''action'' d = Some (JStr ''add'')"
  shows "\<exists>n a. jget ''name'' d = Some (JStr n) \<and> validate_dna_name n \<and> disallowed_check dl n = Some False
           \<and> jget ''wallet'' d = Some (JStr a) \<and> parse a \<noteq> None"
  using assms
  by (auto simp: validate_json_data_def Let_def split: if_splits option.splits json.splits bool.splits)

lemma validate_dna_name_length: "validate_dna_name n \<Longrightarrow> 3 \<le> length n \<and> length n \<le> 36"
  by (simp add: validate_dna_name_def)

lemma handle_post_Handled:
  "handle_post_request dl e body p s = (Handled r, s') \<Longrightarrow>
   \<exists>d. body = Some (JObj d) \<and> validate_json_data dl (parse_wallet e) body = Valid \<and>
       ((jget ''action'' d = Some (JStr ''add'') \<and> dispatch e (Add p) s = (r, s'))
        \<or> (jget ''action'' d = Some (JStr ''update'') \<and> dispatch e (Update p) s = (r, s')))"
  by (auto simp: handle_post_request_def Let_def split: vresult.splits option.splits json.splits if_splits prod.splits)

lemma update_gdb_data_old_name_errors:
  "get_public_hash (parse_wallet e) (p_wallet p) \<noteq> None \<Longrightarrow>
   fst (update_gdb_data_old_name e p s) \<noteq> Inl NameMissing \<and> fst (update_gdb_data_old_name e p s) \<noteq> Inl WalletParseFailed"
  by (auto simp: update_gdb_data_old_name_def register_name_def Let_def
      split: option.splits stored.splits sum.splits if_splits)

text \<open>
  C26. An "add" request that passes validation and reaches \<^verbatim>\<open>write_gdb_data\<close>
  is never answered with a missing name or an unparsable wallet: validation checks both
  before the handler reads them.
\<close>

theorem validated_add_parses:
  assumes "handle_post_request dl e (Some (JObj d)) p s = (Handled r, s')"
    and "jget ''action'' d = Some (JStr ''add'')" "payload_agrees d p"
  shows "r \<noteq> Inl NameMissing \<and> r \<noteq> Inl WalletParseFailed"
proof -
  have v: "validate_json_data dl (parse_wallet e) (Some (JObj d)) = Valid"
    and w: "write_gdb_data e p s = (r, s')"
    using handle_post_Handled [OF assms(1)] assms(2) by auto
  obtain n a where n: "p_name p = Some n" "validate_dna_name n" and a: "p_wallet p = Some a" "parse_wallet e a \<noteq> None"
    using validate_add_Valid [OF v assms(2)] assms(3) by (auto simp: payload_agrees_def)
  have "payload_name p \<noteq> []"
    using n validate_dna_name_length [OF n(2)] by (auto simp: payload_name_def)
  moreover have "get_public_hash (parse_wallet e) (p_wallet p) \<noteq> None"
    using a by (auto simp: get_public_hash_def)
  ultimately show ?thesis
    using w update_gdb_data_old_name_errors [of e p s]
    by (auto simp: write_gdb_data_def Let_def split: option.splits stored.splits if_splits)
qed

text \<open>
  C27. When \<^verbatim>\<open>config.json\<close> is missing, is not JSON, cannot be read, or has no
  \<^verbatim>\<open>DISALLOWED_NAMES\<close> entry (\<^verbatim>\<open>load_config\<close> returns \<^verbatim>\<open>{}\<close> in the first two
  cases), every "add" request with a valid name raises inside validation
  (\<^verbatim>\<open>name in None\<close>, or the uncaught read error) and is answered "Error while
  processing action": no identity can be created.
\<close>

theorem add_without_disallowed_list_fails:
  assumes "jget ''action'' d = Some (JStr ''add'')" "jget ''name'' d = Some (JStr n)" "validate_dna_name n"
    and "cf = NoConfigFile \<or> cf = ConfigInvalidJson \<or> cf = ConfigUnreadable
         \<or> (\<exists>c. cf = ConfigJson (JObj c) \<and> jget ''DISALLOWED_NAMES'' c = None)"
  shows "handle_post_request cf e (Some (JObj d)) p s = (ProcessingError, s)"
proof -
  have "disallowed_check cf n = None"
    using assms(4) by (auto simp: disallowed_check_def config_get_def jget_def)
  moreover have "n \<noteq> []" using validate_dna_name_length [OF assms(3)] by auto
  ultimately show ?thesis using assms(1-3) by (simp add: handle_post_request_def validate_json_data_def)
qed

lemma register_fresh_name:
  assumes "payload_name p \<noteq> []" "payload_name p \<notin> set (dkeys (registered_names r))"
    and "\<not> is_name_taken (payload_name p) (get_all_gdb_data s) ph"
  shows "\<exists>r1. register_name e p s ph r = Inr r1 \<and> payload_name p \<in> set (dkeys (registered_names r1))"
  using assms by (simp add: register_name_def set_dkeys_map_of update_conv')

text \<open>
  C28. An "update" request is not validated at all: whatever the configuration, a name
  it carries that its owner does not hold and no other record leases is registered,
  whatever its length and characters and whether \<^verbatim>\<open>DISALLOWED_NAMES\<close> lists it; only
  "add" requests pass the name rule of \<^verbatim>\<open>validate_dna_name\<close>.
\<close>

theorem update_not_validated:
  assumes "jget ''action'' d = Some (JStr ''update'')"
    and "get_public_hash (parse_wallet e) (p_wallet p) = Some (ph, sid)" "gdb_get s ph = Some (Rec r)"
    and "\<not> guuid_given p" "payload_name p \<noteq> []" "payload_name p \<notin> set (dkeys (registered_names r))"
    and "\<not> is_name_taken (payload_name p) (get_all_gdb_data s) ph"
  shows "\<exists>r'. handle_post_request cf e (Some (JObj d)) p s
                = (Handled (Inr (Updated (r'\<lparr>public_hash := ph\<rparr>))), gdb_set ph (Rec r') s)
            \<and> payload_name p \<in> set (dkeys (registered_names r'))"
proof -
  obtain r1 where r1: "register_name e p s ph r = Inr r1" and n1: "payload_name p \<in> set (dkeys (registered_names r1))"
    using register_fresh_name [OF assms(5-7)] by blast
  let ?r2 = "merge_fields (clock e) p r1"
  have n2: "payload_name p \<in> set (dkeys (registered_names ?r2))" using n1 by (simp add: merge_fields_frame)
  then have "?r2 \<noteq> r" using assms(6) by auto
  then have "update_gdb_data_old_name e p s
      = (Inr (Updated (?r2\<lparr>modified_at := Some (Aware (clock e)), public_hash := ph\<rparr>)),
         gdb_set ph (Rec (?r2\<lparr>modified_at := Some (Aware (clock e))\<rparr>)) s)"
    using assms(2-4) r1 by (simp add: update_gdb_data_old_name_def Let_def)
  moreover have "handle_post_request cf e (Some (JObj d)) p s
      = (let (res, s') = dispatch e (Update p) s in (Handled res, s'))"
    using assms(1) by (simp add: handle_post_request_def validate_json_data_def)
  ultimately show ?thesis using n2 by (intro exI [of _ "?r2\<lparr>modified_at := Some (Aware (clock e))\<rparr>"]) simp
qed

text \<open>
  C29. \<^verbatim>\<open>DISALLOWED_NAMES\<close> is tested against the name as the request spells it,
  but the record stores it lower-cased: an "add" of a valid name that is not literally
  in the list creates an identity leasing \<open>lower n\<close>, also when \<open>lower n\<close> itself is
  listed ("Admin" against a list holding "admin").
\<close>

theorem disallowed_name_case_bypass:
  assumes "jget ''DISALLOWED_NAMES'' c = Some (JArr (map JStr L))" "n \<notin> set L" "validate_dna_name n"
    and "jget ''action'' d = Some (JStr ''add'')" "jget ''name'' d = Some (JStr n)"
    and "jget ''wallet'' d = Some (JStr w)" "w \<noteq> []" "payload_agrees d p"
    and "get_public_hash (parse_wallet e) (Some w) = Some (ph, sid)" "gdb_get s ph = None"
    and "\<not> is_name_taken (lower n) (get_all_gdb_data s) ph"
  shows "\<exists>r. handle_post_request (ConfigJson (JObj c)) e (Some (JObj d)) p s
               = (Handled (Inr (Created r)), gdb_set ph (Rec r) s)
           \<and> dkeys (registered_names r) = [lower n]"
proof -
  have n: "n \<noteq> []" using validate_dna_name_length [OF assms(3)] by auto
  have pw: "parse_wallet e w \<noteq> None" using assms(9) by (auto simp: get_public_hash_def split: option.splits)
  have dc: "disallowed_check (ConfigJson (JObj c)) n = Some False"
    using assms(1,2) by (auto simp: disallowed_check_def config_get_def)
  have v: "validate_json_data (ConfigJson (JObj c)) (parse_wallet e) (Some (JObj d)) = Valid"
    using assms(3-7) n pw dc by (simp add: validate_json_data_def)
  have p: "p_name p = Some n" "p_wallet p = Some w"
    using assms(5,6,8) by (simp_all add: payload_agrees_def)
  then have pn: "payload_name p = lower n" by (simp add: payload_name_def)
  show ?thesis
    using v assms(4,9-11) n p pn
    by (simp add: handle_post_request_def write_gdb_data_def Let_def new_identity_def)
qed

end
