(* ===== verification/Bot.thy ===== *)
theory Bot
  imports Validation Lookup
begin

text \<open>
  The Telegram verification bot \<^verbatim>\<open>src/cpunk.club/cpunkverifybot.py\<close>, a client of the
  registry over HTTP. A message is classified by \<^verbatim>\<open>universal_handler\<close> (lines
  28--65); "whoami?" queries the telegram lookup (\<^verbatim>\<open>process_whoami\<close>, lines 67--140);
  any other text is taken as a DNA nickname to verify (\<^verbatim>\<open>process_verification_attempt\<close>,
  lines 142--214), which looks the nickname up and, when the record's telegram profile is
  "<username>-unverified", posts an "update" request (\<^verbatim>\<open>update_verification_status\<close>,
  lines 216--251). Both requests go to \<^verbatim>\<open>https://api.dna.cpunk.club\<close>, a proxy
  (\<^verbatim>\<open>dna-proxy.php\<close>) that is not part of the repository. The GET lookups are
  taken as forwarded unchanged, so they are \<open>handle_lookup\<close> of the registry applied
  to the store; the POST is an explicit transport parameter \<open>api_post\<close> (the body, the
  typed fields the server would read from it, and the store, to the reply and the store
  left), and \<open>plugin_post\<close> is the transport that hands it to the registry's
  \<open>handle_post_request\<close> unchanged. A server answer has \<^verbatim>\<open>status_code\<close> 0 exactly when it carries a record or an
  \<^verbatim>\<open>OK\<close> result (\<^verbatim>\<open>response_helpers.send_json_response\<close>). Reply texts are
  abstracted to the values that distinguish them.
\<close>

datatype bot_msg = Whoami | VerifyAttempt string | Ignored

text \<open>\<^verbatim>\<open>universal_handler\<close> for a message with text \<open>t\<close> from a user with the
  (possibly absent) Telegram username \<open>u\<close>; \<^verbatim>\<open>is_command\<close> only holds for text that
  starts with \<^verbatim>\<open>/\<close>, which the first test already excludes.\<close>
definition classify :: "string option \<Rightarrow> string \<Rightarrow> bot_msg" where
  "classify u t =
     (if t = [] then Ignored
      else (let m = strip t in
            if lower m = ''whoami?'' then Whoami
            else if u \<noteq> None \<and> u \<noteq> Some [] \<and> take 1 m \<noteq> ''/'' then VerifyAttempt m
            else Ignored))"

text \<open>\<^verbatim>\<open>socials.telegram.profile\<close> of a record (\<^verbatim>\<open>""\<close> when absent).\<close>
definition telegram_of :: "identity \<Rightarrow> string" where
  "telegram_of r = dget (socials r) ''telegram'' []"

datatype whoami_reply = NoUsername | WhoamiNames string "string list" | NoNames | WhoamiNotFound | WhoamiError

text \<open>\<^verbatim>\<open>process_whoami\<close>: the by-telegram lookup of the username; the first registered
  name is the "primary DNA". A non-empty delegation list (the username
  "all_delegations") is not an object and reading it raises.\<close>
definition process_whoami :: "addr_parser \<Rightarrow> addr_gen \<Rightarrow> string option \<Rightarrow> store \<Rightarrow> whoami_reply" where
  "process_whoami parse gen u s =
     (case u of
       None \<Rightarrow> NoUsername
     | Some un \<Rightarrow>
         if un = [] then NoUsername
         else (case handle_lookup parse gen (QByTelegram un) s of
                LRecord r w \<Rightarrow> (case dkeys (registered_names r) of
                                 [] \<Rightarrow> NoNames
                               | n # ns \<Rightarrow> WhoamiNames n ns)
              | LDelegations ds \<Rightarrow> (if ds = [] then WhoamiNotFound else WhoamiError)
              | _ \<Rightarrow> WhoamiNotFound))"

text \<open>The request \<^verbatim>\<open>update_verification_status\<close> posts (lines 222--230): the action,
  the nickname and the telegram profile, and no wallet.\<close>
definition bot_update_body :: "string \<Rightarrow> string \<Rightarrow> json" where
  "bot_update_body un nick =
     JObj [(''action'', JStr ''update''), (''name'', JStr nick),
           (''socials'', JObj [(''telegram'', JObj [(''profile'', JStr un)])])]"

definition bot_update_payload :: "string \<Rightarrow> string \<Rightarrow> payload" where
  "bot_update_payload un nick = empty_payload\<lparr>p_name := Some nick, p_socials := Some [(''telegram'', Some un)]\<rparr>"

text \<open>\<^verbatim>\<open>update_verification_status\<close>: success when the server answers with
  \<^verbatim>\<open>status_code\<close> 0.\<close>
type_synonym api_post = "json \<Rightarrow> payload \<Rightarrow> store \<Rightarrow> post_reply \<times> store"

text \<open>The transport that delivers the body to the registry plugin as it is.\<close>
definition plugin_post :: "config_file \<Rightarrow> env \<Rightarrow> api_post" where
  "plugin_post cf e body p s = handle_post_request cf e (Some body) p s"

definition update_verification_status :: "api_post \<Rightarrow> string \<Rightarrow> string \<Rightarrow> store \<Rightarrow> bool \<times> store" where
  "update_verification_status post un nick s =
     (case post (bot_update_body un nick) (bot_update_payload un nick) s of
       (Handled (Inr _), s') \<Rightarrow> (True, s')
     | (_, s') \<Rightarrow> (False, s'))"

text \<open>\<^verbatim>\<open>str.endswith\<close>\<close>
definition ends_with :: "string \<Rightarrow> string \<Rightarrow> bool" where
  "ends_with x t = (length x \<le> length t \<and> drop (length t - length x) t = x)"

datatype verify_reply = NickNotFound | Verified | NotCompleted | NoPending | AlreadyVerified string
  | OtherPending string | VerifyError

text \<open>\<^verbatim>\<open>process_verification_attempt(message, dna_nickname)\<close> for user \<open>un\<close>. A
  lookup answer without \<^verbatim>\<open>status_code\<close> 0 or without data is "not found"; the
  delegation list the nickname "all_delegations" returns is not an object, and reading
  its socials raises.\<close>
definition process_verification :: "api_post \<Rightarrow> env \<Rightarrow> addr_gen \<Rightarrow> string \<Rightarrow> string \<Rightarrow> store \<Rightarrow> verify_reply \<times> store" where
  "process_verification post e gen un nick s =
     (case handle_lookup (parse_wallet e) gen (QLookup nick) s of
       LRecord r w \<Rightarrow>
         (let th = telegram_of r in
          if lower th = lower (un @ ''-unverified'') then
            (case update_verification_status post un nick s of
              (True, s') \<Rightarrow> (Verified, s')
            | (False, s') \<Rightarrow> (NotCompleted, s'))
          else if th = [] then (NoPending, s)
          else if \<not> ends_with ''-unverified'' th then (AlreadyVerified th, s)
          else (OtherPending th, s))
     | LDelegations ds \<Rightarrow> (if ds = [] then (NickNotFound, s) else (VerifyError, s))
     | _ \<Rightarrow> (NickNotFound, s))"

text \<open>A Telegram update as the handlers see it: a direct message or a channel post
  with its (possibly absent) text and the username of its sender, or any other update.\<close>
record tg_message =
  m_text :: "string option"
  m_user :: "string option"

datatype tg_update = TgMessage tg_message | TgChannelPost tg_message | TgOther

text \<open>The command a \<^verbatim>\<open>CommandHandler\<close> sees in a message: the text after a leading
  \<^verbatim>\<open>/\<close> up to a blank or \<^verbatim>\<open>@\<close>, lower-cased. The library only does this for
  messages, not channel posts, and the \<^verbatim>\<open>@botname\<close> suffix is not checked here.\<close>
definition tg_command :: "string \<Rightarrow> string option" where
  "tg_command t =
     (case t of
       c # rest \<Rightarrow> (if c = CHR ''/'' then Some (lower (takeWhile (\<lambda>x. x \<noteq> CHR '' '' \<and> x \<noteq> CHR ''@'') rest))
                    else None)
     | [] \<Rightarrow> None)"

datatype bot_reply = StartText | HelpText | VerifyHelpText | WhoamiAnswer whoami_reply
  | VerifyAnswer verify_reply | NoVerifyUsername | NoReply

text \<open>\<^verbatim>\<open>universal_handler\<close> (lines 28--61) on a message or channel post. A
  verification attempt needs a username, so \<^verbatim>\<open>process_verification_attempt\<close>
  always has one.\<close>
definition universal_handler :: "api_post \<Rightarrow> env \<Rightarrow> addr_gen \<Rightarrow> tg_message \<Rightarrow> store \<Rightarrow> bot_reply \<times> store" where
  "universal_handler post e gen m s =
     (case m_text m of
       None \<Rightarrow> (NoReply, s)
     | Some t \<Rightarrow>
         (case classify (m_user m) t of
           Whoami \<Rightarrow> (WhoamiAnswer (process_whoami (parse_wallet e) gen (m_user m) s), s)
         | VerifyAttempt nick \<Rightarrow>
             (case m_user m of
               None \<Rightarrow> (NoVerifyUsername, s)
             | Some un \<Rightarrow> (let (r, s') = process_verification post e gen un nick s in (VerifyAnswer r, s')))
         | Ignored \<Rightarrow> (NoReply, s)))"

text \<open>\<^verbatim>\<open>main\<close> (lines 301--317): the handlers in the order they are added, the first
  that accepts the update handling it; the command handlers \<^verbatim>\<open>start\<close>,
  \<^verbatim>\<open>help_command\<close>, \<^verbatim>\<open>whoami_command\<close> and \<^verbatim>\<open>verify_command\<close> (lines
  254--299) answer messages only.\<close>
definition bot_handle :: "api_post \<Rightarrow> env \<Rightarrow> addr_gen \<Rightarrow> tg_update \<Rightarrow> store \<Rightarrow> bot_reply \<times> store" where
  "bot_handle post e gen u s =
     (case u of
       TgMessage m \<Rightarrow>
         (case Option.bind (m_text m) tg_command of
           Some c \<Rightarrow>
             (if c = ''start'' then (StartText, s)
              else if c = ''help'' then (HelpText, s)
              else if c = ''whoami'' then (WhoamiAnswer (process_whoami (parse_wallet e) gen (m_user m) s), s)
              else if c = ''verify'' then (VerifyHelpText, s)
              else universal_handler post e gen m s)
         | None \<Rightarrow> universal_handler post e gen m s)
     | TgChannelPost m \<Rightarrow> universal_handler post e gen m s
     | TgOther \<Rightarrow> (NoReply, s))"

subsection \<open>Properties of the bot\<close>


lemma update_without_wallet:
  assumes "jget ''action'' d = Some (JStr ''update'')" "p_wallet p = None"
  shows "handle_post_request cf e (Some (JObj d)) p s = (Handled (Inl WalletParseFailed), s)"
  using assms by (simp add: handle_post_request_def validate_json_data_def update_gdb_data_old_name_def get_public_hash_def)

text \<open>
  C30. An "update" request whose body has no wallet field is rejected with "Failed to
  parse wallet address!" and leaves the store unchanged, whatever else it carries. The
  request \<^verbatim>\<open>update_verification_status\<close> builds is one: it sends the nickname and the
  telegram profile and no wallet, so, delivered to the registry as it is, it can never
  record a verification. (Whether \<^verbatim>\<open>dna-proxy.php\<close>, which the bot actually posts
  to, adds a wallet is outside the repository.)
\<close>

theorem update_without_wallet_rejected:
  assumes "jget ''action'' d = Some (JStr ''update'')" "jget ''wallet'' d = None" "payload_agrees d p"
  shows "handle_post_request cf e (Some (JObj d)) p s = (Handled (Inl WalletParseFailed), s)"
proof -
  have "p_wallet p = None" using assms(2,3) by (simp add: payload_agrees_def)
  with assms(1) show ?thesis by (rule update_without_wallet)
qed

lemma update_verification_status_fails:
  "update_verification_status (plugin_post cf e) un nick s = (False, s)"
  using update_without_wallet [of "[(''action'', JStr ''update''), (''name'', JStr nick),
      (''socials'', JObj [(''telegram'', JObj [(''profile'', JStr un)])])]" "bot_update_payload un nick" cf e s]
  by (simp add: update_verification_status_def plugin_post_def bot_update_body_def bot_update_payload_def
      empty_payload_def jget_def)

lemma process_verification_unchanged:
  "fst (process_verification (plugin_post cf e) e gen un nick s) \<noteq> Verified
   \<and> snd (process_verification (plugin_post cf e) e gen un nick s) = s"
  by (auto simp: process_verification_def update_verification_status_fails Let_def
      split: lresult.split)

text \<open>With the plugin as the POST endpoint, whatever the bot receives, a Telegram
  verification never completes and the store is never changed.\<close>
lemma bot_store_unchanged:
  "fst (bot_handle (plugin_post cf e) e gen u s) \<noteq> VerifyAnswer Verified
   \<and> snd (bot_handle (plugin_post cf e) e gen u s) = s"
proof -
  have "fst (universal_handler (plugin_post cf e) e gen m s) \<noteq> VerifyAnswer Verified
        \<and> snd (universal_handler (plugin_post cf e) e gen m s) = s" for m
    using process_verification_unchanged [of cf e gen _ _ s]
    by (auto simp: universal_handler_def case_prod_beta split: option.split bot_msg.split)
  then show ?thesis by (auto simp: bot_handle_def split: tg_update.split option.split)
qed

lemma by_telegram_first:
  "by_telegram gen q rs = LRecord r' w \<Longrightarrow>
   \<exists>pre k r post. rs = pre @ (k, r) # post \<and> r' = strip_guuid r
     \<and> telegram_of r \<noteq> [] \<and> lower (telegram_of r) = lower q
     \<and> (\<forall>(k0, r0) \<in> set pre. \<not> (telegram_of r0 \<noteq> [] \<and> lower (telegram_of r0) = lower q))"
proof (induction rs)
  case (Cons x rs)
  obtain k r where x: "x = (k, r)" by fastforce
  show ?case
  proof (cases "lower (telegram_of r) \<noteq> [] \<and> lower (telegram_of r) = lower q")
    case True
    then have "q \<noteq> []" by (metis lower_Nil)
    then have "r' = strip_guuid r" using True Cons.prems x by (auto simp: telegram_of_def split: option.splits)
    then show ?thesis using True x
      by (intro exI [of _ "[]"] exI [of _ k] exI [of _ r] exI [of _ rs]) simp
  next
    case False
    then have "by_telegram gen q rs = LRecord r' w" using Cons.prems x by (auto simp: telegram_of_def split: if_splits)
    then obtain pre k1 r1 post where "rs = pre @ (k1, r1) # post" "r' = strip_guuid r1"
      "telegram_of r1 \<noteq> [] \<and> lower (telegram_of r1) = lower q"
      "\<forall>(k0, r0) \<in> set pre. \<not> (telegram_of r0 \<noteq> [] \<and> lower (telegram_of r0) = lower q)"
      using Cons.IH by blast
    then show ?thesis using False x
      by (intro exI [of _ "(k, r) # pre"]) auto
  qed
qed simp

lemma registered_names_strip_guuid [simp]: "registered_names (strip_guuid r) = registered_names r"
  by (simp add: strip_guuid_def split: option.split)

text \<open>
  C31. "whoami?" reports the names of the first record, in store order, whose telegram
  profile equals the user's name up to letter case; telegram profiles are not unique, so
  any record that sets the same profile earlier in the store is reported instead.
\<close>

theorem whoami_first_match:
  assumes "process_whoami parse gen (Some un) s = WhoamiNames n ns"
  shows "\<exists>pre k r post. get_all_gdb_data s = pre @ (k, r) # post
           \<and> telegram_of r \<noteq> [] \<and> lower (telegram_of r) = lower un
           \<and> (\<forall>(k0, r0) \<in> set pre. \<not> (telegram_of r0 \<noteq> [] \<and> lower (telegram_of r0) = lower un))
           \<and> dkeys (registered_names r) = n # ns"
proof -
  obtain r' w where l: "handle_lookup parse gen (QByTelegram un) s = LRecord r' w" and
    nm: "dkeys (registered_names r') = n # ns"
    using assms by (auto simp: process_whoami_def split: if_splits lresult.splits list.splits)
  have "by_telegram gen un (get_all_gdb_data s) = LRecord r' w"
    using l by (auto simp: gdb_lookup_def Let_def split: if_splits)
  then obtain pre k r post where "get_all_gdb_data s = pre @ (k, r) # post" "r' = strip_guuid r"
      "telegram_of r \<noteq> [] \<and> lower (telegram_of r) = lower un"
      "\<forall>(k0, r0) \<in> set pre. \<not> (telegram_of r0 \<noteq> [] \<and> lower (telegram_of r0) = lower un)"
    by (blast dest: by_telegram_first)
  then show ?thesis using nm by auto
qed

end
