(* ===== verification/Server.thy ===== *)
theory Server
  imports Validation Lookup
begin

text \<open>
  The HTTP entry point of the plugin, \<^verbatim>\<open>request_handler\<close> of
  \<^verbatim>\<open>src/backend/handlers.py\<close> (lines 11--31), with \<^verbatim>\<open>handle_get_request\<close>
  (lines 59--89) and the ledger query \<^verbatim>\<open>Utils.is_tx_accepted\<close> of
  \<^verbatim>\<open>src/backend/utils.py\<close> (lines 79--96). The node's services are parameters of a
  server configuration: the configuration file, SHA3-256, UTF-8 decoding of the body,
  \<^verbatim>\<open>json.loads\<close>, and the ledger
  (network name and transaction hash to the transaction's \<^verbatim>\<open>accepted\<close> flag or the
  exception raised on the way). A request carries its method, its body bytes, the
  query as \<^verbatim>\<open>parse_qs\<close> returns it, and the typed fields the handlers read from
  the decoded body.
\<close>

text \<open>What \<^verbatim>\<open>CFNet(net).get_ledger().tx_by_hash(tx_hash).accepted\<close> gives: the flag,
  a \<^verbatim>\<open>ValueError\<close> (no such transaction) or any other exception.\<close>
datatype tx_lookup = LedgerTx bool | LedgerValueError | LedgerFailure

type_synonym ledger = "string \<Rightarrow> string \<Rightarrow> tx_lookup"

datatype tx_reply = TxOk | TxNotAccepted | TxNotFound | TxExploded

text \<open>\<^verbatim>\<open>is_tx_accepted(tx_hash, net=None)\<close>: the network defaults to "Backbone".\<close>
definition is_tx_accepted :: "ledger \<Rightarrow> string \<Rightarrow> string option \<Rightarrow> tx_reply" where
  "is_tx_accepted ledger tx net =
     (case ledger (case net of None \<Rightarrow> ''Backbone'' | Some n \<Rightarrow> n) tx of
       LedgerTx acc \<Rightarrow> (if acc then TxOk else TxNotAccepted)
     | LedgerValueError \<Rightarrow> TxNotFound
     | LedgerFailure \<Rightarrow> TxExploded)"

text \<open>\<^verbatim>\<open>{k: v[0] for k, v in parse_qs(query).items()}\<close>; an empty value list (which
  \<^verbatim>\<open>parse_qs\<close> does not produce) would raise \<^verbatim>\<open>IndexError\<close>.\<close>
definition query_params :: "(string \<times> string list) list \<Rightarrow> (string, string) dict option" where
  "query_params raw = (if \<exists>(k, vs) \<in> set raw. vs = [] then None else Some (map (\<lambda>(k, vs). (k, hd vs)) raw))"

datatype get_reply = GetTx tx_reply | GetLookup query lresult | MissingParam | GetFailed

text \<open>The lookup parameters of \<^verbatim>\<open>handle_get_request\<close> (lines 70--83), in the order
  it tests them.\<close>
definition lookup_query :: "(string \<Rightarrow> string option) \<Rightarrow> query option" where
  "lookup_query get =
     (case get ''lookup'' of Some q \<Rightarrow> Some (QLookup q) | None \<Rightarrow>
      case get ''lookup2'' of Some q \<Rightarrow> Some (QLookup2 q) | None \<Rightarrow>
      case get ''by_telegram'' of Some q \<Rightarrow> Some (QByTelegram q) | None \<Rightarrow>
      case get ''by_order'' of Some q \<Rightarrow> Some (QByOrder q) | None \<Rightarrow>
      case get ''all_delegations'' of Some _ \<Rightarrow> Some QAllDelegations | None \<Rightarrow> None)"

text \<open>\<^verbatim>\<open>handle_get_request(query)\<close>: the first parameter present, in the order of the
  source, selects the answer; a key given twice keeps its last value.\<close>
definition handle_get_request :: "addr_parser \<Rightarrow> addr_gen \<Rightarrow> ledger \<Rightarrow> (string \<times> string list) list \<Rightarrow> store \<Rightarrow> get_reply" where
  "handle_get_request parse gen ledger raw s =
     (case query_params raw of
       None \<Rightarrow> GetFailed
     | Some qp \<Rightarrow>
         (let get = map_of (rev qp) in
          case get ''tx_validate'' of
            Some tx \<Rightarrow> GetTx (is_tx_accepted ledger tx (get ''network''))
          | None \<Rightarrow>
              (case lookup_query get of
                Some qry \<Rightarrow> GetLookup qry (handle_lookup parse gen qry s)
              | None \<Rightarrow> MissingParam)))"

datatype http_method = GET | POST | OtherMethod string

record request =
  rq_method :: http_method
  rq_body :: "byte list"
  rq_query :: "(string \<times> string list) list"
  rq_payload :: payload

record server_cfg =
  sv_config :: config_file
  sv_env :: env
  sv_sha3 :: hash_fn
  sv_ledger :: ledger
  sv_utf8 :: "byte list \<Rightarrow> string option"
  sv_loads :: "string \<Rightarrow> json option"

text \<open>\<open>RUnboundPayload\<close> is the \<^verbatim>\<open>UnboundLocalError\<close> a POST without body raises:
  \<^verbatim>\<open>payload\<close> is only assigned when the body is non-empty, and no handler catches the
  exception.\<close>
datatype http_reply = RPost post_reply | RGet get_reply | RInvalidJson | RInvalidMethod | RUnboundPayload

text \<open>\<^verbatim>\<open>request_handler(request)\<close>: the body is decoded (when non-empty) before the
  method is looked at.\<close>
definition request_handler :: "server_cfg \<Rightarrow> request \<Rightarrow> store \<Rightarrow> http_reply \<times> store" where
  "request_handler cfg rq s =
     (case (if rq_body rq = [] then Some None else map_option Some (sv_utf8 cfg (rq_body rq))) of
       None \<Rightarrow> (RInvalidJson, s)
     | Some payload \<Rightarrow>
         (case rq_method rq of
           POST \<Rightarrow>
             (case payload of
               None \<Rightarrow> (RUnboundPayload, s)
             | Some t \<Rightarrow>
                 (let (r, s') = handle_post_request (sv_config cfg) (sv_env cfg) (sv_loads cfg t)
                                  (rq_payload rq) s
                  in (RPost r, s')))
         | GET \<Rightarrow> (RGet (handle_get_request (parse_wallet (sv_env cfg))
                          (config_addr_gen (sv_sha3 cfg) (sv_config cfg)) (sv_ledger cfg) (rq_query rq) s), s)
         | OtherMethod _ \<Rightarrow> (RInvalidMethod, s)))"

subsection \<open>The store effect of a request\<close>

lemma handle_post_request_store:
  "snd (handle_post_request dl e body p s) \<in> {s, snd (dispatch e (Add p) s), snd (dispatch e (Update p) s)}"
  by (auto simp: handle_post_request_def Let_def split: vresult.splits option.splits json.splits prod.splits)

text \<open>A request changes the store only through the "add" or "update" handler, applied to
  the request's own fields.\<close>
lemma request_handler_store:
  "snd (request_handler cfg rq s) \<in>
     {s, snd (dispatch (sv_env cfg) (Add (rq_payload rq)) s), snd (dispatch (sv_env cfg) (Update (rq_payload rq)) s)}"
  using handle_post_request_store [of "sv_config cfg" "sv_env cfg" _ "rq_payload rq" s]
  by (auto simp: request_handler_def case_prod_beta split: option.splits http_method.splits)

end
