(* ===== verification/Response.thy ===== *)
theory Response
  imports Server
begin

text \<open>
  The responses of the server: \<^verbatim>\<open>send_json_response\<close> of
  \<^verbatim>\<open>src/backend/response_helpers.py\<close> (lines 7--19) builds the JSON object
  \<^verbatim>\<open>{"status_code": c}\<close> and adds \<^verbatim>\<open>response_data\<close>, \<^verbatim>\<open>message\<close> and
  \<^verbatim>\<open>description\<close> when they are truthy, in that order. Every answer of the model
  (lookup results, results of the write path, validation errors, ledger answers and the
  answers of the two request handlers) is rendered here by the call the source makes for
  it, with the source's texts. Records are rendered as the dictionaries the source
  stores and returns; the text of a stored timestamp, which the model keeps abstract,
  is a parameter (\<open>stamp_fmt\<close>), and a missing timestamp is a missing key.
\<close>

subsection \<open>\<^verbatim>\<open>send_json_response\<close>\<close>

text \<open>A key with its value when the value is truthy (\<^verbatim>\<open>if response_data:\<close>).\<close>
fun field_if :: "string \<Rightarrow> json option \<Rightarrow> (string \<times> json) list" where
  "field_if k None = []"
| "field_if k (Some v) = (if truthy (Some v) then [(k, v)] else [])"

definition send_json_response :: "string option \<Rightarrow> string option \<Rightarrow> int \<Rightarrow> json option \<Rightarrow> json" where
  "send_json_response message desc status_code response_data =
     JObj ([(''status_code'', JNum status_code)] @ field_if ''response_data'' response_data
           @ field_if ''message'' (map_option JStr message) @ field_if ''description'' (map_option JStr desc))"

text \<open>\<^verbatim>\<open>send_json_response("NOK", desc, -1)\<close>, the error answer of every handler.\<close>
definition nok :: "string \<Rightarrow> json" where
  "nok desc = send_json_response (Some ''NOK'') (Some desc) (-1) None"

subsection \<open>Records as JSON\<close>

type_synonym stamp_fmt = "stamp \<Rightarrow> json"

definition jobj_json :: "jobj \<Rightarrow> json" where
  "jobj_json d = JObj (map (\<lambda>(k, v). (k, JStr v)) d)"

text \<open>A stamp key, absent when the stored record has none.\<close>
fun stamp_field :: "stamp_fmt \<Rightarrow> string \<Rightarrow> stamp \<Rightarrow> (string \<times> json) list" where
  "stamp_field sf k Missing = []"
| "stamp_field sf k t = [(k, sf t)]"

definition entry_json :: "stamp_fmt \<Rightarrow> name_entry \<Rightarrow> json" where
  "entry_json sf ent =
     JObj (stamp_field sf ''created_at'' (created_at ent) @ stamp_field sf ''expires_on'' (expires_on ent)
           @ [(''tx_hash'', case tx_hash ent of None \<Rightarrow> JNull | Some tx \<Rightarrow> JStr tx)])"

text \<open>The dictionary \<^verbatim>\<open>data_to_write\<close> of \<^verbatim>\<open>write_gdb_data\<close> (\<^verbatim>\<open>gdb_ops.py\<close>, lines
  71--102), with \<^verbatim>\<open>modified_at\<close> at the end once an update has set it.\<close>
definition identity_fields :: "stamp_fmt \<Rightarrow> identity \<Rightarrow> (string \<times> json) list" where
  "identity_fields sf r =
     [(''public_hash'', JStr (public_hash r))]
     @ (case guuid r of None \<Rightarrow> [] | Some g \<Rightarrow> [(''guuid'', JStr g)])
     @ [(''sign_id'', JNum (sign_id r)),
        (''registered_names'', JObj (map (\<lambda>(n, ent). (n, entry_json sf ent)) (registered_names r))),
        (''socials'', JObj (map (\<lambda>(pl, pr). (pl, JObj [(''profile'', JStr pr)])) (socials r))),
        (''bio'', JStr (bio r)),
        (''dinosaur_wallets'', JObj (map (\<lambda>(nw, a). (nw, JStr a)) (dinosaur_wallets r))),
        (''nft_images'', JArr (map JStr (nft_images r))),
        (''profile_picture'', JStr (profile_picture r)),
        (''delegations'', JArr (map jobj_json (delegations r))),
        (''messages'', JArr (map jobj_json (messages r)))]
     @ (case modified_at r of None \<Rightarrow> [] | Some t \<Rightarrow> [(''modified_at'', sf t)])"

text \<open>A looked-up record: \<^verbatim>\<open>parsed_data["wallet_addresses"] = ...\<close> adds the key at
  the end.\<close>
definition record_json :: "stamp_fmt \<Rightarrow> identity \<Rightarrow> (string, string) dict \<Rightarrow> json" where
  "record_json sf r w = JObj (identity_fields sf r @ [(''wallet_addresses'', JObj (map (\<lambda>(nw, a). (nw, JStr a)) w))])"

text \<open>An enriched delegation (lines 219--222): the copied object with three keys set;
  a key the delegation already has keeps its place.\<close>
definition enriched_json :: "stamp_fmt \<Rightarrow> enriched \<Rightarrow> json" where
  "enriched_json sf d =
     JObj (AList.update ''registered_names'' (JObj (map (\<lambda>(n, ent). (n, entry_json sf ent)) (d_names d)))
            (AList.update ''sign_id'' (JNum (d_sign_id d))
              (AList.update ''public_hash'' (JStr (d_public_hash d))
                (map (\<lambda>(k, v). (k, JStr v)) (d_object d)))))"

subsection \<open>The answers of each component\<close>

fun query_text :: "query \<Rightarrow> string" where
  "query_text (QLookup q) = q"
| "query_text (QLookup2 q) = q"
| "query_text (QByTelegram q) = q"
| "query_text (QByOrder q) = q"
| "query_text QAllDelegations = ''all_delegations''"

text \<open>The answers of \<^verbatim>\<open>gdb_lookup\<close> (lines 226--297); the text of a miss depends on
  the branch that missed.\<close>
definition render_lookup :: "addr_parser \<Rightarrow> stamp_fmt \<Rightarrow> query \<Rightarrow> lresult \<Rightarrow> json" where
  "render_lookup parse sf qry res =
     (let q = query_text qry in
      case res of
        LRecord r w \<Rightarrow> send_json_response None None 0 (Some (record_json sf r w))
      | LNames ns \<Rightarrow> send_json_response None None 0 (Some (JArr (map JStr ns)))
      | LDelegations ds \<Rightarrow> send_json_response None None 0 (Some (JArr (map (enriched_json sf) ds)))
      | LNotFound _ \<Rightarrow>
          (case qry of
            QByTelegram _ \<Rightarrow> nok (''Telegram username '' @ q @ '' not found'')
          | QByOrder _ \<Rightarrow> nok (''Order hash '' @ q @ '' not found'')
          | _ \<Rightarrow> (if parse q = None then nok (''Name or GUUID '' @ [CHR 0x27] @ q @ [CHR 0x27] @ '' not found'')
                  else nok (''No wallet address found for '' @ q)))
      | LParseFailed \<Rightarrow> nok ''Failed to parse wallet address!''
      | LError \<Rightarrow> nok (''Error fetching data for '' @ q))"

text \<open>The answers of the write path (\<^verbatim>\<open>gdb_ops.py\<close>, lines 51--207).\<close>
fun render_error :: "error \<Rightarrow> json" where
  "render_error NameMissing = nok ''Name is missing from data!''"
| "render_error WalletParseFailed = nok ''Failed to parse wallet address!''"
| "render_error (AlreadyRegistered n) = nok (''You have already registered '' @ n @ '', use update method!'')"
| "render_error (NameTaken n) = nok (''Name '' @ [CHR 0x27] @ n @ [CHR 0x27] @ '' is already taken!'')"
| "render_error (NoExistingData ph) = nok (''No existing data found for '' @ ph)"
| "render_error GuuidImmutable = nok ''Changing GUUID is not possible!''"
| "render_error WriteFailed = nok ''Failed to write data to GlobalDB''"
| "render_error UpdateFailed = nok ''Failed to update GlobalDB''"

fun render_outcome :: "stamp_fmt \<Rightarrow> outcome \<Rightarrow> json" where
  "render_outcome sf (Created r) =
     send_json_response (Some ''OK'') (Some ''Data was written to GlobalDB!'') 0 (Some (JObj (identity_fields sf r)))"
| "render_outcome sf (Updated r) =
     send_json_response (Some ''OK'') (Some (''Updated '' @ public_hash r @ '' in GlobalDB'')) 0
       (Some (JObj (identity_fields sf r)))"
| "render_outcome sf (NoChanges r) =
     send_json_response (Some ''OK'') (Some ''No changes detected, data was not updated.'') 0
       (Some (JObj (identity_fields sf r)))"

text \<open>The messages of \<^verbatim>\<open>validate_json_data\<close> (\<^verbatim>\<open>utils.py\<close>, lines 31--56).\<close>
fun verr_text :: "verr \<Rightarrow> string" where
  "verr_text DecodeFailed = ''Failed to decode JSON data!''"
| "verr_text NoAction = ''Action is not provided!''"
| "verr_text MissingName = ''Missing DNA name!''"
| "verr_text (InvalidName n) = ''Invalid DNA name: '' @ n @ ''. DNA name must be between 3 and 36 characters long and contain only alphanumeric characters, hyphens, dots or underscores.''"
| "verr_text (DisallowedName n) = ''Invalid DNA name : '' @ n @ ''. Name is on disallowed list.''"
| "verr_text MissingWallet = ''Missing wallet address!''"
| "verr_text (InvalidWallet a) = ''Invalid wallet address: '' @ a"

text \<open>\<^verbatim>\<open>handle_post_request\<close> (\<^verbatim>\<open>handlers.py\<close>, lines 33--57).\<close>
fun render_post :: "stamp_fmt \<Rightarrow> post_reply \<Rightarrow> json" where
  "render_post sf (PostInvalid e) = nok (verr_text e)"
| "render_post sf NoActionGiven = nok ''Action not provided''"
| "render_post sf InvalidAction = nok ''Invalid action''"
| "render_post sf ProcessingError = nok ''Error while processing action''"
| "render_post sf (Handled (Inl e)) = render_error e"
| "render_post sf (Handled (Inr oc)) = render_outcome sf oc"

text \<open>\<^verbatim>\<open>is_tx_accepted\<close> (\<^verbatim>\<open>utils.py\<close>, lines 87--96).\<close>
fun render_tx :: "tx_reply \<Rightarrow> json" where
  "render_tx TxOk = send_json_response (Some ''OK'') None 0 None"
| "render_tx TxNotAccepted = nok ''Transaction not accepted!''"
| "render_tx TxNotFound = nok ''Transaction not found!''"
| "render_tx TxExploded = nok ''System exploded!''"

fun render_get :: "addr_parser \<Rightarrow> stamp_fmt \<Rightarrow> get_reply \<Rightarrow> json" where
  "render_get parse sf (GetTx t) = render_tx t"
| "render_get parse sf (GetLookup qry res) = render_lookup parse sf qry res"
| "render_get parse sf MissingParam = nok ''Missing or invalid query parameter!''"
| "render_get parse sf GetFailed = nok ''Failed to process request!''"

text \<open>The body of the HTTP answer of \<^verbatim>\<open>request_handler\<close>; none when the handler
  raises.\<close>
fun render_http :: "addr_parser \<Rightarrow> stamp_fmt \<Rightarrow> http_reply \<Rightarrow> json option" where
  "render_http parse sf (RPost p) = Some (render_post sf p)"
| "render_http parse sf (RGet g) = Some (render_get parse sf g)"
| "render_http parse sf RInvalidJson = Some (nok ''Invalid JSON data!'')"
| "render_http parse sf RInvalidMethod = Some (nok ''Invalid request method!'')"
| "render_http parse sf RUnboundPayload = None"

subsection \<open>The response contract\<close>

text \<open>What a client may rely on: an object whose first key is \<^verbatim>\<open>status_code\<close>, 0 or
  -1, with distinct keys among the four \<^verbatim>\<open>send_json_response\<close> writes; a failure
  carries the message "NOK" and a description, a success never says "NOK".\<close>
fun response_ok :: "json \<Rightarrow> bool" where
  "response_ok (JObj ((k, JNum c) # rest)) =
     (k = ''status_code'' \<and> (c = 0 \<or> c = -1) \<and> distinct (map fst rest)
      \<and> list_all (\<lambda>x. x \<in> {''response_data'', ''message'', ''description''}) (map fst rest)
      \<and> (c = -1 \<longleftrightarrow> map_of rest ''message'' = Some (JStr ''NOK''))
      \<and> (c = -1 \<longrightarrow> map_of rest ''description'' \<noteq> None \<and> map_of rest ''response_data'' = None))"
| "response_ok _ = False"

text \<open>The status code of a response.\<close>
fun status_of :: "json \<Rightarrow> int option" where
  "status_of (JObj ((k, JNum c) # rest)) = (if k = ''status_code'' then Some c else None)"
| "status_of _ = None"

subsection \<open>Properties of the responses\<close>

named_theorems response_simps "facts on rendered responses"

lemma field_if_keys [response_simps]: "map fst (field_if k v) \<in> {[], [k]}"
  by (cases v) auto

lemma map_of_field_if [response_simps]:
  "map_of (field_if k v) k' = (if k' = k \<and> truthy v then v else None)"
  by (cases v) auto

lemma nok_ok [response_simps]: "desc \<noteq> [] \<Longrightarrow> response_ok (nok desc)"
  by (simp add: nok_def send_json_response_def)

lemma success_ok [response_simps]:
  "m \<noteq> Some ''NOK'' \<Longrightarrow> response_ok (send_json_response m d 0 v)"
  using field_if_keys [of "''response_data''" v]
  by (cases v; cases m; cases d) (auto simp: send_json_response_def)

lemma status_nok [response_simps]: "status_of (nok desc) = Some (-1)"
  by (simp add: nok_def send_json_response_def)

lemma status_success [response_simps]: "status_of (send_json_response m d 0 v) = Some 0"
  by (simp add: send_json_response_def)

lemma render_lookup_ok [response_simps]: "response_ok (render_lookup parse sf qry res)"
  by (auto simp: render_lookup_def Let_def response_simps split: lresult.split query.split)

lemma render_post_ok [response_simps]: "response_ok (render_post sf p)"
proof -
  have e: "response_ok (render_error e)" for e by (cases e) (simp_all add: response_simps)
  have o: "response_ok (render_outcome sf oc)" for oc by (cases oc) (simp_all add: response_simps)
  have v: "verr_text e \<noteq> []" for e by (cases e) simp_all
  show ?thesis
  proof (cases p)
    case (Handled x)
    then show ?thesis using e o by (cases x) simp_all
  qed (simp_all add: v response_simps)
qed

lemma render_get_ok [response_simps]: "response_ok (render_get parse sf g)"
proof -
  have "response_ok (render_tx t)" for t by (cases t) (simp_all add: response_simps)
  then show ?thesis by (cases g) (simp_all add: response_simps)
qed

text \<open>The status code is the one the bot tests: 0 exactly for a record, a name list or
  the delegations.\<close>
lemma render_lookup_status:
  "status_of (render_lookup parse sf qry res) = Some 0 \<longleftrightarrow>
     (\<exists>r w. res = LRecord r w) \<or> (\<exists>ns. res = LNames ns) \<or> (\<exists>ds. res = LDelegations ds)"
  by (auto simp: render_lookup_def Let_def response_simps split: lresult.split query.split)

lemma render_http_ok [response_simps]:
  "render_http parse sf r = Some j \<Longrightarrow> response_ok j"
  by (cases r) (auto simp: response_simps)

text \<open>
  C33. Every request the server handles is answered with a well-formed response (an
  object whose first key is \<^verbatim>\<open>status_code\<close>, 0 or -1, with "NOK" and a description
  exactly on failure), except a POST without body, which raises
  \<^verbatim>\<open>UnboundLocalError\<close> in \<^verbatim>\<open>request_handler\<close> and gets no response.
\<close>

theorem request_handler_response:
  "case render_http (parse_wallet (sv_env cfg)) sf (fst (request_handler cfg rq s)) of
     None \<Rightarrow> rq_method rq = POST \<and> rq_body rq = []
   | Some j \<Rightarrow> response_ok j"
proof (cases "render_http (parse_wallet (sv_env cfg)) sf (fst (request_handler cfg rq s))")
  case None
  then have "fst (request_handler cfg rq s) = RUnboundPayload"
    by (cases "fst (request_handler cfg rq s)") simp_all
  then show ?thesis using None
    by (auto simp: request_handler_def case_prod_beta split: option.splits http_method.splits if_splits)
next
  case (Some j)
  then show ?thesis by (simp add: render_http_ok)
qed

text \<open>
  C20. An "update" request that carries nothing but a wallet address (no signature or
  other proof of ownership is asked for) is answered with the full stored record of that
  address, its \<^verbatim>\<open>guuid\<close> included, and changes nothing; the spec says every
  single-record response strips \<^verbatim>\<open>guuid\<close>, which is never exposed externally.
\<close>

theorem update_response_leaks_guuid:
  assumes "get_public_hash (parse_wallet e) (Some w) = Some (ph, sid)"
    and "gdb_get s ph = Some (Rec r)" "guuid r = Some g"
  shows "handle_post_request dl e (Some (JObj [(''action'', JStr ''update''), (''wallet'', JStr w)]))
           (empty_payload\<lparr>p_wallet := Some w\<rparr>) s = (Handled (Inr (NoChanges r)), s)
         \<and> render_post sf (Handled (Inr (NoChanges r))) =
             send_json_response (Some ''OK'') (Some ''No changes detected, data was not updated.'') 0
               (Some (JObj (identity_fields sf r)))
         \<and> map_of (identity_fields sf r) ''guuid'' = Some (JStr g)"
proof -
  let ?p = "empty_payload\<lparr>p_wallet := Some w\<rparr>"
  have reg: "register_name e ?p s ph r = Inr r"
    by (simp add: register_name_def payload_name_def empty_payload_def)
  have mf: "merge_fields (clock e) ?p r = r"
    by (simp add: merge_fields_def empty_payload_def)
  have "update_gdb_data_old_name e ?p s = (Inr (NoChanges r), s)"
    using assms(1,2) reg mf by (simp add: update_gdb_data_old_name_def guuid_given_def empty_payload_def)
  then show ?thesis
    using assms(3) by (simp add: handle_post_request_def validate_json_data_def jget_def identity_fields_def)
qed

end
