(* ===== verification/Spec2Isabelle.thy ===== *)
theory Spec2Isabelle
  imports Registry Sweeper Lookup Address Snapshot Concurrency Validation Bot Stamps Server Response
begin

text \<open>
  \<^bold>\<open>A verification development for the cpunk DNA name registry\<close>
  (\<^verbatim>\<open>src/backend\<close>, a Cellframe node plugin, and the Telegram bot
  \<^verbatim>\<open>src/cpunk.club/cpunkverifybot.py\<close> that calls it over HTTP).

  \<^bold>\<open>The program.\<close> A wallet address claims human-readable names (leases of one year)
  and attaches a profile to its identity record. \<^verbatim>\<open>handlers.py\<close> parses HTTP requests
  and calls \<^verbatim>\<open>GlobalDBOps\<close> of \<^verbatim>\<open>gdb_ops.py\<close>: the write path
  (\<^verbatim>\<open>write_gdb_data\<close> for "add", \<^verbatim>\<open>update_gdb_data_old_name\<close> for "update") and
  the read path (\<^verbatim>\<open>gdb_lookup\<close>). Two daemon threads started by the constructor run
  against the same store: the expiration sweeper (\<^verbatim>\<open>remove_expired_gdb_entries\<close>,
  every second) and the backup loop (\<^verbatim>\<open>backup_dna_data\<close>, every ten minutes);
  \<^verbatim>\<open>restore_dna_data\<close> writes a backup back. \<^verbatim>\<open>utils.py\<close> derives wallet
  addresses for lookups and validates names and addresses.

  \<^bold>\<open>The library.\<close>
  \<^item> \<open>Prelude\<close>: Python dictionaries as association lists with distinct keys
    (\<open>AList.update\<close> keeps the position of an existing key and appends a new one, as
    CPython does), \<open>setdefault\<close>, \<open>str.lower\<close> on ASCII, and the shared lemma
    collections \<open>dict_simps\<close> and \<open>store_simps\<close>.
  \<^item> \<open>Store\<close>: the identity record (\<open>identity\<close>, one field per JSON key that
    \<^verbatim>\<open>write_gdb_data\<close> writes), name leases, timestamps (aware, naive, unparsable,
    missing), the key-value store as an ordered dictionary of values that may fail to
    decode, \<^verbatim>\<open>_get_all_gdb_data\<close>, \<^verbatim>\<open>_is_name_taken\<close>,
    \<^verbatim>\<open>_get_public_hash\<close>, and the store invariant \<open>wf_store\<close> (records under their
    own public hash, lower-case lease names, global name uniqueness) with the one
    lemma every writer uses to keep it (\<open>wf_store_set\<close>).
  \<^item> \<open>Registry\<close>: the request payload (each JSON field present or absent), the error
    values (one per \<^verbatim>\<open>send_json_response("NOK", ...)\<close> of the write path), the name
    step, the per-field merge policies and the two handlers, each returning its
    result and the store it leaves; \<open>dispatch\<close> is the "add"/"update" switch of
    \<^verbatim>\<open>handle_post_request\<close>.
  \<^item> \<open>Sweeper\<close>: one cycle of the sweeper as a loop over the records read at its
    start, with the exceptions that end it, the \<^verbatim>\<open>while True\<close> loop over a list of
    clock readings, and the abstract specification \<open>sweep_spec\<close> of a cycle.
  \<^item> \<open>Lookup\<close>: \<^verbatim>\<open>gdb_lookup\<close> with its six modes (all delegations, telegram
    handle, order hash, name list, exact name, wallet address) and the lookup queries of
    \<^verbatim>\<open>handle_get_request\<close>; the wallet-address generator is an interface parameter
    \<open>addr_gen\<close> (sign id and hex public hash to a dictionary, or an exception).
  \<^item> \<open>Address\<close>: \<^verbatim>\<open>build_cf_address\<close> and \<^verbatim>\<open>generate_wallet_addresses\<close> of
    \<^verbatim>\<open>utils.py\<close> with the builtins they call (\<^verbatim>\<open>int.to_bytes\<close> and its
    \<^verbatim>\<open>OverflowError\<close>, \<^verbatim>\<open>int(x, 16)\<close>, \<^verbatim>\<open>bytes.fromhex\<close>) and the base58
    library's encoder; \<open>generate_wallet_addresses sha3 nets\<close> is an \<open>addr_gen\<close>, so the
    lookup lemmas apply to it. SHA3-256 is a parameter (any digest of fixed length),
    the network list of \<^verbatim>\<open>config.json\<close> an input.
  \<^item> \<open>Snapshot\<close>: the backup thread \<^verbatim>\<open>backup_dna_data\<close> (its set-up, each
    iteration as \<open>backup_step\<close>, the loop over (clock, store) readings as
    \<open>backup_run\<close>, stopped by the first exception), \<^verbatim>\<open>restore_dna_data\<close> and the
    CLI command \<^verbatim>\<open>restore_dna_data_from_file\<close> of \<^verbatim>\<open>cpunk-gdb-server.py\<close>.
    The backup directory is a dictionary in modification-time order; a file holds the
    decoded snapshot (\<^verbatim>\<open>json.dumps\<close> is injective on records, so its text
    comparison is a comparison of snapshots); the clock's formatting is a parameter.
  \<^item> \<open>Concurrency\<close>: the request threads and the sweeper thread as an interleaving
    step relation \<open>conc_step\<close> on the store and a list of threads; a thread starts a
    job by reading the store (deciding its \<^verbatim>\<open>set\<close> calls, \<open>changed\<close>), then
    performs them one at a time. No step takes \<^verbatim>\<open>thread_lock\<close>, as in the code.
  \<^item> \<open>Json\<close> and \<open>Config\<close>: decoded JSON values with \<^verbatim>\<open>.get\<close>, truthiness and
    Python's \<^verbatim>\<open>in\<close>; \<^verbatim>\<open>config.py\<close>'s \<^verbatim>\<open>load_config\<close>/\<^verbatim>\<open>save_config\<close>
    on a configuration file given by its state, and the two settings read from it at
    every use: \<^verbatim>\<open>DISALLOWED_NAMES\<close> (\<open>disallowed_check\<close>) and \<^verbatim>\<open>NET_IDS\<close>
    (\<open>config_addr_gen\<close>, the address generator of the server).
  \<^item> \<open>Validation\<close>: \<^verbatim>\<open>validate_dna_name\<close> (the regular expression matched as
    Python's \<^verbatim>\<open>re.match\<close> does, with backtracking and its \<^verbatim>\<open>$\<close>),
    \<^verbatim>\<open>validate_json_data\<close> on a decoded JSON body with the exceptions it lets
    escape, and \<^verbatim>\<open>handle_post_request\<close>, which hands the request's typed fields to
    the registry's \<open>dispatch\<close>.
  \<^item> \<open>Stamps\<close>: the preservation facts behind C32: every lease the write path
    creates has an aware expiry, a renewal keeps the kind of its stamp, and a sweep cycle
    only removes leases, so \<open>no_blocking_stamps\<close> (no lease that stops the sweeper)
    is kept by every request and cycle.
  \<^item> \<open>Server\<close>: the HTTP entry point \<^verbatim>\<open>request_handler\<close> (body decoding,
    then the method switch), \<^verbatim>\<open>handle_get_request\<close> with the precedence of its query
    parameters, and the \<^verbatim>\<open>tx_validate\<close> query \<^verbatim>\<open>is_tx_accepted\<close>; UTF-8
    decoding, \<^verbatim>\<open>json.loads\<close> and the node's ledger are parameters of a server
    configuration (\<open>server_cfg\<close>).
  \<^item> \<open>Bot\<close>: the Telegram bot: the handler order of \<^verbatim>\<open>main\<close> and its command
    handlers (\<open>bot_handle\<close>), \<^verbatim>\<open>universal_handler\<close> with its message
    classification, "whoami?" and the verification exchange. The bot talks to
    \<^verbatim>\<open>https://api.dna.cpunk.club\<close>, a proxy (\<^verbatim>\<open>dna-proxy.php\<close>) outside the
    repository: its GET lookups are taken as forwarded to \<open>handle_lookup\<close>
    unchanged, and its POST is a transport parameter \<open>api_post\<close>, of which
    \<open>plugin_post\<close> (delivery to \<open>handle_post_request\<close> as it is) is one instance.
  \<^item> \<open>Response\<close>: \<^verbatim>\<open>send_json_response\<close> of \<^verbatim>\<open>response_helpers.py\<close> and every
    answer of the model rendered as the JSON object the source sends, with its texts;
    \<open>response_ok\<close> is the contract a client (the bot) relies on.
\<^bold>\<open>What is proved\<close> (claim ids C1--C33).
  \<^item> Registry: every store reachable from the empty one by requests and sweep cycles
    satisfies the invariant, so a name is held by at most one record (C1); creation,
    the rejection of a taken name, renewal by exactly one year from the previous
    expiry, the rejection of a \<^verbatim>\<open>guuid\<close> change, the no-op update, and the
    immutability of \<^verbatim>\<open>guuid\<close>, \<^verbatim>\<open>public_hash\<close> and \<^verbatim>\<open>sign_id\<close> (C2--C7).
  \<^item> Sweeper: a cycle refines \<open>sweep_spec\<close> when no lease has a naive or missing
    expiry (C8); one such lease stops reclamation for its record and every later record
    forever (C9), against the spec's promise that malformed timestamps are skipped.
    Every store the program reaches by its own requests and cycles has no such lease,
    so there each cycle completes and does exactly what \<open>sweep_spec\<close> says (C32);
    the blocking of C9 needs a record from a restore or another writer.
  \<^item> Lookup: an exact name lookup returns the record holding the name (C10); no mode
    ever returns a non-empty \<^verbatim>\<open>guuid\<close> (C11); an address lookup returns a record
    that holds no name at all (C12, against the spec).
  \<^item> Address: base58 decoding of a derived address gives back its byte layout (C13);
    address derivation is injective (C14); when \<^verbatim>\<open>generate_wallet_addresses\<close>
    raises (C15) and what it returns, the last network of a name winning (C16); and,
    across the components, an address lookup lists the queried address under its
    network's name (C17).
  \<^item> Snapshot: with unchanged data the backup list fills with names of files never
    written, so after 101 iterations no backup is left and the 102nd kills the thread
    (C18, against the spec's 100 retained snapshots); a restore overwrites each key of
    the backup with its last record there and keeps every other key (C19); index 0
    restores the newest backup (C21); a restore breaks name uniqueness whenever the
    backup gives a name to a key other than the one holding it now (C22).
  \<^item> Interleavings: two "add" requests for one name from two addresses, each of
    which would create its identity alone, both succeed when both threads read before
    either writes, and leave two records with that name (C23); an update that changes
    a record and a sweep cycle that reclaims one of its leases, both reading first and
    the update writing first, end with the sweeper's stale copy: the update is lost,
    where the serial order keeps it (C24).
  \<^item> Validation: the name pattern accepts class strings and the same followed by a
    newline (C25); a validated "add" never fails for a missing name or wallet (C26);
    with a missing, unreadable or non-JSON configuration file, or one without
    \<^verbatim>\<open>DISALLOWED_NAMES\<close>, no "add" succeeds (C27); "update" is never validated,
    so it registers names of any shape (C28); the disallowed check is applied to the
    name as sent, which is then lower-cased, so "Admin" registers "admin" (C29).
  \<^item> Bot and server: an "update" without a wallet is rejected with the store unchanged,
    which is what the bot's verification request gets from the registry when it reaches
    it unchanged (C30); "whoami?" reports the first record in store order with the
    user's telegram profile, which any identity can set (C31); an "update" carrying only
    an address is answered with the record and its \<^verbatim>\<open>guuid\<close>, against the spec (C20);
    every request is answered with a well-formed response except a POST without body,
    whose \<^verbatim>\<open>UnboundLocalError\<close> escapes (C33).

  \<^bold>\<open>Modelling choices.\<close> Time is an integer number of seconds; the clock, the address
  parser \<^verbatim>\<open>parse_cf_v1_address\<close> and the id generator \<^verbatim>\<open>CFGUUID.generate\<close> are
  inputs of the handlers (\<open>env\<close>). The two readings of \<^verbatim>\<open>datetime.now\<close> in one
  creation are one clock value. Stored timestamps are kept abstract (an integer, or
  the reason \<^verbatim>\<open>fromisoformat\<close> or the comparison fails) rather than as ISO strings;
  the time stamps added to delegations and messages are a decimal rendering of the
  clock. Records are typed: a stored value either decodes to a record with every field
  \<^verbatim>\<open>write_gdb_data\<close> writes, or is undecodable; records of other shapes (possible
  only through restore or other writers of the replicated group) are not modelled, and
  a social entry is its profile string. \<open>str.lower\<close> is modelled on ASCII.

  \<^bold>\<open>Known limits of the typed model.\<close> A stored value is a record or undecodable, so
  two shapes the source treats specially are outside it: an empty stored value, which
  \<^verbatim>\<open>write_gdb_data\<close> reads as absent (\<^verbatim>\<open>if existing_data\<close>), and a record
  whose \<^verbatim>\<open>name\<close> field is \<^verbatim>\<open>null\<close> in the request, on which
  \<^verbatim>\<open>.lower()\<close> raises \<^verbatim>\<open>AttributeError\<close> (the payload's name is a string or
  absent). \<^verbatim>\<open>_get_public_hash\<close> is modelled as returning the hash whatever its
  length; its callers' test \<^verbatim>\<open>if not public_hash\<close> would reject an empty one, which
  \<^verbatim>\<open>parse_cf_v1_address\<close> never yields, since it cuts the public hash as a
  fixed-length field of the decoded address.

  \<^bold>\<open>Not modelled.\<close> Logging, HTTP transport and the CLI command surface, the
  plugin's \<^verbatim>\<open>init\<close>, \<^verbatim>\<open>http_server\<close> and \<^verbatim>\<open>deinit\<close> (registration of the
  handlers with the node: pure I/O), \<^verbatim>\<open>get_config_file\<close> and the bot's module-level
  token loading (paths and secrets), SHA3-256 and the node's address parser (library
  functions, parameters of the model; base58 decoding is modelled only as the inverse
  the proofs use), the underscores and surrounding white space \<^verbatim>\<open>int(index)\<close> also accepts
  (\<^verbatim>\<open>int(x, 16)\<close> is modelled with them), the node's ledger behind \<^verbatim>\<open>is_tx_accepted\<close> (a
  parameter), the Telegram API, the bot's reply texts and the \<^verbatim>\<open>@botname\<close> check of
  its command matching, the text of stored timestamps (a parameter of the rendering),
  and Unicode case mapping (\<^verbatim>\<open>str.lower\<close> and \<^verbatim>\<open>str.strip\<close> are modelled on
  ASCII). No property is of the termination kind: every loop of the sources is either a
  \<^verbatim>\<open>for\<close> loop over a finite collection, total by construction as a structural
  recursion, or a \<^verbatim>\<open>while True\<close> loop (sweeper, backup, bot polling), modelled over
  finite sequences of readings with liveness statements (C9, C18).
\<close>

text \<open>The requests and background steps that change the store, in any order.\<close>

inductive reachable :: "store \<Rightarrow> bool" where
  init: "reachable []"
| request: "reachable s \<Longrightarrow> reachable (snd (dispatch e a s))"
| sweep: "reachable s \<Longrightarrow> reachable (fst (remove_expired_cycle now s))"

text \<open>Concrete inputs for the witnesses: two addresses, a clock, and requests of
  these addresses.\<close>

definition addr_w1 :: cf_addr where
  "addr_w1 = \<lparr>addr_version = 1, addr_net_id = 5, addr_sign_id = 2,
     addr_public_hash = [1, 171], addr_summary_hash = [], addr_control_hash = []\<rparr>"

definition addr_w2 :: cf_addr where
  "addr_w2 = \<lparr>addr_version = 1, addr_net_id = 5, addr_sign_id = 2,
     addr_public_hash = [2, 255], addr_summary_hash = [], addr_control_hash = []\<rparr>"

definition demo_env :: env where
  "demo_env = \<lparr>parse_wallet = (\<lambda>w. if w = ''W1'' then Some addr_w1 else if w = ''W2'' then Some addr_w2 else None),
     clock = 1000, fresh_guuid = ''G-1''\<rparr>"

definition add_alice :: payload where
  "add_alice = empty_payload\<lparr>p_name := Some ''Alice'', p_wallet := Some ''W1''\<rparr>"

definition add_alice_w2 :: payload where
  "add_alice_w2 = empty_payload\<lparr>p_name := Some ''alice'', p_wallet := Some ''W2''\<rparr>"

definition store_alice :: store where
  "store_alice = snd (write_gdb_data demo_env add_alice [])"

definition alice_record :: identity where
  "alice_record = new_identity ''01ab'' ''g-1'' 2 ''alice'' (new_lease 1000 None)"

definition add_alice_guuid :: payload where
  "add_alice_guuid = add_alice\<lparr>p_guuid := Some ''forged''\<rparr>"

definition upd_same_bio :: payload where
  "upd_same_bio = empty_payload\<lparr>p_wallet := Some ''W1'', p_bio := Some []\<rparr>"

definition upd_bio :: payload where
  "upd_bio = empty_payload\<lparr>p_wallet := Some ''W1'', p_bio := Some ''hello''\<rparr>"

definition bad_record :: identity where
  "bad_record = alice_record\<lparr>public_hash := ''0002'',
     registered_names := [(''bob'', \<lparr>created_at = Naive 0, expires_on = Naive 5, tx_hash = None\<rparr>)]\<rparr>"

definition store_blocked :: store where
  "store_blocked = [(''0002'', Rec bad_record), (''01ab'', Rec alice_record)]"

definition demo_gen :: addr_gen where
  "demo_gen sid ph = Some [(''Backbone'', ''addr-'' @ ph)]"

definition store_noname :: store where
  "store_noname = [(''01ab'', Rec (alice_record\<lparr>registered_names := []\<rparr>))]"

text \<open>A stand-in for SHA3-256 with its digest length, the version-1 address of W1's
  public hash on network 5, a parser that knows that address, and a network
  configuration in which "Backbone" appears twice.\<close>

definition demo_sha3 :: hash_fn where
  "demo_sha3 r = take 32 (r @ replicate 32 0)"

definition w1_raw :: "byte list" where
  "w1_raw = [1, 5, 0, 0, 0, 0, 0, 0, 0, 2, 0, 0, 0, 1, 171]"

definition w1_addr :: string where
  "w1_addr = b58encode (w1_raw @ demo_sha3 w1_raw)"

definition demo_parse :: addr_parser where
  "demo_parse q = (if q = w1_addr then Some addr_w1 else None)"

definition demo_nets :: "(string \<times> string) list" where
  "demo_nets = [(''Backbone'', ''0x06''), (''KelVPN'', ''0x0a''), (''Backbone'', ''0x05'')]"

text \<open>A second record that leases "alice" under another public hash: the state after
  "alice" was released by W1 and taken by W2.\<close>

definition alice_w2_record :: identity where
  "alice_w2_record = alice_record\<lparr>public_hash := ''02ff'', guuid := Some ''g-2''\<rparr>"

text \<open>The clock just after alice's lease has expired, and a request environment
  reading it.\<close>

definition late_env :: env where
  "late_env = demo_env\<lparr>clock := 1000 + one_year + 1\<rparr>"

text \<open>Two "add" requests of W1 that pass validation: the name "alice" followed by a
  newline, and the name "Admin" when the configuration disallows "admin".\<close>

definition add_nl_body :: json where
  "add_nl_body = JObj [(''action'', JStr ''add''), (''name'', JStr (''alice'' @ [CHR 0x0A])), (''wallet'', JStr ''W1'')]"

definition add_nl :: payload where
  "add_nl = empty_payload\<lparr>p_name := Some (''alice'' @ [CHR 0x0A]), p_wallet := Some ''W1''\<rparr>"

definition add_admin_body :: json where
  "add_admin_body = JObj [(''action'', JStr ''add''), (''name'', JStr ''Admin''), (''wallet'', JStr ''W1'')]"

definition add_admin :: payload where
  "add_admin = empty_payload\<lparr>p_name := Some ''Admin'', p_wallet := Some ''W1''\<rparr>"

text \<open>A second identity "mallory" of W2, registered before alice, and the two
  requests that set the telegram profile "bob" for W1 and then for W2.\<close>

definition add_mallory :: payload where
  "add_mallory = empty_payload\<lparr>p_name := Some ''mallory'', p_wallet := Some ''W2''\<rparr>"

definition tg_bob_w1 :: payload where
  "tg_bob_w1 = empty_payload\<lparr>p_wallet := Some ''W1'', p_socials := Some [(''telegram'', Some ''bob'')]\<rparr>"

definition tg_bob_w2 :: payload where
  "tg_bob_w2 = empty_payload\<lparr>p_wallet := Some ''W2'', p_socials := Some [(''telegram'', Some ''bob'')]\<rparr>"

definition store_bob_verified :: store where
  "store_bob_verified =
     snd (update_gdb_data_old_name demo_env tg_bob_w1
       (snd (write_gdb_data demo_env add_alice (snd (write_gdb_data demo_env add_mallory [])))))"

definition store_bob_spoofed :: store where
  "store_bob_spoofed = snd (update_gdb_data_old_name demo_env tg_bob_w2 store_bob_verified)"

text \<open>A server configuration: ASCII bodies decode, others do not; every JSON text reads
  as the "add" request of alice; no transaction is on the ledger.\<close>

text \<open>Configuration files: an empty disallowed list, and one that disallows "admin".\<close>

definition demo_config :: config_file where
  "demo_config = ConfigJson (JObj [(''DISALLOWED_NAMES'', JArr [])])"

definition admin_config :: config_file where
  "admin_config = ConfigJson (JObj [(''DISALLOWED_NAMES'', JArr [JStr ''admin''])])"

declare demo_config_def [eval_simps] admin_config_def [eval_simps]

definition demo_cfg :: server_cfg where
  "demo_cfg = \<lparr>sv_config = demo_config, sv_env = demo_env, sv_sha3 = demo_sha3,
     sv_ledger = (\<lambda>net tx. LedgerValueError),
     sv_utf8 = (\<lambda>b. if list_all (\<lambda>c. c < 128) b then Some (map (\<lambda>c. char_of (unat c)) b) else None),
     sv_loads = (\<lambda>t. Some (JObj [(''action'', JStr ''add''), (''name'', JStr ''alice''), (''wallet'', JStr ''W1'')]))\<rparr>"

definition rq_add_alice :: request where
  "rq_add_alice = \<lparr>rq_method = POST, rq_body = [123, 125], rq_query = [], rq_payload = add_alice\<rparr>"

text \<open>The record W2 creates for "alice" on an empty store, and an "update" of W1 that
  carries the name "x", too short for the name rule.\<close>

definition alice_w2_new :: identity where
  "alice_w2_new = new_identity ''02ff'' ''g-1'' 2 ''alice'' (new_lease 1000 None)"

definition upd_x :: payload where
  "upd_x = empty_payload\<lparr>p_name := Some ''x'', p_wallet := Some ''W1''\<rparr>"

subsection \<open>Evaluation of the concrete inputs\<close>

lemma payload_name_add_alice: "payload_name add_alice = ''alice''"
  by (simp add: add_alice_def eval_simps)

lemma pk_w1: "get_public_hash (parse_wallet demo_env) (p_wallet add_alice) = Some (''01ab'', 2)"
  by (simp add: demo_env_def addr_w1_def add_alice_def eval_simps)

lemma store_alice_eq: "store_alice = [(''01ab'', Rec alice_record)]"
  by (simp add: store_alice_def add_alice_def addr_w1_def alice_record_def demo_env_def eval_simps)

lemma wf_store_alice: "wf_store store_alice"
  by (simp add: store_alice_eq alice_record_def eval_simps)

lemma length_demo_sha3: "length (demo_sha3 r) = 32"
  by (simp add: demo_sha3_def)

lemma build_w1_addr: "build_cf_address demo_sha3 1 5 2 [1, 171] = Some w1_addr"
  by (simp add: w1_addr_def w1_raw_def eval_simps)

lemma parse_demo_nets:
  "parse_hex_int ''0x05'' = Some 5 \<and> parse_hex_int ''0x06'' = Some 6 \<and> parse_hex_int ''0x0a'' = Some 10"
  by (simp add: eval_simps)

lemma whoami_spoofed:
  "process_whoami (parse_wallet demo_env) demo_gen (Some ''bob'') store_bob_spoofed = WhoamiNames ''mallory'' []"
  by (simp add: store_bob_spoofed_def store_bob_verified_def process_whoami_def add_mallory_def add_alice_def
      tg_bob_w1_def tg_bob_w2_def demo_env_def addr_w1_def addr_w2_def demo_gen_def eval_simps)

lemma reachable_store_alice: "reachable store_alice"
  unfolding store_alice_def using reachable.request [OF reachable.init, of demo_env "Add add_alice"]
  by simp

lemma get_store_alice: "gdb_get store_alice ''01ab'' = Some (Rec alice_record)"
  by (simp add: store_alice_eq eval_simps)

subsection \<open>The registry invariant over every run\<close>

text \<open>
  C1. Every store reachable from the empty store by any sequence of "add" and "update"
  requests and sweep cycles (complete or ended by an exception) is well-formed: in
  particular no name is a lease of two records, every record sits under its own public
  hash, and lease names are lower-case.
\<close>

theorem reachable_wf_store:
  "reachable s \<Longrightarrow> wf_store s"
proof (induction rule: reachable.induct)
  case init
  show ?case by (simp add: wf_store_def names_unique_def dict_ok_def)
next
  case (request s e a)
  then show ?case
    by (cases a) (simp_all add: write_gdb_data_wf update_gdb_data_old_name_wf)
next
  case (sweep s now)
  then show ?case by (simp add: remove_expired_cycle_wf)
qed

theorem reachable_wf_store_witness:
  "reachable store_alice \<and> wf_store store_alice"
  using reachable_store_alice reachable_wf_store [OF reachable_store_alice] by simp

subsection \<open>Witnesses of the write path and the sweeper\<close>

theorem create_fresh_identity_witness:
  "\<exists>r ent. write_gdb_data demo_env add_alice [] = (Inr (Created r), gdb_set ''01ab'' (Rec r) [])
     \<and> registered_names r = [(''alice'', ent)]
     \<and> created_at ent = Aware 1000 \<and> expires_on ent = Aware (1000 + one_year)
     \<and> guuid r = Some ''g-1'' \<and> public_hash r = ''01ab'' \<and> sign_id r = 2 \<and> modified_at r = None"
proof -
  have n: "''alice'' \<noteq> []" by simp
  have h4: "gdb_get [] ''01ab'' = None" by (simp add: eval_simps)
  have h5: "\<not> is_name_taken ''alice'' (get_all_gdb_data []) ''01ab''" by simp
  have c: "clock demo_env = 1000" "lower (fresh_guuid demo_env) = ''g-1''"
    by (simp_all add: demo_env_def eval_simps)
  show ?thesis
    using create_fresh_identity [OF payload_name_add_alice n pk_w1 h4 h5] c by simp
qed

theorem create_name_taken_witness:
  "write_gdb_data demo_env add_alice_w2 store_alice = (Inl (NameTaken ''alice''), store_alice)"
proof -
  have h1: "payload_name add_alice_w2 = ''alice''" by (simp add: add_alice_w2_def eval_simps)
  have h3: "get_public_hash (parse_wallet demo_env) (p_wallet add_alice_w2) = Some (''02ff'', 2)"
    by (simp add: demo_env_def addr_w2_def add_alice_w2_def eval_simps)
  have h4: "is_name_taken ''alice'' (get_all_gdb_data store_alice) ''02ff''"
    by (simp add: store_alice_eq alice_record_def eval_simps)
  have h5: "\<not> guuid_given add_alice_w2" by (simp add: add_alice_w2_def eval_simps)
  have h6: "gdb_get store_alice ''02ff'' = None \<or>
      (\<exists>r. gdb_get store_alice ''02ff'' = Some (Rec r) \<and> ''alice'' \<notin> set (dkeys (registered_names r)))"
    by (simp add: store_alice_eq eval_simps)
  show ?thesis by (rule create_name_taken [OF h1 _ h3 h4 h5 h6]) simp
qed

theorem renewal_extends_one_year_witness:
  "\<exists>r'. update_gdb_data_old_name demo_env add_alice store_alice =
          (Inr (Updated (r'\<lparr>public_hash := ''01ab''\<rparr>)), gdb_set ''01ab'' (Rec r') store_alice)
     \<and> map_of (registered_names r') ''alice'' =
          Some ((new_lease 1000 None)\<lparr>expires_on := Aware (1000 + one_year + one_year), tx_hash := None\<rparr>)
     \<and> modified_at r' = Some (Aware 1000)"
proof -
  have h5: "\<not> guuid_given add_alice" by (simp add: add_alice_def eval_simps)
  have h7: "map_of (registered_names alice_record) ''alice'' = Some (new_lease 1000 None)"
    by (simp add: alice_record_def eval_simps)
  have h8: "expires_on (new_lease 1000 None) = Aware (1000 + one_year)" by (simp add: eval_simps)
  show ?thesis
    using renewal_extends_one_year [OF wf_store_alice pk_w1 get_store_alice h5 payload_name_add_alice _ h7 h8]
    by (simp add: demo_env_def add_alice_def eval_simps)
qed

theorem guuid_change_rejected_witness:
  "update_gdb_data_old_name demo_env add_alice_guuid store_alice = (Inl GuuidImmutable, store_alice)"
proof -
  have h1: "guuid_given add_alice_guuid" by (simp add: add_alice_guuid_def eval_simps)
  have h2: "get_public_hash (parse_wallet demo_env) (p_wallet add_alice_guuid) = Some (''01ab'', 2)"
    using pk_w1 by (simp add: add_alice_guuid_def add_alice_def)
  show ?thesis by (rule guuid_change_rejected [OF h1 h2 get_store_alice])
qed

theorem noop_update_no_write_witness:
  "update_gdb_data_old_name demo_env upd_same_bio store_alice = (Inr (NoChanges alice_record), store_alice)"
proof -
  have h1: "get_public_hash (parse_wallet demo_env) (p_wallet upd_same_bio) = Some (''01ab'', 2)"
    by (simp add: demo_env_def addr_w1_def upd_same_bio_def eval_simps)
  show ?thesis
    by (rule noop_update_no_write [OF h1 get_store_alice])
       (simp_all add: upd_same_bio_def alice_record_def eval_simps)
qed

theorem write_keeps_identity_fields_witness:
  "\<exists>r'. gdb_get (snd (dispatch demo_env (Update upd_bio) store_alice)) ''01ab'' = Some (Rec r')
     \<and> guuid r' = Some ''g-1'' \<and> public_hash r' = ''01ab'' \<and> sign_id r' = 2"
proof -
  have h: "dispatch demo_env (Update upd_bio) store_alice =
      (fst (dispatch demo_env (Update upd_bio) store_alice), snd (dispatch demo_env (Update upd_bio) store_alice))"
    by simp
  show ?thesis
    using write_keeps_identity_fields [OF h get_store_alice] by (simp add: alice_record_def eval_simps)
qed

theorem remove_expired_cycle_refines_witness:
  "remove_expired_cycle (1000 + one_year + 1) store_alice = (sweep_spec (1000 + one_year + 1) store_alice, False)
   \<and> sweep_spec (1000 + one_year + 1) store_alice = [(''01ab'', Rec (alice_record\<lparr>registered_names := []\<rparr>))]"
proof -
  have h: "\<forall>(k, r) \<in> set (get_all_gdb_data store_alice). \<forall>x \<in> set (registered_names r). \<not> blocks_sweep (snd x)"
    by (simp add: store_alice_eq alice_record_def eval_simps)
  show ?thesis
    using remove_expired_cycle_refines [OF wf_store_alice h, of "1000 + one_year + 1"]
    by (simp add: store_alice_eq alice_record_def eval_simps)
qed

theorem sweep_blocked_forever_witness:
  "\<exists>pre'. sweep_loop [1000 + 2 * one_year, 1000 + 3 * one_year] store_blocked
      = pre' @ (''0002'', Rec bad_record) # [(''01ab'', Rec alice_record)] \<and> dkeys pre' = []"
proof -
  have h1: "store_blocked = [] @ (''0002'', Rec bad_record) # [(''01ab'', Rec alice_record)]"
    by (simp add: store_blocked_def)
  have h2: "\<exists>x \<in> set (registered_names bad_record). blocks_sweep (snd x)"
    by (simp add: bad_record_def eval_simps)
  show ?thesis
    using sweep_blocked_forever [OF h1 h2, where nows = "[1000 + 2 * one_year, 1000 + 3 * one_year]"]
    by (simp del: sweep_loop.simps)
qed

subsection \<open>Witnesses of the lookup engine\<close>

theorem lookup_name_finds_owner_witness:
  "gdb_lookup (parse_wallet demo_env) demo_gen ''ALICE'' False False False store_alice
     = LRecord (strip_guuid alice_record) [(''Backbone'', ''addr-01ab'')]"
proof -
  have h2: "(''01ab'', alice_record) \<in> set (get_all_gdb_data store_alice)" by (simp add: store_alice_eq)
  have h3: "lower ''ALICE'' \<in> set (dkeys (registered_names alice_record))"
    by (simp add: alice_record_def eval_simps)
  have h4: "parse_wallet demo_env ''ALICE'' = None" by (simp add: demo_env_def)
  have h6: "demo_gen (sign_id alice_record) ''01ab'' = Some [(''Backbone'', ''addr-01ab'')]"
    by (simp add: demo_gen_def)
  show ?thesis
    by (rule lookup_name_finds_owner [where parse = "parse_wallet demo_env" and gen = demo_gen,
          OF wf_store_alice h2 h3 h4 _ h6]) simp
qed

theorem lookup_hides_guuid_witness:
  "handle_lookup (parse_wallet demo_env) demo_gen (QLookup ''alice'') store_alice
     = LRecord (alice_record\<lparr>guuid := None\<rparr>) [(''Backbone'', ''addr-01ab'')]
   \<and> guuid (alice_record\<lparr>guuid := None\<rparr>) = None"
proof -
  have h: "handle_lookup (parse_wallet demo_env) demo_gen (QLookup ''alice'') store_alice
     = LRecord (alice_record\<lparr>guuid := None\<rparr>) [(''Backbone'', ''addr-01ab'')]"
    by (simp add: store_alice_eq alice_record_def demo_env_def demo_gen_def eval_simps)
  show ?thesis using h lookup_hides_guuid [OF h] by simp
qed

theorem lookup_address_without_names_witness:
  "gdb_lookup (parse_wallet demo_env) demo_gen ''W1'' False False True store_noname
     = LRecord (strip_guuid (alice_record\<lparr>registered_names := []\<rparr>)) [(''Backbone'', ''addr-01ab'')]"
proof -
  have h1: "get_public_hash (parse_wallet demo_env) (Some ''W1'') = Some (''01ab'', 2)"
    by (simp add: demo_env_def addr_w1_def eval_simps)
  have h2: "gdb_get store_noname ''01ab'' = Some (Rec (alice_record\<lparr>registered_names := []\<rparr>))"
    by (simp add: store_noname_def eval_simps)
  have h5: "demo_gen (sign_id (alice_record\<lparr>registered_names := []\<rparr>)) ''01ab'' = Some [(''Backbone'', ''addr-01ab'')]"
    by (simp add: demo_gen_def)
  show ?thesis
    by (rule lookup_address_without_names [where parse = "parse_wallet demo_env" and gen = demo_gen,
          OF h1 h2 _ _ h5]) simp_all
qed

theorem build_cf_address_injective_witness:
  "(\<forall>r. length (demo_sha3 r) = 32) \<and> build_cf_address demo_sha3 1 5 2 [1, 171] = Some w1_addr
   \<and> (1 :: int) = 1 \<and> (5 :: int) = 5 \<and> (2 :: int) = 2 \<and> [1, 171 :: byte] = [1, 171]"
proof -
  have hl: "\<forall>r. length (demo_sha3 r) = 32" using length_demo_sha3 by blast
  show ?thesis
    using hl build_w1_addr build_cf_address_injective [OF hl build_w1_addr build_w1_addr] by blast
qed

theorem address_b58_roundtrip_witness:
  "build_cf_address demo_sha3 1 5 2 [1, 171] = Some w1_addr
   \<and> (\<exists>vb nb sb. b58decode w1_addr = Some ((vb @ nb @ sb @ [1, 171]) @ demo_sha3 (vb @ nb @ sb @ [1, 171]))
        \<and> length vb = 1 \<and> length nb = 8 \<and> length sb = 4
        \<and> 1 = int (from_le (rev vb)) \<and> 5 = int (from_le nb) \<and> 2 = int (from_le sb))"
  using build_w1_addr address_b58_roundtrip [OF build_w1_addr] by blast


theorem generate_wallet_addresses_map_witness:
  "\<exists>w. generate_wallet_addresses demo_sha3 demo_nets 2 ''01ab'' = Some w \<and> fromhex ''01ab'' = Some [1, 171]
       \<and> dict_ok w \<and> map_of w ''Backbone'' = Some w1_addr"
proof -
  have "generate_wallet_addresses demo_sha3 demo_nets 2 ''01ab'' \<noteq> None"
    using parse_demo_nets by (simp add: demo_nets_def eval_simps)
  then obtain w where w: "generate_wallet_addresses demo_sha3 demo_nets 2 ''01ab'' = Some w" by auto
  have hx: "fromhex ''01ab'' = Some [1, 171]" by (simp add: eval_simps)
  have "net_address demo_sha3 2 [1, 171] ''0x05'' = Some w1_addr"
    using parse_demo_nets build_w1_addr by (simp add: net_address_def)
  then show ?thesis
    using w hx generate_wallet_addresses_map [OF w hx, of "''Backbone''"] by (simp add: demo_nets_def)
qed

subsection \<open>Wallet addresses in lookups\<close>

text \<open>
  C17. Looking up a wallet address (the \<^verbatim>\<open>lookup\<close> and \<^verbatim>\<open>lookup2\<close> queries)
  whose record is stored under its public hash returns that record together with a
  wallet-address map in which the address appears again under the name of its
  network, when the address is the version-1 encoding of what it parses to, the record
  keeps the address's signature id, and every configured network id is a hex number of
  at most 8 bytes. The map comes from \<^verbatim>\<open>generate_wallet_addresses\<close>, which
  re-derives the address from the stored key and signature id.
\<close>

theorem lookup_address_lists_wallet:
  assumes q: "parse q = Some c"
    and enc: "build_cf_address digest 1 (int (addr_net_id c)) (int (addr_sign_id c)) (addr_public_hash c) = Some q"
    and r: "gdb_get s (hex (addr_public_hash c)) = Some (Rec r)" "sign_id r = int (addr_sign_id c)"
    and net: "map_of (rev nets) name = Some i" "parse_hex_int i = Some (int (addr_net_id c))"
    and cfg: "\<forall>(n, j) \<in> set nets. \<exists>nid. parse_hex_int j = Some nid \<and> 0 \<le> nid \<and> nid < 2 ^ 64"
  shows "\<exists>wa. gdb_lookup parse (generate_wallet_addresses digest nets) q False False al s = LRecord (strip_guuid r) wa
              \<and> map_of wa name = Some q"
proof -
  let ?ph = "hex (addr_public_hash c)" and ?sid = "int (addr_sign_id c)"
  have hx: "fromhex ?ph = Some (addr_public_hash c)" by (rule fromhex_hex)
  have ne: "nets \<noteq> []" using net(1) by auto
  have "0 \<le> ?sid \<and> ?sid < 2 ^ 32"
    using enc build_cf_address_defined [of digest 1 "int (addr_net_id c)" ?sid "addr_public_hash c"] by auto
  then have "\<forall>(n, j) \<in> set nets. net_address digest ?sid (addr_public_hash c) j \<noteq> None"
    using all_net_address_defined [OF ne, of digest ?sid] cfg by blast
  then obtain wa where wa: "generate_wallet_addresses digest nets ?sid ?ph = Some wa"
    using wallet_addresses_acc_defined [of digest nets ?sid ?ph "[]"] hx
    by (auto simp: generate_wallet_addresses_def)
  have "map_of wa name = Some q"
    using wallet_addresses_acc_map [of digest nets ?sid ?ph "[]" wa _ name] wa hx net enc
    by (simp add: generate_wallet_addresses_def net_address_def)
  moreover have "q \<noteq> ''all_delegations''"
  proof -
    have "set q \<subseteq> set b58_alphabet"
      using enc b58encode_alphabet by (auto simp: build_cf_address_Some)
    moreover have "CHR ''l'' \<notin> set b58_alphabet" by (simp add: b58_alphabet_def)
    ultimately show ?thesis by auto
  qed
  ultimately show ?thesis
    using q r wa by (simp add: gdb_lookup_def by_address_def get_public_hash_def)
qed

theorem lookup_address_lists_wallet_witness:
  "gdb_lookup demo_parse (generate_wallet_addresses demo_sha3 demo_nets) w1_addr False False False store_alice
     \<noteq> LError
   \<and> (\<exists>wa. gdb_lookup demo_parse (generate_wallet_addresses demo_sha3 demo_nets) w1_addr False False False store_alice
           = LRecord (strip_guuid alice_record) wa \<and> map_of wa ''Backbone'' = Some w1_addr)"
proof -
  have q: "demo_parse w1_addr = Some addr_w1" by (simp add: demo_parse_def)
  have enc: "build_cf_address demo_sha3 1 (int (addr_net_id addr_w1)) (int (addr_sign_id addr_w1))
               (addr_public_hash addr_w1) = Some w1_addr"
    using build_w1_addr by (simp add: addr_w1_def)
  have r: "gdb_get store_alice (hex (addr_public_hash addr_w1)) = Some (Rec alice_record)"
    "sign_id alice_record = int (addr_sign_id addr_w1)"
    using get_store_alice by (simp_all add: addr_w1_def alice_record_def eval_simps)
  have net: "map_of (rev demo_nets) ''Backbone'' = Some ''0x05''"
    "parse_hex_int ''0x05'' = Some (int (addr_net_id addr_w1))"
    using parse_demo_nets by (simp_all add: demo_nets_def addr_w1_def)
  have cfg: "\<forall>(n, j) \<in> set demo_nets. \<exists>nid. parse_hex_int j = Some nid \<and> 0 \<le> nid \<and> nid < 2 ^ 64"
    using parse_demo_nets by (simp add: demo_nets_def)
  show ?thesis
    using lookup_address_lists_wallet [where parse = demo_parse and digest = demo_sha3 and s = store_alice
        and nets = demo_nets and al = False, OF q enc r net cfg] by auto
qed

subsection \<open>Backup and restore\<close>

theorem backup_thread_dies_witness:
  "\<not> bk_alive (backup_run show_int (map (\<lambda>t. (t, store_alice)) (map int [0..<102])) (backup_init []))
   \<and> bk_dir (backup_run show_int (map (\<lambda>t. (t, store_alice)) (take 101 (map int [0..<102]))) (backup_init [])) = []"
proof -
  have "get_all_gdb_data store_alice \<noteq> []" by (simp add: store_alice_eq)
  moreover have "102 \<le> length (map int [0..<102])" by simp
  ultimately show ?thesis using backup_thread_dies by blast
qed

theorem restore_latest_backup_witness:
  "restore_from_file (Some ''0'') (bk_dir (backup_step show_int 600 store_alice (backup_init []))) []
     = (Restored (backup_file_name show_int 600), restore_dna_data (get_all_gdb_data store_alice) [])"
proof -
  have "get_all_gdb_data store_alice \<noteq> []" by (simp add: store_alice_eq)
  moreover have "Some (get_all_gdb_data store_alice) \<noteq> bk_last (backup_init [])"
    by (simp add: backup_init_def)
  moreover have "InDir (backup_file_name show_int 600) \<notin> set (bk_files (backup_init []))"
    by (simp add: backup_init_def)
  ultimately show ?thesis by (rule restore_latest_backup)
qed

theorem restore_breaks_uniqueness_witness:
  "wf_store store_alice \<and> wf_store [(''02ff'', Rec alice_w2_record)]
   \<and> \<not> names_unique (restore_dna_data (get_all_gdb_data store_alice) [(''02ff'', Rec alice_w2_record)])"
proof -
  have w2: "wf_store [(''02ff'', Rec alice_w2_record)]"
    by (simp add: wf_store_def names_unique_def rec_ok_def dict_ok_def alice_w2_record_def
        alice_record_def eval_simps)
  have "\<not> names_unique (restore_dna_data [(''01ab'', alice_record)] [(''02ff'', Rec alice_w2_record)])"
    by (rule restore_breaks_uniqueness [of "[(''02ff'', Rec alice_w2_record)]" "''02ff''" alice_w2_record "''alice''"
          "[(''01ab'', alice_record)]" "''01ab''" alice_record])
      (simp_all add: dict_ok_def alice_w2_record_def alice_record_def eval_simps)
  then show ?thesis using wf_store_alice w2 by (simp add: store_alice_eq)
qed

subsection \<open>Interleavings\<close>

theorem concurrent_creates_break_uniqueness_witness:
  "\<exists>s'. conc_step\<^sup>*\<^sup>* ([], [Idle, Idle]) (s', [Idle, Idle])
     \<and> gdb_get s' ''01ab'' = Some (Rec alice_record) \<and> gdb_get s' ''02ff'' = Some (Rec alice_w2_new)
     \<and> \<not> names_unique s'"
proof -
  have h1: "write_gdb_data demo_env add_alice [] = (Inr (Created alice_record), store_alice)"
    using store_alice_eq
    by (simp add: store_alice_def add_alice_def demo_env_def addr_w1_def alice_record_def eval_simps)
  have h2: "write_gdb_data demo_env add_alice_w2 [] = (Inr (Created alice_w2_new), [(''02ff'', Rec alice_w2_new)])"
    by (simp add: add_alice_w2_def demo_env_def addr_w2_def alice_w2_new_def eval_simps)
  have "payload_name add_alice = payload_name add_alice_w2"
    by (simp add: add_alice_def add_alice_w2_def eval_simps)
  moreover have "public_hash alice_record = ''01ab''" "public_hash alice_w2_new = ''02ff''"
    by (simp_all add: alice_record_def alice_w2_new_def new_identity_def)
  ultimately show ?thesis
    using concurrent_creates_break_uniqueness [OF _ h1 h2] by (simp add: dict_ok_def)
qed

theorem lost_update_witness:
  "\<exists>r3 s'. snd (update_gdb_data_old_name late_env upd_bio store_alice) = gdb_set ''01ab'' (Rec r3) store_alice
     \<and> swept (1000 + one_year + 1) r3 \<noteq> swept (1000 + one_year + 1) alice_record
     \<and> conc_step\<^sup>*\<^sup>* (store_alice, [Idle, Idle]) (s', [Idle, Idle])
     \<and> gdb_get s' ''01ab'' = Some (Rec (swept (1000 + one_year + 1) alice_record))
     \<and> gdb_get (job_effect (SweepCycle (1000 + one_year + 1)) (job_effect (Request late_env (Update upd_bio)) store_alice)) ''01ab''
          = Some (Rec (swept (1000 + one_year + 1) r3))"
proof (rule lost_update [OF wf_store_alice _ get_store_alice])
  show "no_blocking_stamps store_alice"
    by (simp add: no_blocking_stamps_def store_alice_eq alice_record_def eval_simps)
  show "swept (1000 + one_year + 1) alice_record \<noteq> alice_record"
    by (simp add: swept_def alice_record_def one_year_def eval_simps)
  show "modified_at alice_record \<noteq> Some (Aware (clock late_env))"
    by (simp add: alice_record_def new_identity_def)
  show "get_public_hash (parse_wallet late_env) (p_wallet upd_bio) = Some (''01ab'', 2)"
    by (simp add: late_env_def upd_bio_def demo_env_def addr_w1_def eval_simps)
  show "fst (update_gdb_data_old_name late_env upd_bio store_alice)
      = Inr (Updated (alice_record\<lparr>bio := ''hello'', modified_at := Some (Aware (1000 + one_year + 1))\<rparr>))"
    by (simp add: store_alice_eq late_env_def upd_bio_def demo_env_def addr_w1_def alice_record_def eval_simps)
qed

subsection \<open>Validation\<close>

theorem validated_add_parses_witness:
  "handle_post_request demo_config demo_env (Some add_nl_body) add_nl [] = (Handled (fst (write_gdb_data demo_env add_nl [])), snd (write_gdb_data demo_env add_nl []))
   \<and> fst (write_gdb_data demo_env add_nl []) \<noteq> Inl NameMissing \<and> fst (write_gdb_data demo_env add_nl []) \<noteq> Inl WalletParseFailed"
proof -
  have h: "handle_post_request demo_config demo_env (Some (JObj [(''action'', JStr ''add''), (''name'', JStr (''alice'' @ [CHR 0x0A])), (''wallet'', JStr ''W1'')])) add_nl []
      = (Handled (fst (write_gdb_data demo_env add_nl [])), snd (write_gdb_data demo_env add_nl []))"
    by (simp add: handle_post_request_def validate_json_data_def jget_def disallowed_check_def config_get_def demo_config_def admin_config_def validate_dna_name_def
        re_match_name_def name_char_def demo_env_def split: prod.split)
  have a: "jget ''action'' [(''action'', JStr ''add''), (''name'', JStr (''alice'' @ [CHR 0x0A])), (''wallet'', JStr ''W1'')] = Some (JStr ''add'')"
    by (simp add: jget_def)
  have p: "payload_agrees [(''action'', JStr ''add''), (''name'', JStr (''alice'' @ [CHR 0x0A])), (''wallet'', JStr ''W1'')] add_nl"
    by (simp add: payload_agrees_def jget_def add_nl_def)
  show ?thesis using h validated_add_parses [OF h a p] by (simp add: add_nl_body_def)
qed

theorem add_without_disallowed_list_fails_witness:
  "handle_post_request NoConfigFile demo_env (Some add_admin_body) add_admin store_alice = (ProcessingError, store_alice)"
proof -
  have "validate_dna_name ''Admin''"
    by (simp add: validate_dna_name_def re_match_name_def name_char_def)
  then show ?thesis unfolding add_admin_body_def
    by (rule add_without_disallowed_list_fails [rotated 2]) (simp_all add: jget_def)
qed

theorem update_not_validated_witness:
  "\<not> validate_dna_name ''x''
   \<and> (\<exists>r'. handle_post_request NoConfigFile demo_env
          (Some (JObj [(''action'', JStr ''update''), (''name'', JStr ''x''), (''wallet'', JStr ''W1'')])) upd_x store_alice
        = (Handled (Inr (Updated (r'\<lparr>public_hash := ''01ab''\<rparr>))), gdb_set ''01ab'' (Rec r') store_alice)
      \<and> ''x'' \<in> set (dkeys (registered_names r')))"
proof -
  have n: "payload_name upd_x = ''x''" by (simp add: upd_x_def eval_simps)
  have "\<exists>r'. handle_post_request NoConfigFile demo_env
          (Some (JObj [(''action'', JStr ''update''), (''name'', JStr ''x''), (''wallet'', JStr ''W1'')])) upd_x store_alice
        = (Handled (Inr (Updated (r'\<lparr>public_hash := ''01ab''\<rparr>))), gdb_set ''01ab'' (Rec r') store_alice)
      \<and> payload_name upd_x \<in> set (dkeys (registered_names r'))"
    by (rule update_not_validated [OF _ _ get_store_alice, where sid = 2])
      (simp_all add: n jget_def upd_x_def demo_env_def addr_w1_def guuid_given_def store_alice_eq alice_record_def eval_simps)
  moreover have "\<not> validate_dna_name ''x''" by (simp add: validate_dna_name_def)
  ultimately show ?thesis using n by simp
qed

theorem disallowed_name_case_bypass_witness:
  "\<exists>r. handle_post_request admin_config demo_env (Some add_admin_body) add_admin []
       = (Handled (Inr (Created r)), gdb_set ''01ab'' (Rec r) [])
     \<and> dkeys (registered_names r) = [''admin'']"
proof -
  have "\<exists>r. handle_post_request (ConfigJson (JObj [(''DISALLOWED_NAMES'', JArr (map JStr [''admin'']))])) demo_env
          (Some (JObj [(''action'', JStr ''add''), (''name'', JStr ''Admin''), (''wallet'', JStr ''W1'')])) add_admin []
       = (Handled (Inr (Created r)), gdb_set ''01ab'' (Rec r) []) \<and> dkeys (registered_names r) = [lower ''Admin'']"
    by (rule disallowed_name_case_bypass [where sid = 2 and L = "[''admin'']"])
      (simp_all add: jget_def payload_agrees_def add_admin_def demo_env_def addr_w1_def addr_w2_def validate_dna_name_def
        re_match_name_def name_char_def eval_simps)
  moreover have "lower ''Admin'' = ''admin''" by code_simp
  ultimately show ?thesis by (simp add: admin_config_def add_admin_body_def)
qed

subsection \<open>The verification bot\<close>

theorem whoami_first_match_witness:
  "process_whoami (parse_wallet demo_env) demo_gen (Some ''bob'') store_bob_spoofed = WhoamiNames ''mallory'' []
   \<and> (\<exists>pre k r post. get_all_gdb_data store_bob_spoofed = pre @ (k, r) # post
        \<and> telegram_of r \<noteq> [] \<and> lower (telegram_of r) = lower ''bob''
        \<and> (\<forall>(k0, r0) \<in> set pre. \<not> (telegram_of r0 \<noteq> [] \<and> lower (telegram_of r0) = lower ''bob''))
        \<and> dkeys (registered_names r) = [''mallory''])"
  using whoami_spoofed whoami_first_match [OF whoami_spoofed] by simp

theorem update_without_wallet_rejected_witness:
  "handle_post_request demo_config demo_env (Some (bot_update_body ''bob'' ''alice'')) (bot_update_payload ''bob'' ''alice'') store_alice
     = (Handled (Inl WalletParseFailed), store_alice)"
  unfolding bot_update_body_def
  by (rule update_without_wallet_rejected)
    (simp_all add: jget_def payload_agrees_def bot_update_payload_def empty_payload_def)

theorem request_handler_response_witness:
  "render_http (parse_wallet demo_env) (\<lambda>t. JNull)
     (fst (request_handler demo_cfg (rq_add_alice\<lparr>rq_method := GET\<rparr>) store_alice))
     = Some (nok ''Missing or invalid query parameter!'')
   \<and> response_ok (nok ''Missing or invalid query parameter!'')"
proof -
  have r: "fst (request_handler demo_cfg (rq_add_alice\<lparr>rq_method := GET\<rparr>) store_alice) = RGet MissingParam"
    by (simp add: request_handler_def demo_cfg_def rq_add_alice_def handle_get_request_def
        query_params_def lookup_query_def)
  have "sv_env demo_cfg = demo_env" by (simp add: demo_cfg_def)
  then show ?thesis
    using request_handler_response [where cfg = demo_cfg and sf = "\<lambda>t. JNull"
        and rq = "rq_add_alice\<lparr>rq_method := GET\<rparr>" and s = store_alice] r
    by simp
qed

theorem update_response_leaks_guuid_witness:
  "get_public_hash (parse_wallet demo_env) (Some ''W1'') = Some (''01ab'', 2)
   \<and> gdb_get store_alice ''01ab'' = Some (Rec alice_record) \<and> guuid alice_record = Some ''g-1''
   \<and> handle_post_request demo_config demo_env (Some (JObj [(''action'', JStr ''update''), (''wallet'', JStr ''W1'')]))
        (empty_payload\<lparr>p_wallet := Some ''W1''\<rparr>) store_alice = (Handled (Inr (NoChanges alice_record)), store_alice)
   \<and> map_of (identity_fields (\<lambda>t. JNull) alice_record) ''guuid'' = Some (JStr ''g-1'')"
proof -
  have pk: "get_public_hash (parse_wallet demo_env) (Some ''W1'') = Some (''01ab'', 2)"
    using pk_w1 by (simp add: add_alice_def empty_payload_def)
  have g: "guuid alice_record = Some ''g-1''" by (simp add: alice_record_def new_identity_def)
  show ?thesis
    using update_response_leaks_guuid [OF pk get_store_alice g, where dl = demo_config and sf = "\<lambda>t. JNull"] pk get_store_alice g
    by simp
qed

subsection \<open>The sweeper on reachable stores\<close>

lemma reachable_no_blocking:
  "reachable s \<Longrightarrow> wf_store s \<and> no_blocking_stamps s"
proof (induction rule: reachable.induct)
  case init
  show ?case by (simp add: wf_store_def names_unique_def dict_ok_def no_blocking_stamps_def)
next
  case (request s e a)
  then show ?case
    by (cases a) (simp_all add: write_gdb_data_wf update_gdb_data_old_name_wf
        write_no_blocking update_no_blocking)
next
  case (sweep s now)
  then show ?case by (simp add: remove_expired_cycle_wf sweep_no_blocking)
qed

text \<open>
  C32. The program's own writes never stop the sweeper: in every store reachable from
  the empty one by "add" and "update" requests and sweep cycles, every lease carries an
  aware expiry or an unparsable one, so each sweep cycle completes and removes exactly
  the leases that expired before its clock. The blocking of C9 needs a record written
  by something else (a restored backup, another writer of the database).
\<close>

theorem reachable_sweep_exact:
  "reachable s \<Longrightarrow> remove_expired_cycle now s = (sweep_spec now s, False)"
  using reachable_no_blocking remove_expired_cycle_spec no_blocking_stamps_def by simp

theorem reachable_sweep_exact_witness:
  "reachable store_alice \<and> remove_expired_cycle 0 store_alice = (sweep_spec 0 store_alice, False)"
  using reachable_store_alice reachable_sweep_exact [OF reachable_store_alice] by simp

subsection \<open>The HTTP entry point\<close>

text \<open>
  The error answers of \<^verbatim>\<open>request_handler\<close>, each leaving the store unchanged: a
  non-empty body that is not UTF-8 is answered "Invalid JSON data!" whatever the method
  (also for GET, which never reads the body); a POST without body raises
  \<^verbatim>\<open>UnboundLocalError\<close> (\<^verbatim>\<open>payload\<close> is never assigned) instead of being answered;
  any other method is answered "Invalid request method!".
\<close>

theorem request_handler_errors:
  "(rq_body rq \<noteq> [] \<and> sv_utf8 cfg (rq_body rq) = None \<longrightarrow> request_handler cfg rq s = (RInvalidJson, s))
   \<and> (rq_method rq = POST \<and> rq_body rq = [] \<longrightarrow> request_handler cfg rq s = (RUnboundPayload, s))
   \<and> (rq_method rq = OtherMethod m \<and> (rq_body rq = [] \<or> sv_utf8 cfg (rq_body rq) \<noteq> None)
        \<longrightarrow> request_handler cfg rq s = (RInvalidMethod, s))"
  by (auto simp: request_handler_def)

theorem request_handler_errors_witness:
  "request_handler demo_cfg (rq_add_alice\<lparr>rq_method := GET, rq_body := [255]\<rparr>) [] = (RInvalidJson, [])
   \<and> request_handler demo_cfg (rq_add_alice\<lparr>rq_body := []\<rparr>) [] = (RUnboundPayload, [])
   \<and> request_handler demo_cfg (rq_add_alice\<lparr>rq_method := OtherMethod ''PUT''\<rparr>) [] = (RInvalidMethod, [])"
proof -
  have b: "rq_body (rq_add_alice\<lparr>rq_method := GET, rq_body := [255]\<rparr>) \<noteq> []
      \<and> sv_utf8 demo_cfg (rq_body (rq_add_alice\<lparr>rq_method := GET, rq_body := [255]\<rparr>)) = None"
    by (simp add: demo_cfg_def)
  have o: "sv_utf8 demo_cfg (rq_body (rq_add_alice\<lparr>rq_method := OtherMethod ''PUT''\<rparr>)) \<noteq> None"
    by (simp add: demo_cfg_def rq_add_alice_def)
  show ?thesis
    using request_handler_errors [of "rq_add_alice\<lparr>rq_method := GET, rq_body := [255]\<rparr>" demo_cfg "[]"]
      request_handler_errors [of "rq_add_alice\<lparr>rq_body := []\<rparr>" demo_cfg "[]"]
      request_handler_errors [of "rq_add_alice\<lparr>rq_method := OtherMethod ''PUT''\<rparr>" demo_cfg "[]" "''PUT''"]
      b o by (simp add: rq_add_alice_def)
qed


end
